theory Spec2Isabelle
  imports Main "HOL-Library.Word"
begin


section \<open>Data model of \<^verbatim>\<open>go/v8/binding.cc\<close>\<close>

text \<open>
  The binding glues a script engine to a host. The engine and the host are collaborators
  outside the file; every operation the file calls on them is a field of the record
  \<open>env\<close> below, and every theorem holds for every choice of these fields.

  A C \<^verbatim>\<open>int\<close> is a \<open>32 word\<close> read with \<open>sint\<close>. The text of a script value, and a
  \<^verbatim>\<open>String::Utf8Value\<close> made from it, can hold the character NUL anywhere: it is a \<open>string\<close>
  with all its characters, and a \<^verbatim>\<open>Utf8Value\<close> is a \<open>string option\<close>, \<open>None\<close> when the
  conversion failed and \<^verbatim>\<open>*value\<close> is the null pointer. A \<^verbatim>\<open>char*\<close> that the code reads from
  such a value is a C string: it ends at the first NUL (\<open>c_str\<close>). A \<^verbatim>\<open>char*\<close> that the host
  passes in or returns is the C string it points to.
\<close>

type_synonym cint = "32 word"

text \<open>What a \<^verbatim>\<open>Message\<close> handle gives to \<^verbatim>\<open>ExceptionString\<close>.\<close>

record message =
  ResourceName :: "string option"
  GetLineNumber :: cint
  GetSourceLine :: "string option"
  GetStartColumn :: "cint option"
  GetEndColumn :: "cint option"

text \<open>
  What a \<^verbatim>\<open>TryCatch\<close> holds once an exception has reached it: the exception value and
  the stack trace as their \<^verbatim>\<open>Utf8Value\<close> conversions, and the message handle, \<open>None\<close>
  when \<^verbatim>\<open>message.IsEmpty()\<close>.
\<close>

record try_catch =
  Exception :: "string option"
  Message :: "message option"
  StackTrace :: "string option"

text \<open>
  The result of an engine operation that returns a \<^verbatim>\<open>MaybeLocal\<close>, a \<^verbatim>\<open>Maybe\<close> or a
  handle that can be empty: \<open>Normal v\<close> is the value, \<open>Throw tc\<close> is the empty result
  together with the state \<open>tc\<close> in which the exception leaves the enclosing \<^verbatim>\<open>TryCatch\<close>
  (so \<^verbatim>\<open>try_catch.HasCaught()\<close> holds exactly after a \<open>Throw\<close>).
\<close>

datatype 'a completion = Normal 'a | Throw try_catch

section \<open>Formatting an exception\<close>

definition FromMaybe :: "'a option \<Rightarrow> 'a \<Rightarrow> 'a" where
  "FromMaybe maybe default_value = (case maybe of Some v \<Rightarrow> v | None \<Rightarrow> default_value)"

text \<open>\<^verbatim>\<open>Utf8Value::length()\<close> counts every character of the value, also those after a NUL,
  and is 0 when the conversion failed.\<close>

definition Utf8Value_length :: "string option \<Rightarrow> nat" where
  "Utf8Value_length value = (case value of Some v \<Rightarrow> length v | None \<Rightarrow> 0)"

text \<open>The C string that starts at the first character of a text.\<close>

definition c_str :: "string \<Rightarrow> string" where
  "c_str text = takeWhile (\<lambda>c. c \<noteq> CHR 0x00) text"

text \<open>\<^verbatim>\<open>ToCString\<close> returns \<^verbatim>\<open>*value\<close> or the literal; every use of the result (\<^verbatim>\<open>append\<close>, the
  assignment to a \<^verbatim>\<open>std::string\<close>, \<^verbatim>\<open>printf\<close>) reads it as a C string.\<close>

definition ToCString :: "string option \<Rightarrow> string" where
  "ToCString value = (case value of Some v \<Rightarrow> c_str v | None \<Rightarrow> ''<v8worker: string conversion failed>'')"

text \<open>\<^verbatim>\<open>ToStdString\<close> builds a \<^verbatim>\<open>std::string\<close> from \<^verbatim>\<open>*utf8\<close>, a C string again.\<close>

definition ToStdString :: "string \<Rightarrow> string" where
  "ToStdString value = c_str value"

text \<open>\<^verbatim>\<open>snprintf(scratch, scratchSize, "%i", linenum)\<close>: the decimal digits of a signed
  integer, cut to \<open>scratchSize - 1\<close> characters.\<close>

function decimal :: "nat \<Rightarrow> string" where
  "decimal n = (if n < 10 then [''0123456789'' ! n] else decimal (n div 10) @ [''0123456789'' ! (n mod 10)])"
  by pat_completeness auto
termination
  by (relation "measure (\<lambda>n. n)") auto

definition format_i :: "int \<Rightarrow> string" where
  "format_i k = (if k < 0 then CHR ''-'' # decimal (nat (- k)) else decimal (nat k))"

definition snprintf_i :: "nat \<Rightarrow> cint \<Rightarrow> string" where
  "snprintf_i size_arg k = take (size_arg - 1) (format_i (sint k))"

text \<open>\<^verbatim>\<open>for (int i = from; i < bound; i++) out.append(s);\<close>\<close>

function append_loop :: "string \<Rightarrow> cint \<Rightarrow> cint \<Rightarrow> string \<Rightarrow> string" where
  "append_loop s i bound out = (if i <s bound then append_loop s (i + 1) bound (out @ s) else out)"
  by pat_completeness auto

lemma sint_succ_below:
  fixes i bound :: cint
  assumes "i <s bound"
  shows "sint (i + 1) = sint i + 1"
proof -
  have "sint i < sint bound" using assms by (simp add: word_sless_alt)
  moreover have "sint bound < 2 ^ 31" using sint_lt [of bound] by simp
  moreover have "- (2 ^ 31) \<le> sint i" using sint_ge [of i] by simp
  ultimately have "sint i + 1 < 2 ^ 31" "- (2 ^ 31) \<le> sint i + 1" by linarith+
  then have "signed_take_bit 31 (sint i + 1) = sint i + 1"
    by (simp add: signed_take_bit_int_eq_self)
  then show ?thesis by (simp add: sint_word_ariths)
qed

termination append_loop
  by (relation "measure (\<lambda>(s, i, bound, out). nat (sint bound - sint i))")
     (auto simp: sint_succ_below word_sless_alt)

definition ExceptionString :: "try_catch \<Rightarrow> string" where
  "ExceptionString try_catch =
    (let out = [];
         scratchSize = 20;
         exception_string = ToCString (Exception try_catch)
     in case Message try_catch of
          None \<Rightarrow>
            (let out = out @ exception_string;
                 out = out @ [CHR 0x0A]
             in out)
        | Some message \<Rightarrow>
            (let filename_string = ToCString (ResourceName message);
                 linenum = GetLineNumber message;
                 scratch = snprintf_i scratchSize linenum;
                 out = out @ filename_string;
                 out = out @ '':'';
                 out = out @ scratch;
                 out = out @ [CHR 0x0A];
                 sourceline_string = ToCString (GetSourceLine message);
                 out = out @ sourceline_string;
                 out = out @ [CHR 0x0A];
                 start = FromMaybe (GetStartColumn message) 0;
                 out = append_loop '' '' 0 start out;
                 end_col = FromMaybe (GetEndColumn message) 0;
                 out = append_loop ''^'' start end_col out;
                 out = out @ [CHR 0x0A]
             in if Utf8Value_length (StackTrace try_catch) > 0
                then (let stack_trace_string = ToCString (StackTrace try_catch);
                          out = out @ stack_trace_string;
                          out = out @ [CHR 0x0A]
                      in out)
                else (let out = out @ exception_string;
                          out = out @ [CHR 0x0A]
                      in out)))"

section \<open>Workers, contexts and the collaborators\<close>

text \<open>
  A \<^verbatim>\<open>Module\<close> or \<^verbatim>\<open>Function\<close> object of the engine is known to the binding by its
  identity only (\<^verbatim>\<open>GetIdentityHash\<close>, handle equality), a natural number here. An empty
  \<^verbatim>\<open>Persistent\<close> is \<open>None\<close>.
\<close>

type_synonym module = nat
type_synonym func = nat

datatype js_value = JsUndefined | JsString string | JsFunction func | JsOther nat

record ModuleData =
  url_to_module_map :: "string \<rightharpoonup> module"
  module_to_url_map :: "module \<rightharpoonup> string"

text \<open>A context: the names installed on its global object template and the
  \<^verbatim>\<open>ModuleData\<close> in slot 1 of its embedder data.\<close>

record Context =
  globals :: "string list"
  embedder_data :: ModuleData

record worker =
  id_w :: cint
  last_exception :: string
  recv :: "func option"
  context_w :: Context
  recv_sync_handler :: "func option"

text \<open>
  The host's callbacks \<^verbatim>\<open>getModuleSource\<close>, \<^verbatim>\<open>recvCb\<close> and \<^verbatim>\<open>recvSyncCb\<close> are host code, and
  host code may call the exported functions of the same worker before it returns. What a
  callback does is therefore: it returns (\<^verbatim>\<open>getModuleSource\<close> and \<^verbatim>\<open>recvSyncCb\<close> with a C
  string), or it calls an exported function of the worker and goes on as what that call
  returns makes it.
\<close>

datatype host_call =
    call_worker_load_script string string
  | call_worker_load_module string
  | call_worker_send string
  | call_worker_send_sync string
  | call_worker_last_exception

datatype reply = returned_code cint | returned_string string

datatype 'a callback = Return 'a | Call host_call "reply \<Rightarrow> 'a callback"

text \<open>
  Calls that leave the file are recorded in the order they happen, and so is the return
  of every call that a host callback makes into the worker. A callback is recorded with
  the number of \<^verbatim>\<open>Locker\<close> objects of the isolate that are alive when it is called.
\<close>

datatype event =
    getModuleSource_called cint string
  | CompileModule_called string
  | recvCb_called cint string nat
  | recvSyncCb_called cint string nat
  | stdout_written string
  | host_call_returned host_call reply

text \<open>
  The state of a run is the worker, the number of \<^verbatim>\<open>Module\<close> objects the engine has created
  so far (the next one gets this number as its identity), the record of calls, and the
  number of live \<^verbatim>\<open>Locker\<close> objects. The class \<^verbatim>\<open>v8::Locker\<close> is the engine's; by its
  documentation it is a scoped lock: the thread holds the lock of the isolate from the
  construction of the object to its destruction at the end of the enclosing block, and the
  thread that holds the lock may construct further ones, nested. The lock of the isolate
  is free exactly when no \<^verbatim>\<open>Locker\<close> is alive. All calls are calls of one thread.
\<close>

record state =
  worker_of :: worker
  modules_created :: nat
  events :: "event list"
  lockers :: nat

definition Locker_construct :: "state \<Rightarrow> state" where
  "Locker_construct s = s\<lparr>lockers := Suc (lockers s)\<rparr>"

definition Locker_destruct :: "state \<Rightarrow> state" where
  "Locker_destruct s = s\<lparr>lockers := lockers s - 1\<rparr>"

text \<open>
  An assertion that fails and a dereference of an empty handle, of an end iterator or of a
  null pointer stop the process; they are the \<open>Inl\<close> results of the functions below.
\<close>

datatype fault = AssertionFailed | EmptyHandle | EndIterator | NullPointer

text \<open>
  Script code reaches the binding only through the functions installed on the global
  object. What the engine does when it runs script code is therefore, for the binding, the
  list of these calls with their arguments, in order, and the completion of the run.
\<close>

datatype global_function = G_print | G_recv | G_send | G_sendSync | G_recvSync

record run =
  calls :: "(global_function \<times> js_value list) list"
  result :: "js_value completion"

text \<open>
  The collaborators. \<open>getModuleSource\<close>, \<open>recvCb\<close> and \<open>recvSyncCb\<close> are the host's exported
  functions; the other fields are the engine: compiling a module yields its module
  requests, compiling a script yields the run that \<^verbatim>\<open>script->Run()\<close> performs, instantiating
  a module is given the resolve callback.
\<close>

record env =
  getModuleSource :: "cint \<Rightarrow> string \<Rightarrow> string callback"
  recvCb :: "cint \<Rightarrow> string \<Rightarrow> unit callback"
  recvSyncCb :: "cint \<Rightarrow> string \<Rightarrow> string callback"
  CompileModule :: "string \<Rightarrow> string \<Rightarrow> string list completion"
  InstantiateModule :: "module \<Rightarrow> (string \<Rightarrow> module \<Rightarrow> fault + module) \<Rightarrow> fault + bool completion"
  Evaluate :: "module \<Rightarrow> run"
  Script_Compile :: "string \<Rightarrow> string \<Rightarrow> run completion"
  Function_Call :: "func \<Rightarrow> js_value list \<Rightarrow> run"
  ToString_utf8 :: "js_value \<Rightarrow> string option"

definition ToLocal :: "'a completion \<Rightarrow> 'a option" where
  "ToLocal maybe = (case maybe of Normal v \<Rightarrow> Some v | Throw tc \<Rightarrow> None)"

text \<open>A \<^verbatim>\<open>TryCatch\<close> that has caught nothing: its handles are empty.\<close>

definition TryCatch_new :: try_catch where
  "TryCatch_new = \<lparr>Exception = None, Message = None, StackTrace = None\<rparr>"

definition catch :: "try_catch \<Rightarrow> 'a completion \<Rightarrow> try_catch" where
  "catch try_catch maybe = (case maybe of Normal v \<Rightarrow> try_catch | Throw tc \<Rightarrow> tc)"

definition Utf8Value :: "env \<Rightarrow> js_value \<Rightarrow> string option" where
  "Utf8Value E v = (case v of JsString str \<Rightarrow> Some str | _ \<Rightarrow> ToString_utf8 E v)"

text \<open>\<^verbatim>\<open>String::NewFromUtf8(isolate, data)\<close> reads the C string at \<open>data\<close>.\<close>

definition NewFromUtf8 :: "string \<Rightarrow> string" where
  "NewFromUtf8 data = c_str data"

definition IsString :: "js_value \<Rightarrow> bool" where
  "IsString v = (case v of JsString str \<Rightarrow> True | _ \<Rightarrow> False)"

text \<open>\<^verbatim>\<open>strcpy(c, value.c_str())\<close>\<close>

definition CopyString :: "string \<Rightarrow> string" where
  "CopyString value = c_str value"

definition set_last_exception :: "state \<Rightarrow> string \<Rightarrow> state" where
  "set_last_exception s e = s\<lparr>worker_of := (worker_of s)\<lparr>last_exception := e\<rparr>\<rparr>"

definition record_event :: "state \<Rightarrow> event \<Rightarrow> state" where
  "record_event s e = s\<lparr>events := events s @ [e]\<rparr>"

section \<open>The calls of the host into the worker\<close>

text \<open>
  What a call of an exported function by the host does: it may stop the process, or it
  returns to the host; \<open>None\<close> says that it has not returned within the bound on nested
  calls (see \<open>exported\<close> below).
\<close>

type_synonym host = "host_call \<Rightarrow> state \<Rightarrow> (fault + state \<times> reply) option"

text \<open>One run of a host callback: the calls that it makes into the worker, in order, and
  what it returns.\<close>

primrec run_callback :: "'a callback \<Rightarrow> host \<Rightarrow> state \<Rightarrow> (fault + state \<times> 'a) option" where
  "run_callback (Return x) host s = Some (Inr (s, x))"
| "run_callback (Call c continue) host s =
    (case host c s of
       None \<Rightarrow> None
     | Some (Inl f) \<Rightarrow> Some (Inl f)
     | Some (Inr (s, r)) \<Rightarrow>
         run_callback (continue r) host (record_event s (host_call_returned c r)))"

section \<open>The module data\<close>

definition InitModuleData :: ModuleData where
  "InitModuleData = \<lparr>url_to_module_map = Map.empty, module_to_url_map = Map.empty\<rparr>"

definition GetModuleData :: "Context \<Rightarrow> ModuleData" where
  "GetModuleData context = embedder_data context"

text \<open>\<^verbatim>\<open>std::unordered_map::insert\<close> leaves the map as it is when the key is present.\<close>

definition insert_pair :: "('k \<rightharpoonup> 'v) \<Rightarrow> 'k \<Rightarrow> 'v \<Rightarrow> ('k \<rightharpoonup> 'v)" where
  "insert_pair m k v = (case m k of None \<Rightarrow> m(k \<mapsto> v) | Some present \<Rightarrow> m)"

text \<open>\<^verbatim>\<open>find\<close> returns the end iterator for an absent key, and the callback dereferences
  what it returns.\<close>

definition ResolveModuleCallback :: "Context \<Rightarrow> string \<Rightarrow> module \<Rightarrow> fault + module" where
  "ResolveModuleCallback context url referrer =
    (let d = GetModuleData context;
         url_str = ToStdString url
     in case url_to_module_map d url_str of
          None \<Rightarrow> Inl EndIterator
        | Some module_it \<Rightarrow> Inr module_it)"

definition insert_module :: "state \<Rightarrow> string \<Rightarrow> module \<Rightarrow> state" where
  "insert_module s url_str m =
    (let w = worker_of s;
         context = context_w w;
         d = GetModuleData context;
         d = d\<lparr>url_to_module_map := insert_pair (url_to_module_map d) url_str m\<rparr>;
         d = d\<lparr>module_to_url_map := insert_pair (module_to_url_map d) m url_str\<rparr>
     in s\<lparr>worker_of := w\<lparr>context_w := context\<lparr>embedder_data := d\<rparr>\<rparr>\<rparr>)"

section \<open>Loading a module and its requests\<close>

text \<open>
  \<^verbatim>\<open>LoadModule\<close> calls itself for every module request of the module it has compiled.
  The first argument bounds the depth of these calls; \<open>None\<close> says that the bound was
  reached. The reference parameter \<^verbatim>\<open>mod\<close> is the second component of the result: it
  stays empty, with the exception of the failed compilation pending, on both early
  returns. The url is the text of a script string; the map key and the argument of
  \<^verbatim>\<open>getModuleSource\<close> are the \<^verbatim>\<open>std::string\<close> made from it. \<open>host\<close> is the behaviour of the calls
  that \<^verbatim>\<open>getModuleSource\<close> makes into the worker.
\<close>

fun LoadModule :: "nat \<Rightarrow> host \<Rightarrow> env \<Rightarrow> state \<Rightarrow> string \<Rightarrow> (fault + state \<times> module completion) option"
  and LoadModule_requests :: "nat \<Rightarrow> host \<Rightarrow> env \<Rightarrow> state \<Rightarrow> string list \<Rightarrow> (fault + state \<times> unit completion) option"
where
  "LoadModule 0 host E s url = None"
| "LoadModule (Suc depth) host E s url =
    (let url_str = ToStdString url;
         w = worker_of s;
         s = record_event s (getModuleSource_called (id_w w) url_str)
     in case run_callback (getModuleSource E (id_w w) url_str) host s of
          None \<Rightarrow> None
        | Some (Inl f) \<Rightarrow> Some (Inl f)
        | Some (Inr (s, source_str)) \<Rightarrow>
            (let source_text = NewFromUtf8 source_str;
                 compiled = CompileModule E url source_text;
                 s = record_event s (CompileModule_called url_str)
             in case compiled of
                  Throw tc \<Rightarrow> Some (Inr (s, Throw tc))
                | Normal requests \<Rightarrow>
                    (let m = modules_created s;
                         s = s\<lparr>modules_created := Suc m\<rparr>;
                         s = insert_module s url_str m
                     in case LoadModule_requests depth host E s requests of
                          None \<Rightarrow> None
                        | Some (Inl f) \<Rightarrow> Some (Inl f)
                        | Some (Inr (s, Throw tc)) \<Rightarrow> Some (Inr (s, Throw tc))
                        | Some (Inr (s, Normal u)) \<Rightarrow> Some (Inr (s, Normal m)))))"
| "LoadModule_requests depth host E s [] = Some (Inr (s, Normal ()))"
| "LoadModule_requests depth host E s (name # rest) =
    (case LoadModule depth host E s name of
       None \<Rightarrow> None
     | Some (Inl f) \<Rightarrow> Some (Inl f)
     | Some (Inr (s, Throw tc)) \<Rightarrow> Some (Inr (s, Throw tc))
     | Some (Inr (s, Normal submodule)) \<Rightarrow> LoadModule_requests depth host E s rest)"

section \<open>The functions installed on the global object\<close>

text \<open>
  \<^verbatim>\<open>args[0]\<close> is undefined when the call has no argument. \<^verbatim>\<open>assert(v->IsFunction())\<close> and
  \<^verbatim>\<open>assert(v->IsString())\<close> fail on every other kind of value; \<^verbatim>\<open>assert(w->isolate == isolate)\<close>
  holds since \<^verbatim>\<open>worker_init\<close> stores the worker in the data slot of its own isolate.
  What \<open>$print\<close> writes is recorded as one event.
\<close>

definition arg0 :: "js_value list \<Rightarrow> js_value" where
  "arg0 args = (case args of [] \<Rightarrow> JsUndefined | v # rest \<Rightarrow> v)"

fun Print_loop :: "env \<Rightarrow> bool \<Rightarrow> js_value list \<Rightarrow> string \<Rightarrow> string" where
  "Print_loop E first [] out = out"
| "Print_loop E first (v # args) out =
    (let out = (if first then out else out @ '' '');
         cstr = ToCString (Utf8Value E v)
     in Print_loop E False args (out @ cstr))"

definition Print :: "env \<Rightarrow> state \<Rightarrow> js_value list \<Rightarrow> fault + state \<times> js_value" where
  "Print E s args =
    Inr (record_event s (stdout_written (Print_loop E True args [] @ [CHR 0x0A])), JsUndefined)"

definition Recv :: "state \<Rightarrow> js_value list \<Rightarrow> fault + state \<times> js_value" where
  "Recv s args =
    (let w = worker_of s; v = arg0 args
     in case v of
          JsFunction func \<Rightarrow> Inr (s\<lparr>worker_of := w\<lparr>recv := Some func\<rparr>\<rparr>, JsUndefined)
        | _ \<Rightarrow> Inl AssertionFailed)"

definition RecvSync :: "state \<Rightarrow> js_value list \<Rightarrow> fault + state \<times> js_value" where
  "RecvSync s args =
    (let w = worker_of s; v = arg0 args
     in case v of
          JsFunction func \<Rightarrow> Inr (s\<lparr>worker_of := w\<lparr>recv_sync_handler := Some func\<rparr>\<rparr>, JsUndefined)
        | _ \<Rightarrow> Inl AssertionFailed)"

text \<open>
  The block of \<^verbatim>\<open>Send\<close> and of \<^verbatim>\<open>SendSync\<close>: a \<^verbatim>\<open>Locker\<close> is constructed, the argument is
  checked and copied into \<^verbatim>\<open>msg\<close>, and the \<^verbatim>\<open>Locker\<close> is destroyed where the block ends,
  before the host is called.
\<close>

definition message_block :: "env \<Rightarrow> state \<Rightarrow> js_value list \<Rightarrow> fault + state \<times> string" where
  "message_block E s args =
    (let s = Locker_construct s;
         v = arg0 args
     in if \<not> IsString v then Inl AssertionFailed
        else (let msg = ToCString (Utf8Value E v);
                  s = Locker_destruct s
              in Inr (s, msg)))"

definition Send :: "host \<Rightarrow> env \<Rightarrow> state \<Rightarrow> js_value list \<Rightarrow> (fault + state \<times> js_value) option" where
  "Send host E s args =
    (case message_block E s args of
       Inl f \<Rightarrow> Some (Inl f)
     | Inr (s, msg) \<Rightarrow>
         (let w = worker_of s;
              s = record_event s (recvCb_called (id_w w) msg (lockers s))
          in case run_callback (recvCb E (id_w w) msg) host s of
               None \<Rightarrow> None
             | Some (Inl f) \<Rightarrow> Some (Inl f)
             | Some (Inr (s, u)) \<Rightarrow> Some (Inr (s, JsUndefined))))"

definition SendSync :: "host \<Rightarrow> env \<Rightarrow> state \<Rightarrow> js_value list \<Rightarrow> (fault + state \<times> js_value) option" where
  "SendSync host E s args =
    (case message_block E s args of
       Inl f \<Rightarrow> Some (Inl f)
     | Inr (s, msg) \<Rightarrow>
         (let w = worker_of s;
              s = record_event s (recvSyncCb_called (id_w w) msg (lockers s))
          in case run_callback (recvSyncCb E (id_w w) msg) host s of
               None \<Rightarrow> None
             | Some (Inl f) \<Rightarrow> Some (Inl f)
             | Some (Inr (s, returnMsg)) \<Rightarrow>
                 (let returnV = JsString (NewFromUtf8 returnMsg)
                  in Some (Inr (s, returnV)))))"

definition invoke :: "host \<Rightarrow> env \<Rightarrow> state \<Rightarrow> global_function \<Rightarrow> js_value list \<Rightarrow> (fault + state \<times> js_value) option" where
  "invoke host E s g args =
    (case g of
       G_print \<Rightarrow> Some (Print E s args)
     | G_recv \<Rightarrow> Some (Recv s args)
     | G_send \<Rightarrow> Send host E s args
     | G_sendSync \<Rightarrow> SendSync host E s args
     | G_recvSync \<Rightarrow> Some (RecvSync s args))"

fun run_calls :: "host \<Rightarrow> env \<Rightarrow> state \<Rightarrow> (global_function \<times> js_value list) list \<Rightarrow> (fault + state) option" where
  "run_calls host E s [] = Some (Inr s)"
| "run_calls host E s (c # cs) =
    (case invoke host E s (fst c) (snd c) of
       None \<Rightarrow> None
     | Some (Inl f) \<Rightarrow> Some (Inl f)
     | Some (Inr (s, returned)) \<Rightarrow> run_calls host E s cs)"

text \<open>The engine runs script code: the calls happen, then the run completes. Script code
  is taken to finish.\<close>

definition perform :: "host \<Rightarrow> env \<Rightarrow> state \<Rightarrow> run \<Rightarrow> (fault + state \<times> js_value completion) option" where
  "perform host E s r =
    (case run_calls host E s (calls r) of
       None \<Rightarrow> None
     | Some (Inl f) \<Rightarrow> Some (Inl f)
     | Some (Inr s) \<Rightarrow> Some (Inr (s, result r)))"

section \<open>The exported functions\<close>

text \<open>
  Each exported function constructs a \<^verbatim>\<open>Locker\<close> first, which is destroyed when it
  returns, and holds one \<^verbatim>\<open>TryCatch\<close> for its whole body;
  \<^verbatim>\<open>assert(try_catch.HasCaught())\<close> after an empty result holds by the meaning of \<open>Throw\<close>.
  \<^verbatim>\<open>worker_send_sync\<close> has no \<^verbatim>\<open>TryCatch\<close> and calls \<^verbatim>\<open>IsString\<close> on the handle that the call
  returns, which is empty when the receiver has thrown. \<^verbatim>\<open>CopyString\<close> returns a copy of
  the characters; the size of the buffer it allocates is not part of the model.

  The functions are given first for any behaviour \<open>host\<close> of the calls that a host callback
  makes while the function runs; \<open>depth\<close> bounds the calls of \<^verbatim>\<open>LoadModule\<close> within itself.
\<close>

definition worker_load_module_with :: "nat \<Rightarrow> host \<Rightarrow> env \<Rightarrow> state \<Rightarrow> string \<Rightarrow> (fault + state \<times> cint) option" where
  "worker_load_module_with depth host E s url_s =
    (let s = Locker_construct s;
         try_catch = TryCatch_new;
         url = NewFromUtf8 url_s
     in case LoadModule depth host E s url of
          None \<Rightarrow> None
        | Some (Inl f) \<Rightarrow> Some (Inl f)
        | Some (Inr (s, maybe_mod)) \<Rightarrow>
            (let try_catch = catch try_catch maybe_mod
             in case ToLocal maybe_mod of
                  None \<Rightarrow>
                    Some (Inr (Locker_destruct (set_last_exception s (ExceptionString try_catch)), 1))
                | Some m \<Rightarrow>
                    (case InstantiateModule E m (ResolveModuleCallback (context_w (worker_of s))) of
                       Inl f \<Rightarrow> Some (Inl f)
                     | Inr instantiated \<Rightarrow>
                         (let try_catch = catch try_catch instantiated
                          in if \<not> FromMaybe (ToLocal instantiated) False
                             then Some (Inr (Locker_destruct
                                              (set_last_exception s (ExceptionString try_catch)), 2))
                             else (case perform host E s (Evaluate E m) of
                                     None \<Rightarrow> None
                                   | Some (Inl f) \<Rightarrow> Some (Inl f)
                                   | Some (Inr (s, maybe_result)) \<Rightarrow>
                                       (let try_catch = catch try_catch maybe_result
                                        in case ToLocal maybe_result of
                                             None \<Rightarrow>
                                               Some (Inr (Locker_destruct
                                                            (set_last_exception s (ExceptionString try_catch)), 3))
                                           | Some value_result \<Rightarrow> Some (Inr (Locker_destruct s, 0))))))))"

definition worker_load_script_with :: "host \<Rightarrow> env \<Rightarrow> state \<Rightarrow> string \<Rightarrow> string \<Rightarrow> (fault + state \<times> cint) option" where
  "worker_load_script_with host E s name_s source_s =
    (let s = Locker_construct s;
         try_catch = TryCatch_new;
         name = NewFromUtf8 name_s;
         source = NewFromUtf8 source_s;
         compiled = Script_Compile E source name;
         try_catch = catch try_catch compiled
     in case ToLocal compiled of
          None \<Rightarrow>
            Some (Inr (Locker_destruct (set_last_exception s (ExceptionString try_catch)), 1))
        | Some script \<Rightarrow>
            (case perform host E s script of
               None \<Rightarrow> None
             | Some (Inl f) \<Rightarrow> Some (Inl f)
             | Some (Inr (s, maybe_result)) \<Rightarrow>
                 (let try_catch = catch try_catch maybe_result
                  in case ToLocal maybe_result of
                       None \<Rightarrow>
                         Some (Inr (Locker_destruct (set_last_exception s (ExceptionString try_catch)), 2))
                     | Some value_result \<Rightarrow> Some (Inr (Locker_destruct s, 0)))))"

definition worker_send_with :: "host \<Rightarrow> env \<Rightarrow> state \<Rightarrow> string \<Rightarrow> (fault + state \<times> cint) option" where
  "worker_send_with host E s msg =
    (let s = Locker_construct s;
         try_catch = TryCatch_new
     in case recv (worker_of s) of
          None \<Rightarrow>
            Some (Inr (Locker_destruct
                         (set_last_exception s ''v8worker: callback not registered with $recv''), 1))
        | Some recv_fn \<Rightarrow>
            (let args = [JsString (NewFromUtf8 msg)]
             in case perform host E s (Function_Call E recv_fn args) of
                  None \<Rightarrow> None
                | Some (Inl f) \<Rightarrow> Some (Inl f)
                | Some (Inr (s, returned)) \<Rightarrow>
                    (let try_catch = catch try_catch returned
                     in case returned of
                          Throw caught \<Rightarrow>
                            Some (Inr (Locker_destruct
                                         (set_last_exception s (ExceptionString try_catch)), 2))
                        | Normal v \<Rightarrow> Some (Inr (Locker_destruct s, 0)))))"

definition worker_send_sync_with :: "host \<Rightarrow> env \<Rightarrow> state \<Rightarrow> string \<Rightarrow> (fault + state \<times> string) option" where
  "worker_send_sync_with host E s msg =
    (let out = [];
         s = Locker_construct s
     in case recv_sync_handler (worker_of s) of
          None \<Rightarrow>
            (let out = out @ ''v8worker: callback not registered with $recvSync''
             in Some (Inr (Locker_destruct s, CopyString out)))
        | Some handler \<Rightarrow>
            (let args = [JsString (NewFromUtf8 msg)]
             in case perform host E s (Function_Call E handler args) of
                  None \<Rightarrow> None
                | Some (Inl f) \<Rightarrow> Some (Inl f)
                | Some (Inr (s, Throw caught)) \<Rightarrow> Some (Inl EmptyHandle)
                | Some (Inr (s, Normal response_value)) \<Rightarrow>
                    if IsString response_value
                    then (case Utf8Value E response_value of
                            None \<Rightarrow> Some (Inl NullPointer)
                          | Some response \<Rightarrow>
                              Some (Inr (Locker_destruct s, CopyString (out @ c_str response))))
                    else Some (Inr (Locker_destruct s,
                                    CopyString (out @ ''v8worker: non-string return value'')))))"

text \<open>\<^verbatim>\<open>worker_init\<close> makes the worker of a new isolate: no module has been created, nothing
  has been recorded, and the \<^verbatim>\<open>Locker\<close> that it constructs is destroyed when it returns.\<close>

definition worker_init :: "cint \<Rightarrow> cint \<Rightarrow> state" where
  "worker_init id_arg enable_print =
    (let global = [];
         global = (if enable_print \<noteq> 0 then global @ [''$print''] else global);
         global = global @ [''$recv''];
         global = global @ [''$send''];
         global = global @ [''$sendSync''];
         global = global @ [''$recvSync''];
         context = \<lparr>globals = global, embedder_data = InitModuleData\<rparr>
     in \<lparr>worker_of = \<lparr>id_w = id_arg, last_exception = [], recv = None, context_w = context,
                        recv_sync_handler = None\<rparr>,
         modules_created = 0, events = [], lockers = 0\<rparr>)"

definition worker_last_exception :: "state \<Rightarrow> string" where
  "worker_last_exception s = CopyString (last_exception (worker_of s))"


text \<open>
  A call by the host is a call of the exported function it names, and so are the calls
  that the host makes from a callback during that call. The first argument bounds how
  deep calls from host callbacks are nested in each other; at the bound a call does not
  return, and a call that returns under one bound returns the same under every larger
  one (\<open>larger_bound\<close>).
\<close>

definition code_reply :: "(fault + state \<times> cint) option \<Rightarrow> (fault + state \<times> reply) option" where
  "code_reply r = map_option (map_sum id (\<lambda>(s, code). (s, returned_code code))) r"

definition string_reply :: "(fault + state \<times> string) option \<Rightarrow> (fault + state \<times> reply) option" where
  "string_reply r = map_option (map_sum id (\<lambda>(s, out). (s, returned_string out))) r"

primrec exported :: "nat \<Rightarrow> env \<Rightarrow> host" where
  "exported 0 E = (\<lambda>c s. None)"
| "exported (Suc n) E = (\<lambda>c s.
    case c of
      call_worker_load_script name_s source_s \<Rightarrow>
        code_reply (worker_load_script_with (exported n E) E s name_s source_s)
    | call_worker_load_module url_s \<Rightarrow>
        code_reply (worker_load_module_with n (exported n E) E s url_s)
    | call_worker_send msg \<Rightarrow>
        code_reply (worker_send_with (exported n E) E s msg)
    | call_worker_send_sync msg \<Rightarrow>
        string_reply (worker_send_sync_with (exported n E) E s msg)
    | call_worker_last_exception \<Rightarrow>
        Some (Inr (s, returned_string (worker_last_exception s))))"

text \<open>
  The exported functions as the host calls them from outside every callback. In
  \<^verbatim>\<open>worker_load_module\<close> the one bound serves for the depth of \<^verbatim>\<open>LoadModule\<close> too.
\<close>

definition worker_load_module :: "nat \<Rightarrow> env \<Rightarrow> state \<Rightarrow> string \<Rightarrow> (fault + state \<times> cint) option" where
  "worker_load_module n E s url_s = worker_load_module_with n (exported n E) E s url_s"

definition worker_load_script :: "nat \<Rightarrow> env \<Rightarrow> state \<Rightarrow> string \<Rightarrow> string \<Rightarrow> (fault + state \<times> cint) option" where
  "worker_load_script n E s name_s source_s = worker_load_script_with (exported n E) E s name_s source_s"

definition worker_send :: "nat \<Rightarrow> env \<Rightarrow> state \<Rightarrow> string \<Rightarrow> (fault + state \<times> cint) option" where
  "worker_send n E s msg = worker_send_with (exported n E) E s msg"

definition worker_send_sync :: "nat \<Rightarrow> env \<Rightarrow> state \<Rightarrow> string \<Rightarrow> (fault + state \<times> string) option" where
  "worker_send_sync n E s msg = worker_send_sync_with (exported n E) E s msg"

section \<open>Notions used to state the properties\<close>

text \<open>The layout of a diagnostic as the specification words it: each part on a line of
  its own, in a fixed order. \<open>spec_Diagnostic\<close> takes every text whole. \<open>Diagnostic\<close> takes
  every text up to its first NUL character, and the stack trace when it has a character
  at all.\<close>

definition spec_line :: "string \<Rightarrow> string" where
  "spec_line text = text @ [CHR 0x0A]"

definition spec_caret_underline :: "int \<Rightarrow> int \<Rightarrow> string" where
  "spec_caret_underline start_column end_column =
     replicate (nat start_column) (CHR '' '') @ replicate (nat (end_column - start_column)) (CHR ''^'')"

definition spec_text :: "string option \<Rightarrow> string" where
  "spec_text value = (case value of Some v \<Rightarrow> v | None \<Rightarrow> ''<v8worker: string conversion failed>'')"

definition spec_Diagnostic :: "try_catch \<Rightarrow> string" where
  "spec_Diagnostic tc =
    (case Message tc of
       None \<Rightarrow> spec_line (spec_text (Exception tc))
     | Some m \<Rightarrow>
         spec_line (spec_text (ResourceName m) @ '':'' @ format_i (sint (GetLineNumber m)))
         @ spec_line (spec_text (GetSourceLine m))
         @ spec_line (spec_caret_underline (sint (FromMaybe (GetStartColumn m) 0))
                        (sint (FromMaybe (GetEndColumn m) 0)))
         @ spec_line (case StackTrace tc of
                        Some trace \<Rightarrow> if trace \<noteq> [] then trace else spec_text (Exception tc)
                      | None \<Rightarrow> spec_text (Exception tc)))"

definition up_to_NUL :: "string \<Rightarrow> string" where
  "up_to_NUL text = takeWhile (\<lambda>c. c \<noteq> CHR 0x00) text"

definition C_text :: "string option \<Rightarrow> string" where
  "C_text value =
     (case value of Some v \<Rightarrow> up_to_NUL v | None \<Rightarrow> ''<v8worker: string conversion failed>'')"

definition Diagnostic :: "try_catch \<Rightarrow> string" where
  "Diagnostic tc =
    (case Message tc of
       None \<Rightarrow> spec_line (C_text (Exception tc))
     | Some m \<Rightarrow>
         spec_line (C_text (ResourceName m) @ '':'' @ format_i (sint (GetLineNumber m)))
         @ spec_line (C_text (GetSourceLine m))
         @ spec_line (spec_caret_underline (sint (FromMaybe (GetStartColumn m) 0))
                        (sint (FromMaybe (GetEndColumn m) 0)))
         @ spec_line (case StackTrace tc of
                        Some trace \<Rightarrow> if trace \<noteq> [] then up_to_NUL trace else C_text (Exception tc)
                      | None \<Rightarrow> C_text (Exception tc)))"

text \<open>A host whose \<^verbatim>\<open>getModuleSource\<close> returns without calling into the worker, and the
  source that it returns.\<close>

definition returned_source :: "env \<Rightarrow> cint \<Rightarrow> string \<Rightarrow> string" where
  "returned_source E wid url_str =
     (case getModuleSource E wid url_str of Return source_str \<Rightarrow> source_str | Call c continue \<Rightarrow> [])"

definition plain_sources :: "env \<Rightarrow> bool" where
  "plain_sources E \<longleftrightarrow>
     (\<forall>wid url_str. getModuleSource E wid url_str = Return (returned_source E wid url_str))"

text \<open>The module graph that the collaborators define for a worker when the host is such a
  host: the result of compiling what the host returns for a url, and the urls a load of
  \<open>url\<close> can reach through the requests of modules that compile.\<close>

definition compiled_source :: "env \<Rightarrow> cint \<Rightarrow> string \<Rightarrow> string list completion" where
  "compiled_source E wid url =
     CompileModule E url (NewFromUtf8 (returned_source E wid (ToStdString url)))"

inductive transitive_import :: "env \<Rightarrow> cint \<Rightarrow> string \<Rightarrow> string \<Rightarrow> bool" for E wid where
  here: "transitive_import E wid url url"
| request: "compiled_source E wid url = Normal requests \<Longrightarrow> name \<in> set requests \<Longrightarrow>
     transitive_import E wid name u \<Longrightarrow> transitive_import E wid url u"

text \<open>A graph without import cycles: every request has a smaller rank than the module
  that makes it.\<close>

definition ranked_imports :: "env \<Rightarrow> cint \<Rightarrow> (string \<Rightarrow> nat) \<Rightarrow> bool" where
  "ranked_imports E wid rank \<longleftrightarrow>
     (\<forall>url requests name. compiled_source E wid url = Normal requests \<longrightarrow> name \<in> set requests \<longrightarrow>
        rank name < rank url)"

definition url_map :: "state \<Rightarrow> string \<rightharpoonup> module" where
  "url_map s = url_to_module_map (GetModuleData (context_w (worker_of s)))"

definition module_map :: "state \<Rightarrow> module \<rightharpoonup> string" where
  "module_map s = module_to_url_map (GetModuleData (context_w (worker_of s)))"

text \<open>Every url entry has its inverse entry, and the modules entered are modules that
  the engine has created.\<close>

definition url_entries_inverse :: "state \<Rightarrow> bool" where
  "url_entries_inverse s \<longleftrightarrow>
     (\<forall>url m. url_map s url = Some m \<longrightarrow> module_map s m = Some url) \<and>
     (\<forall>m url. module_map s m = Some url \<longrightarrow> m < modules_created s)"

text \<open>The states of \<^verbatim>\<open>LoadModule\<close>: in which it calls \<^verbatim>\<open>getModuleSource\<close>; in which it
  leaves when the compilation fails, \<open>s1\<close> being the state in which \<^verbatim>\<open>getModuleSource\<close> has
  returned; and in which it enters the loop over the module requests.\<close>

definition asked :: "state \<Rightarrow> string \<Rightarrow> state" where
  "asked s url = record_event s (getModuleSource_called (id_w (worker_of s)) (ToStdString url))"

definition compiled :: "state \<Rightarrow> string \<Rightarrow> state" where
  "compiled s1 url = record_event s1 (CompileModule_called (ToStdString url))"

definition inserted :: "state \<Rightarrow> string \<Rightarrow> state" where
  "inserted s1 url =
     insert_module ((compiled s1 url)\<lparr>modules_created := Suc (modules_created s1)\<rparr>)
       (ToStdString url) (modules_created s1)"

text \<open>The same two states when \<^verbatim>\<open>getModuleSource\<close> returns without calling into the
  worker.\<close>

definition fetched :: "env \<Rightarrow> state \<Rightarrow> string \<Rightarrow> state" where
  "fetched E s url = compiled (asked s url) url"

definition entered :: "env \<Rightarrow> state \<Rightarrow> string \<Rightarrow> state" where
  "entered E s url = inserted (asked s url) url"

text \<open>
  What a call adds to the record: the events after those of the state it started in.
  Of these, the numbers of live \<^verbatim>\<open>Locker\<close> objects at the calls of the host's callbacks,
  and whether one of them is the return of a failure code to a host callback.
\<close>

definition added :: "state \<Rightarrow> state \<Rightarrow> event list" where
  "added s s' = drop (length (events s)) (events s')"

definition lockers_at_callbacks :: "event list \<Rightarrow> nat list" where
  "lockers_at_callbacks es =
     concat (map (\<lambda>e. case e of recvCb_called wid msg k \<Rightarrow> [k]
                            | recvSyncCb_called wid msg k \<Rightarrow> [k]
                            | _ \<Rightarrow> []) es)"

definition failed_call :: "event \<Rightarrow> bool" where
  "failed_call e =
     (case e of
        host_call_returned c r \<Rightarrow>
          (case r of returned_code code \<Rightarrow> code \<noteq> 0 | returned_string out \<Rightarrow> False)
      | _ \<Rightarrow> False)"

text \<open>
  What every part of a call keeps: the live \<^verbatim>\<open>Locker\<close> objects and the id of the worker
  are at the end what they were at the start, the record grows, every callback of the
  host added to it was called under at least \<open>lockers s + extra\<close> live \<^verbatim>\<open>Locker\<close> objects,
  and \<open>last_exception\<close> is what it was when no failure code was returned to a host
  callback and, for an exported function, \<open>ok\<close> says that it has not failed itself.
\<close>

definition kept :: "nat \<Rightarrow> bool \<Rightarrow> state \<Rightarrow> state \<Rightarrow> bool" where
  "kept extra ok s s' \<longleftrightarrow>
     lockers s' = lockers s \<and>
     id_w (worker_of s') = id_w (worker_of s) \<and>
     events s' = events s @ added s s' \<and>
     (\<forall>k \<in> set (lockers_at_callbacks (added s s')). lockers s + extra \<le> k) \<and>
     (ok \<and> filter failed_call (added s s') = [] \<longrightarrow>
        last_exception (worker_of s') = last_exception (worker_of s))"

definition reply_ok :: "reply \<Rightarrow> bool" where
  "reply_ok r = (case r of returned_code code \<Rightarrow> code = 0 | returned_string out \<Rightarrow> True)"

definition kept_by :: "host \<Rightarrow> bool" where
  "kept_by host \<longleftrightarrow> (\<forall>c s s' r. host c s = Some (Inr (s', r)) \<longrightarrow> kept 1 (reply_ok r) s s')"

text \<open>A behaviour of the host's calls that returns wherever another one does, with the
  same result.\<close>

definition host_le :: "host \<Rightarrow> host \<Rightarrow> bool" where
  "host_le host host' \<longleftrightarrow> (\<forall>c s r. host c s = Some r \<longrightarrow> host' c s = Some r)"

definition state_of :: "(fault + state \<times> 'a) option \<Rightarrow> state" where
  "state_of r = fst (projr (the r))"

section \<open>Example collaborators\<close>

text \<open>Collaborators built from a module graph: the host returns a text for every url, the
  engine compiles it to the requests that the graph gives for the url, instantiation and
  evaluation succeed, scripts and functions do nothing, and the host's callbacks make no
  calls.\<close>

definition idle_run :: run where
  "idle_run = \<lparr>calls = [], result = Normal JsUndefined\<rparr>"

definition graph_env :: "(string \<Rightarrow> string list completion) \<Rightarrow> env" where
  "graph_env compile =
    \<lparr>getModuleSource = (\<lambda>wid url. Return (''source of '' @ url)),
     recvCb = (\<lambda>wid msg. Return ()),
     recvSyncCb = (\<lambda>wid msg. Return []),
     CompileModule = (\<lambda>url source. compile url),
     InstantiateModule = (\<lambda>m resolve. Inr (Normal True)),
     Evaluate = (\<lambda>m. idle_run),
     Script_Compile = (\<lambda>source name. Normal idle_run),
     Function_Call = (\<lambda>f args. idle_run),
     ToString_utf8 = (\<lambda>v. None)\<rparr>"

definition no_imports :: "string \<Rightarrow> string list completion" where
  "no_imports url = Normal []"

definition cycle_graph :: "string \<Rightarrow> string list completion" where
  "cycle_graph url = (if url = ''A'' then Normal [''B''] else if url = ''B'' then Normal [''A''] else Normal [])"

definition diamond_graph :: "string \<Rightarrow> string list completion" where
  "diamond_graph url =
     (if url = ''root'' then Normal [''b'', ''c'']
      else if url = ''b'' then Normal [''d'']
      else if url = ''c'' then Normal [''d'']
      else Normal [])"

definition syntax_error :: try_catch where
  "syntax_error = \<lparr>Exception = Some ''SyntaxError: Unexpected token'', Message = None, StackTrace = None\<rparr>"

text \<open>The root requests a module that requests itself, and then a module that does not
  compile.\<close>

definition loop_and_failure_graph :: "string \<Rightarrow> string list completion" where
  "loop_and_failure_graph url =
     (if url = ''root'' then Normal [''loop'', ''bad'']
      else if url = ''loop'' then Normal [''loop'']
      else if url = ''bad'' then Throw syntax_error
      else Normal [])"

definition failure_and_loop_graph :: "string \<Rightarrow> string list completion" where
  "failure_and_loop_graph url =
     (if url = ''root'' then Normal [''bad'', ''loop'']
      else if url = ''loop'' then Normal [''loop'']
      else if url = ''bad'' then Throw syntax_error
      else Normal [])"

definition failing_import_graph :: "string \<Rightarrow> string list completion" where
  "failing_import_graph url =
     (if url = ''root'' then Normal [''ok'', ''bad'']
      else if url = ''bad'' then Throw syntax_error
      else Normal [])"

definition link_failure_env :: env where
  "link_failure_env = (graph_env no_imports)\<lparr>InstantiateModule := (\<lambda>m resolve. Inr (Throw syntax_error))\<rparr>"

definition evaluation_failure_env :: env where
  "evaluation_failure_env =
     (graph_env no_imports)\<lparr>Evaluate := (\<lambda>m. \<lparr>calls = [], result = Throw syntax_error\<rparr>)\<rparr>"

text \<open>Collaborators for the message channels: the script registers function 2 with
  \<open>$recv\<close> and function 3 with \<open>$recvSync\<close>. Function 2 passes its argument to \<open>$send\<close>,
  and function 3 passes it to \<open>$sendSync\<close> and returns a value that is not a string.\<close>

definition boot_run :: run where
  "boot_run = \<lparr>calls = [(G_recv, [JsFunction 2]), (G_recvSync, [JsFunction 3])],
               result = Normal JsUndefined\<rparr>"

definition messaging_env :: "(func \<Rightarrow> js_value list \<Rightarrow> run) \<Rightarrow> env" where
  "messaging_env call =
     (graph_env no_imports)\<lparr>Script_Compile := (\<lambda>source name. Normal boot_run), Function_Call := call\<rparr>"

definition echo_call :: "func \<Rightarrow> js_value list \<Rightarrow> run" where
  "echo_call f args =
     (if f = 2 then \<lparr>calls = [(G_send, args)], result = Normal JsUndefined\<rparr>
      else \<lparr>calls = [(G_sendSync, args)], result = Normal (JsOther 0)\<rparr>)"

definition throwing_call :: "func \<Rightarrow> js_value list \<Rightarrow> run" where
  "throwing_call f args = \<lparr>calls = [], result = Throw syntax_error\<rparr>"

definition booted :: "env \<Rightarrow> state" where
  "booted E = state_of (worker_load_script 0 E (worker_init 1 0) ''boot.js'' ''$recv(f); $recvSync(g);'')"

text \<open>A host whose \<^verbatim>\<open>recvCb\<close> calls \<^verbatim>\<open>worker_send\<close> on the same worker and, when that
  fails, \<^verbatim>\<open>worker_last_exception\<close>; and a script that calls \<open>$send\<close>.\<close>

definition send_run :: run where
  "send_run = \<lparr>calls = [(G_send, [JsString ''ping''])], result = Normal JsUndefined\<rparr>"

definition reentrant_env :: env where
  "reentrant_env =
     (graph_env no_imports)\<lparr>Script_Compile := (\<lambda>source name. Normal send_run),
                             recvCb := (\<lambda>wid msg.
                               Call (call_worker_send ''pong'')
                                 (\<lambda>r. if r = returned_code 0 then Return ()
                                      else Call call_worker_last_exception (\<lambda>r. Return ())))\<rparr>"

text \<open>A host whose \<^verbatim>\<open>recvCb\<close> calls \<^verbatim>\<open>worker_send_sync\<close> on the same worker and whose
  \<^verbatim>\<open>recvSyncCb\<close> makes no call; function 2 passes its argument to \<open>$send\<close>, function 3
  passes it to \<open>$sendSync\<close> and returns a string.\<close>

text \<open>A host whose \<^verbatim>\<open>getModuleSource\<close> calls \<^verbatim>\<open>worker_send\<close> on the same worker before it
  returns the source.\<close>

definition reentrant_source_env :: env where
  "reentrant_source_env =
     (graph_env no_imports)\<lparr>getModuleSource := (\<lambda>wid url.
                               Call (call_worker_send ''pong'') (\<lambda>r. Return (''source of '' @ url)))\<rparr>"

definition nested_call :: "func \<Rightarrow> js_value list \<Rightarrow> run" where
  "nested_call f args =
     (if f = 2 then \<lparr>calls = [(G_send, args)], result = Normal JsUndefined\<rparr>
      else \<lparr>calls = [(G_sendSync, args)], result = Normal (JsString ''done'')\<rparr>)"

definition nested_env :: env where
  "nested_env =
     (messaging_env nested_call)\<lparr>recvCb := (\<lambda>wid msg. Call (call_worker_send_sync ''query'') (\<lambda>r. Return ())),
                                  recvSyncCb := (\<lambda>wid msg. Return ''reply'')\<rparr>"

section \<open>Facts about the formatting\<close>

lemma append_loop_replicate:
  "append_loop [c] i bound out = out @ replicate (nat (sint bound - sint i)) c"
proof (induction "[c]" i bound out rule: append_loop.induct)
  case (1 i bound out)
  show ?case
  proof (cases "i <s bound")
    case True
    then have s: "sint (i + 1) = sint i + 1" by (rule sint_succ_below)
    from True have lt: "sint i < sint bound" by (simp add: word_sless_alt)
    have "append_loop [c] i bound out = append_loop [c] (i + 1) bound (out @ [c])"
      using True by (subst append_loop.simps) simp
    also have "\<dots> = (out @ [c]) @ replicate (nat (sint bound - sint (i + 1))) c"
      using 1 True by simp
    also have "\<dots> = out @ replicate (Suc (nat (sint bound - sint (i + 1)))) c"
      by simp
    also have "Suc (nat (sint bound - sint (i + 1))) = nat (sint bound - sint i)"
      using s lt by simp
    finally show ?thesis .
  next
    case False
    then have "sint bound \<le> sint i" by (simp add: word_sless_alt)
    then show ?thesis using False by (subst append_loop.simps) simp
  qed
qed

lemma length_decimal: "n < 10 ^ k \<Longrightarrow> 0 < k \<Longrightarrow> length (decimal n) \<le> k"
proof (induction k arbitrary: n)
  case 0
  then show ?case by simp
next
  case (Suc k)
  show ?case
  proof (cases "n < 10")
    case True
    then show ?thesis by (subst decimal.simps) simp
  next
    case False
    then have k: "0 < k" using Suc.prems by (cases k) auto
    have "n div 10 < 10 ^ k" using Suc.prems by (simp add: less_mult_imp_div_less mult.commute)
    then have "length (decimal (n div 10)) \<le> k" using Suc.IH k by blast
    then show ?thesis using False by (subst decimal.simps) simp
  qed
qed

lemma length_format_i: "length (format_i (sint (k :: cint))) \<le> 19"
proof -
  have "- (2 ^ 31) \<le> sint k" "sint k < 2 ^ 31"
    using sint_ge [of k] sint_lt [of k] by simp_all
  then have r: "- 2147483648 \<le> sint k" "sint k < 2147483648" by simp_all
  have "nat (sint k) < 10000000000" "nat (- sint k) < 10000000000" using r by linarith+
  then have "nat (sint k) < 10 ^ 10" "nat (- sint k) < 10 ^ 10" by simp_all
  then have "length (decimal (nat (sint k))) \<le> 10" "length (decimal (nat (- sint k))) \<le> 10"
    by (simp_all only: length_decimal zero_less_numeral)
  then show ?thesis by (simp add: format_i_def)
qed

lemma c_str_up_to_NUL: "c_str text = up_to_NUL text"
  by (simp add: c_str_def up_to_NUL_def)

lemma ToCString_C_text: "ToCString value = C_text value"
  by (simp add: ToCString_def C_text_def c_str_up_to_NUL split: option.splits)

lemma c_str_idem [simp]: "c_str (c_str text) = c_str text"
  by (simp add: c_str_def takeWhile_idem)

lemma ExceptionString_Diagnostic: "ExceptionString tc = Diagnostic tc"
proof (cases "Message tc")
  case None
  then show ?thesis by (simp add: ExceptionString_def Diagnostic_def spec_line_def ToCString_C_text)
next
  case (Some m)
  have take: "snprintf_i 20 (GetLineNumber m) = format_i (sint (GetLineNumber m))"
    using length_format_i [of "GetLineNumber m"] by (simp add: snprintf_i_def)
  have sp: "append_loop '' '' i b out = out @ replicate (nat (sint b - sint i)) (CHR '' '')" for i b out
    by (rule append_loop_replicate)
  have ca: "append_loop ''^'' i b out = out @ replicate (nat (sint b - sint i)) (CHR ''^'')" for i b out
    by (rule append_loop_replicate)
  show ?thesis
  proof (cases "StackTrace tc")
    case None
    show ?thesis
      unfolding ExceptionString_def Diagnostic_def Let_def spec_line_def spec_caret_underline_def
        ToCString_C_text
      by (simp only: Some None option.case take sp ca) (simp add: Utf8Value_length_def)
  next
    case (Some t)
    show ?thesis
      unfolding ExceptionString_def Diagnostic_def Let_def spec_line_def spec_caret_underline_def
        ToCString_C_text
      by (simp only: \<open>Message tc = Some m\<close> Some option.case take sp ca)
         (simp add: C_text_def Utf8Value_length_def)
  qed
qed

section \<open>Facts about what a call keeps\<close>

lemma Locker_destruct_construct [simp]: "Locker_destruct (Locker_construct s) = s"
  by (simp add: Locker_destruct_def Locker_construct_def)

lemma message_block_eq:
  "message_block E s args =
     (if IsString (arg0 args) then Inr (s, ToCString (Utf8Value E (arg0 args))) else Inl AssertionFailed)"
  by (simp add: message_block_def Let_def)

lemma added_self [simp]: "added s s = []"
  by (simp add: added_def)

lemma added_append: "events s' = events s @ new \<Longrightarrow> added s s' = new"
  by (simp add: added_def)

lemma lockers_at_callbacks_append [simp]:
  "lockers_at_callbacks (xs @ ys) = lockers_at_callbacks xs @ lockers_at_callbacks ys"
  by (simp add: lockers_at_callbacks_def)

lemma lockers_at_callbacks_Nil [simp]: "lockers_at_callbacks [] = []"
  by (simp add: lockers_at_callbacks_def)

lemma kept_same:
  assumes "events s' = events s" and "lockers s' = lockers s"
    and "id_w (worker_of s') = id_w (worker_of s)"
    and "last_exception (worker_of s') = last_exception (worker_of s)"
  shows "kept extra ok s s'"
  using assms by (simp add: kept_def added_def)

lemma kept_refl: "kept extra ok s s"
  by (rule kept_same) simp_all

lemma kept_trans:
  assumes a: "kept extra ok1 s s1" and b: "kept extra ok2 s1 s2"
  shows "kept extra (ok1 \<and> ok2) s s2"
proof -
  have e1: "events s1 = events s @ added s s1" and e2: "events s2 = events s1 @ added s1 s2"
    using a b by (simp_all add: kept_def)
  have "events s2 = events s @ (added s s1 @ added s1 s2)" using e1 e2 by simp
  then have ad: "added s s2 = added s s1 @ added s1 s2" by (rule added_append)
  have l: "lockers s1 = lockers s" using a by (simp add: kept_def)
  show ?thesis
    unfolding kept_def ad
    using a b l e1 e2 by (auto simp: kept_def)
qed

lemma kept_trans_True:
  "kept extra True s s1 \<Longrightarrow> kept extra True s1 s2 \<Longrightarrow> kept extra True s s2"
  using kept_trans [of extra True s s1 True s2] by simp

lemma kept_weaken:
  "kept extra ok s s' \<Longrightarrow> extra' \<le> extra \<Longrightarrow> (ok' \<Longrightarrow> ok) \<Longrightarrow> kept extra' ok' s s'"
  by (auto simp: kept_def)

lemma kept_record_event:
  assumes "\<not> failed_call e" and "\<forall>k \<in> set (lockers_at_callbacks [e]). lockers s + extra \<le> k"
  shows "kept extra ok s (record_event s e)"
  using assms by (simp add: kept_def record_event_def added_def)

lemma kept_returned:
  assumes "kept extra (reply_ok r) s s1"
  shows "kept extra True s (record_event s1 (host_call_returned c r))"
proof -
  let ?e = "host_call_returned c r"
  have e1: "events s1 = events s @ added s s1" using assms by (simp add: kept_def)
  then have "events (record_event s1 ?e) = events s @ (added s s1 @ [?e])"
    by (simp add: record_event_def)
  then have ad: "added s (record_event s1 ?e) = added s s1 @ [?e]" by (rule added_append)
  have f: "failed_call ?e \<longleftrightarrow> \<not> reply_ok r"
    by (simp add: failed_call_def reply_ok_def split: reply.splits)
  have c: "lockers_at_callbacks [?e] = []" by (simp add: lockers_at_callbacks_def)
  show ?thesis
    unfolding kept_def ad
    using assms e1 f c by (auto simp: kept_def record_event_def)
qed

lemma kept_exported_ok:
  assumes "kept 0 True (Locker_construct s) s1"
  shows "kept 1 True s (Locker_destruct s1)"
  using assms by (simp add: kept_def Locker_construct_def Locker_destruct_def added_def)

lemma kept_exported_failed:
  assumes "kept 0 True (Locker_construct s) s1"
  shows "kept 1 False s (Locker_destruct (set_last_exception s1 e))"
  using assms
  by (simp add: kept_def Locker_construct_def Locker_destruct_def added_def set_last_exception_def)

section \<open>Facts about the callbacks of the host\<close>

lemma run_callback_kept:
  assumes h: "kept_by host"
  shows "run_callback cb host s = Some (Inr (s', x)) \<Longrightarrow> kept 1 True s s'"
proof (induction cb arbitrary: s)
  case (Return y)
  then show ?case by (simp add: kept_refl)
next
  case (Call c continue)
  from Call.prems obtain s1 r where c: "host c s = Some (Inr (s1, r))"
    and rest: "run_callback (continue r) host (record_event s1 (host_call_returned c r)) = Some (Inr (s', x))"
    by (auto split: option.splits sum.splits)
  have "kept 1 (reply_ok r) s s1" using h c unfolding kept_by_def by blast
  then have "kept 1 True s (record_event s1 (host_call_returned c r))" by (rule kept_returned)
  moreover have "kept 1 True (record_event s1 (host_call_returned c r)) s'"
    using rest by (rule Call.IH [OF rangeI])
  ultimately show ?case by (rule kept_trans_True)
qed

lemma run_callback_added:
  assumes "kept_by host" and "run_callback cb host (record_event s e) = Some (Inr (s', x))"
  shows "added s s' = e # added (record_event s e) s'"
proof -
  have "kept 1 True (record_event s e) s'"
    using assms by (rule run_callback_kept)
  then have "events s' = events (record_event s e) @ added (record_event s e) s'"
    by (simp add: kept_def)
  then have "events s' = events s @ (e # added (record_event s e) s')"
    by (simp add: record_event_def)
  then show ?thesis by (rule added_append)
qed

lemma run_callback_kept_0:
  "kept_by host \<Longrightarrow> run_callback cb host s = Some (Inr (s', x)) \<Longrightarrow> kept 0 True s s'"
  using run_callback_kept [of host cb s s' x] kept_weaken [of 1 True s s' 0 True] by simp

text \<open>A callback that has returned under one behaviour of the calls it makes returns the
  same under every behaviour that returns wherever that one does.\<close>

lemma run_callback_mono:
  assumes h: "host_le host host'"
  shows "run_callback cb host s = Some r \<Longrightarrow> run_callback cb host' s = Some r"
proof (induction cb arbitrary: s)
  case (Return x)
  then show ?case by simp
next
  case (Call c continue)
  from Call.prems obtain x where x: "host c s = Some x"
    by (cases "host c s") auto
  then have x': "host' c s = Some x" using h by (simp add: host_le_def)
  show ?case
  proof (cases x)
    case (Inl f)
    then show ?thesis using Call.prems x x' by simp
  next
    case (Inr p)
    obtain s1 rep where p: "p = (s1, rep)" by (cases p)
    have "run_callback (continue rep) host (record_event s1 (host_call_returned c rep)) = Some r"
      using Call.prems x Inr p by simp
    then have "run_callback (continue rep) host' (record_event s1 (host_call_returned c rep)) = Some r"
      by (rule Call.IH [OF rangeI])
    then show ?thesis using x' Inr p by simp
  qed
qed

section \<open>Facts about the module loader\<close>

lemma id_w_record_event [simp]: "id_w (worker_of (record_event s e)) = id_w (worker_of s)"
  by (simp add: record_event_def)

lemma modules_created_record_event [simp]: "modules_created (record_event s e) = modules_created s"
  by (simp add: record_event_def)

lemma LoadModule_Suc_any:
  "LoadModule (Suc depth) host E s url =
     (case run_callback (getModuleSource E (id_w (worker_of s)) (ToStdString url)) host (asked s url) of
        None \<Rightarrow> None
      | Some (Inl f) \<Rightarrow> Some (Inl f)
      | Some (Inr (s1, source_str)) \<Rightarrow>
          (case CompileModule E url (NewFromUtf8 source_str) of
             Throw tc \<Rightarrow> Some (Inr (compiled s1 url, Throw tc))
           | Normal requests \<Rightarrow>
               (case LoadModule_requests depth host E (inserted s1 url) requests of
                  None \<Rightarrow> None
                | Some (Inl f) \<Rightarrow> Some (Inl f)
                | Some (Inr (s', Throw tc)) \<Rightarrow> Some (Inr (s', Throw tc))
                | Some (Inr (s', Normal u)) \<Rightarrow> Some (Inr (s', Normal (modules_created s1))))))"
  by (simp add: Let_def asked_def compiled_def inserted_def
      split: option.splits sum.splits completion.splits)

declare LoadModule.simps(2) [simp del]

lemma LoadModule_requests_Cons:
  "LoadModule_requests depth host E s (name # rest) =
    (case LoadModule depth host E s name of
       None \<Rightarrow> None
     | Some (Inl f) \<Rightarrow> Some (Inl f)
     | Some (Inr (s1, Throw tc)) \<Rightarrow> Some (Inr (s1, Throw tc))
     | Some (Inr (s1, Normal submodule)) \<Rightarrow> LoadModule_requests depth host E s1 rest)"
  by simp

text \<open>What the loader keeps, whatever the calls that \<^verbatim>\<open>getModuleSource\<close> makes into the
  worker.\<close>

lemma kept_asked: "kept extra ok s (asked s url)"
  by (simp add: kept_def asked_def record_event_def added_def lockers_at_callbacks_def
      failed_call_def)

lemma kept_compiled: "kept extra ok s1 (compiled s1 url)"
  by (simp add: kept_def compiled_def record_event_def added_def lockers_at_callbacks_def
      failed_call_def)

lemma kept_inserted: "kept extra ok s1 (inserted s1 url)"
  by (simp add: kept_def inserted_def compiled_def record_event_def added_def
      lockers_at_callbacks_def failed_call_def insert_module_def Let_def)

lemma LoadModule_kept_both:
  assumes h: "kept_by host"
  shows "(LoadModule depth host E s url = Some (Inr (s', r)) \<longrightarrow> kept 1 True s s') \<and>
         (LoadModule_requests depth host E s names = Some (Inr (s', q)) \<longrightarrow> kept 1 True s s')"
proof (induction depth arbitrary: s url s' r names q)
  case 0
  have "LoadModule_requests 0 host E s names = Some (Inr (s', q)) \<longrightarrow> kept 1 True s s'"
    by (cases names) (auto simp: kept_refl)
  then show ?case by simp
next
  case (Suc depth)
  have IH2: "\<And>s names s' q. LoadModule_requests depth host E s names = Some (Inr (s', q)) \<Longrightarrow>
      kept 1 True s s'"
    using Suc.IH by blast
  have step: "kept 1 True s s'" if a: "LoadModule (Suc depth) host E s url = Some (Inr (s', r))"
    for s url s' r
  proof -
    let ?cb = "getModuleSource E (id_w (worker_of s)) (ToStdString url)"
    obtain s1 source_str where c: "run_callback ?cb host (asked s url) = Some (Inr (s1, source_str))"
      using a by (auto simp: LoadModule_Suc_any split: option.splits sum.splits)
    have "kept 1 True (asked s url) s1" using h c by (rule run_callback_kept)
    with kept_asked have k1: "kept 1 True s s1" by (rule kept_trans_True)
    show ?thesis
    proof (cases "CompileModule E url (NewFromUtf8 source_str)")
      case (Throw tc)
      then have "s' = compiled s1 url" using a c by (simp add: LoadModule_Suc_any)
      then show ?thesis using k1 kept_compiled [of 1 True s1 url] by (auto intro: kept_trans_True)
    next
      case (Normal requests)
      then obtain q where "LoadModule_requests depth host E (inserted s1 url) requests = Some (Inr (s', q))"
        using a c by (auto simp: LoadModule_Suc_any split: option.splits sum.splits completion.splits)
      then have "kept 1 True (inserted s1 url) s'" by (rule IH2)
      with kept_inserted have "kept 1 True s1 s'" by (rule kept_trans_True)
      with k1 show ?thesis by (rule kept_trans_True)
    qed
  qed
  have loop: "kept 1 True s s'"
    if "LoadModule_requests (Suc depth) host E s names = Some (Inr (s', q))" for s names s' q
    using that
  proof (induction names arbitrary: s)
    case Nil
    then show ?case by (simp add: kept_refl)
  next
    case (Cons name rest)
    from Cons.prems obtain s1 r1 where l: "LoadModule (Suc depth) host E s name = Some (Inr (s1, r1))"
      by (auto simp: LoadModule_requests_Cons split: option.splits sum.splits)
    then have k: "kept 1 True s s1" by (rule step)
    show ?case
    proof (cases r1)
      case (Normal m)
      with Cons.prems l have "LoadModule_requests (Suc depth) host E s1 rest = Some (Inr (s', q))"
        by (simp add: LoadModule_requests_Cons)
      then have "kept 1 True s1 s'" by (rule Cons.IH)
      with k show ?thesis by (rule kept_trans_True)
    next
      case (Throw tc)
      with Cons.prems l have "s' = s1" by (simp add: LoadModule_requests_Cons)
      with k show ?thesis by simp
    qed
  qed
  show ?case using step loop by blast
qed

lemma LoadModule_kept:
  "kept_by host \<Longrightarrow> LoadModule depth host E s url = Some (Inr (s', r)) \<Longrightarrow> kept 1 True s s'"
  using LoadModule_kept_both [of host depth E s url s' r] by simp

text \<open>A load that returns within a depth bound returns the same under every larger bound,
  and under every behaviour of the host's calls that returns wherever the given one
  does.\<close>

lemma LoadModule_deeper:
  assumes h: "host_le host host'"
  shows "(LoadModule depth host E s url = Some p \<longrightarrow> LoadModule (Suc depth) host' E s url = Some p) \<and>
   (LoadModule_requests depth host E s names = Some q \<longrightarrow>
      LoadModule_requests (Suc depth) host' E s names = Some q)"
proof (induction depth arbitrary: s url p names q)
  case 0
  have "LoadModule_requests 0 host E s names = Some q \<longrightarrow> LoadModule_requests (Suc 0) host' E s names = Some q"
    by (cases names) auto
  then show ?case by simp
next
  case (Suc depth)
  have IH2: "\<And>s names q. LoadModule_requests depth host E s names = Some q \<Longrightarrow>
      LoadModule_requests (Suc depth) host' E s names = Some q"
    using Suc.IH by blast
  have step: "LoadModule (Suc (Suc depth)) host' E s url = Some p"
    if a: "LoadModule (Suc depth) host E s url = Some p" for s url p
  proof -
    let ?cb = "getModuleSource E (id_w (worker_of s)) (ToStdString url)"
    obtain x where x: "run_callback ?cb host (asked s url) = Some x"
      using a by (cases "run_callback ?cb host (asked s url)") (auto simp: LoadModule_Suc_any)
    have x': "run_callback ?cb host' (asked s url) = Some x" using h x by (rule run_callback_mono)
    show ?thesis
    proof (cases x)
      case (Inl f)
      then show ?thesis using a x x' by (simp add: LoadModule_Suc_any)
    next
      case (Inr y)
      obtain s1 source_str where y: "y = (s1, source_str)" by (cases y)
      show ?thesis
      proof (cases "CompileModule E url (NewFromUtf8 source_str)")
        case (Throw tc)
        then show ?thesis using a x x' Inr y by (simp add: LoadModule_Suc_any)
      next
        case (Normal requests)
        then obtain z where z: "LoadModule_requests depth host E (inserted s1 url) requests = Some z"
          using a x Inr y
          by (cases "LoadModule_requests depth host E (inserted s1 url) requests")
             (auto simp: LoadModule_Suc_any)
        then have "LoadModule_requests (Suc depth) host' E (inserted s1 url) requests = Some z"
          by (rule IH2)
        then show ?thesis
          using a x x' Inr y Normal z
          by (simp add: LoadModule_Suc_any [of "Suc depth"] LoadModule_Suc_any [of depth])
      qed
    qed
  qed
  have loop: "LoadModule_requests (Suc (Suc depth)) host' E s names = Some q"
    if "LoadModule_requests (Suc depth) host E s names = Some q" for s names q
    using that
  proof (induction names arbitrary: s)
    case Nil
    then show ?case by simp
  next
    case (Cons name rest)
    from Cons.prems obtain x where l: "LoadModule (Suc depth) host E s name = Some x"
      by (cases "LoadModule (Suc depth) host E s name") (auto simp: LoadModule_requests_Cons)
    then have l': "LoadModule (Suc (Suc depth)) host' E s name = Some x" by (rule step)
    show ?case
    proof (cases x)
      case (Inl f)
      then show ?thesis using Cons.prems l l' by (simp add: LoadModule_requests_Cons)
    next
      case (Inr y)
      obtain s1 r1 where y: "y = (s1, r1)" by (cases y)
      show ?thesis
      proof (cases r1)
        case (Normal m)
        with Cons.prems l Inr y have "LoadModule_requests (Suc depth) host E s1 rest = Some q"
          by (simp add: LoadModule_requests_Cons)
        then have "LoadModule_requests (Suc (Suc depth)) host' E s1 rest = Some q" by (rule Cons.IH)
        with l' Inr y Normal show ?thesis by (simp add: LoadModule_requests_Cons)
      next
        case (Throw tc)
        with Cons.prems l l' Inr y show ?thesis by (simp add: LoadModule_requests_Cons)
      qed
    qed
  qed
  show ?case using step loop by blast
qed

lemma host_le_refl: "host_le host host"
  by (simp add: host_le_def)

lemma LoadModule_any_deeper:
  "LoadModule depth host E s url = Some p \<Longrightarrow> LoadModule (depth + k) host E s url = Some p"
  by (induction k) (simp_all add: LoadModule_deeper [OF host_le_refl])

section \<open>The module loader when the host returns the sources without calling into the worker\<close>

lemma LoadModule_Suc:
  assumes "plain_sources E"
  shows "LoadModule (Suc depth) host E s url =
     (case compiled_source E (id_w (worker_of s)) url of
        Throw tc \<Rightarrow> Some (Inr (fetched E s url, Throw tc))
      | Normal requests \<Rightarrow>
          (case LoadModule_requests depth host E (entered E s url) requests of
             None \<Rightarrow> None
           | Some (Inl f) \<Rightarrow> Some (Inl f)
           | Some (Inr (s', Throw tc)) \<Rightarrow> Some (Inr (s', Throw tc))
           | Some (Inr (s', Normal u)) \<Rightarrow> Some (Inr (s', Normal (modules_created s)))))"
proof -
  have g: "getModuleSource E (id_w (worker_of s)) (ToStdString url) =
      Return (returned_source E (id_w (worker_of s)) (ToStdString url))"
    using assms by (simp add: plain_sources_def)
  have m: "modules_created (asked s url) = modules_created s" by (simp add: asked_def)
  show ?thesis
    by (simp add: LoadModule_Suc_any g m compiled_source_def fetched_def entered_def
        split: completion.splits
        cong: option.case_cong sum.case_cong prod.case_cong completion.case_cong)
qed

theorem LoadModule_rule:
  assumes plain: "plain_sources E"
    and compile_fails: "\<And>s url tc. compiled_source E (id_w (worker_of s)) url = Throw tc \<Longrightarrow>
            P s url (fetched E s url) (Throw tc)"
    and request_fails: "\<And>s url requests s' tc. compiled_source E (id_w (worker_of s)) url = Normal requests \<Longrightarrow>
            Q (entered E s url) requests s' (Throw tc) \<Longrightarrow> P s url s' (Throw tc)"
    and loaded: "\<And>s url requests s'. compiled_source E (id_w (worker_of s)) url = Normal requests \<Longrightarrow>
            Q (entered E s url) requests s' (Normal ()) \<Longrightarrow> P s url s' (Normal (modules_created s))"
    and no_requests: "\<And>s. Q s [] s (Normal ())"
    and first_fails: "\<And>s name rest s1 tc. P s name s1 (Throw tc) \<Longrightarrow> Q s (name # rest) s1 (Throw tc)"
    and first_loaded: "\<And>s name rest s1 m s2 q. P s name s1 (Normal m) \<Longrightarrow> Q s1 rest s2 q \<Longrightarrow>
            Q s (name # rest) s2 q"
  shows "(LoadModule depth host E s url = Some (Inr (s', r)) \<longrightarrow> P s url s' r) \<and>
         (LoadModule_requests depth host E s names = Some (Inr (s', q)) \<longrightarrow> Q s names s' q)"
proof (induction depth arbitrary: s url s' r names q)
  case 0
  have "LoadModule_requests 0 host E s names = Some (Inr (s', q)) \<longrightarrow> Q s names s' q"
    by (cases names) (auto intro: no_requests)
  then show ?case by simp
next
  case (Suc depth)
  note S = LoadModule_Suc [OF plain]
  have IH2: "\<And>s names s' q. LoadModule_requests depth host E s names = Some (Inr (s', q)) \<Longrightarrow>
      Q s names s' q"
    using Suc.IH by blast
  have step: "P s url s' r" if a: "LoadModule (Suc depth) host E s url = Some (Inr (s', r))"
    for s url s' r
  proof (cases "compiled_source E (id_w (worker_of s)) url")
    case (Throw tc)
    with a have "s' = fetched E s url" "r = Throw tc" by (simp_all add: S)
    with Throw show ?thesis by (simp add: compile_fails)
  next
    case (Normal requests)
    then obtain s2 q2 where
      l: "LoadModule_requests depth host E (entered E s url) requests = Some (Inr (s2, q2))"
      using a by (auto simp: S split: option.splits sum.splits)
    have q2: "Q (entered E s url) requests s2 q2" using l by (rule IH2)
    show ?thesis
    proof (cases q2)
      case (Normal u)
      with a \<open>compiled_source E (id_w (worker_of s)) url = Normal requests\<close> l
      have "s' = s2" "r = Normal (modules_created s)" by (simp_all add: S)
      with q2 Normal \<open>compiled_source E (id_w (worker_of s)) url = Normal requests\<close>
      show ?thesis by (simp add: loaded)
    next
      case (Throw tc)
      with a \<open>compiled_source E (id_w (worker_of s)) url = Normal requests\<close> l
      have "s' = s2" "r = Throw tc" by (simp_all add: S)
      with q2 Throw \<open>compiled_source E (id_w (worker_of s)) url = Normal requests\<close>
      show ?thesis using request_fails by blast
    qed
  qed
  have loop: "Q s names s' q"
    if "LoadModule_requests (Suc depth) host E s names = Some (Inr (s', q))" for s names s' q
    using that
  proof (induction names arbitrary: s)
    case Nil
    then show ?case by (auto intro: no_requests)
  next
    case (Cons name rest)
    from Cons.prems obtain s1 r1 where l: "LoadModule (Suc depth) host E s name = Some (Inr (s1, r1))"
      by (auto simp: LoadModule_requests_Cons split: option.splits sum.splits)
    then have p: "P s name s1 r1" by (rule step)
    show ?case
    proof (cases r1)
      case (Normal m)
      with Cons.prems l have "LoadModule_requests (Suc depth) host E s1 rest = Some (Inr (s', q))"
        by (simp add: LoadModule_requests_Cons)
      then have "Q s1 rest s' q" by (rule Cons.IH)
      with p Normal show ?thesis using first_loaded by blast
    next
      case (Throw tc)
      with Cons.prems l have "s' = s1" "q = Throw tc" by (simp_all add: LoadModule_requests_Cons)
      with p Throw show ?thesis using first_fails by blast
    qed
  qed
  show ?case using step loop by blast
qed


lemma id_w_fetched [simp]: "id_w (worker_of (fetched E s url)) = id_w (worker_of s)"
  by (simp add: fetched_def compiled_def asked_def)

lemma id_w_entered [simp]: "id_w (worker_of (entered E s url)) = id_w (worker_of s)"
  by (simp add: entered_def inserted_def compiled_def asked_def insert_module_def Let_def)

lemma LoadModule_id_both:
  assumes plain: "plain_sources E"
  shows "(LoadModule depth host E s url = Some (Inr (s', r)) \<longrightarrow> id_w (worker_of s') = id_w (worker_of s)) \<and>
   (LoadModule_requests depth host E s names = Some (Inr (s', q)) \<longrightarrow>
      id_w (worker_of s') = id_w (worker_of s))"
  by (rule LoadModule_rule [OF plain, where P = "\<lambda>s url s' r. id_w (worker_of s') = id_w (worker_of s)"
        and Q = "\<lambda>s names s' q. id_w (worker_of s') = id_w (worker_of s)"])
     simp_all

lemma LoadModule_id:
  "plain_sources E \<Longrightarrow> LoadModule depth host E s url = Some (Inr (s', r)) \<Longrightarrow>
   id_w (worker_of s') = id_w (worker_of s)"
  using LoadModule_id_both [of E depth host s url s' r] by simp

text \<open>On a graph without import cycles the load returns.\<close>

lemma LoadModule_returns:
  assumes plain: "plain_sources E" and ranked: "ranked_imports E wid rank"
  shows "(id_w (worker_of s) = wid \<longrightarrow> rank url < depth \<longrightarrow> (\<exists>s' r. LoadModule depth host E s url = Some (Inr (s', r)))) \<and>
         (id_w (worker_of s) = wid \<longrightarrow> (\<forall>name \<in> set names. rank name < depth) \<longrightarrow>
            (\<exists>s' q. LoadModule_requests depth host E s names = Some (Inr (s', q))))"
proof (induction depth arbitrary: s url names)
  case 0
  show ?case by (cases names) auto
next
  case (Suc depth)
  have one: "\<exists>s' r. LoadModule (Suc depth) host E s url = Some (Inr (s', r))"
    if i: "id_w (worker_of s) = wid" and r: "rank url < Suc depth" for s url
  proof (cases "compiled_source E wid url")
    case (Throw tc)
    then show ?thesis using i by (simp add: LoadModule_Suc [OF plain])
  next
    case (Normal requests)
    have "\<forall>name \<in> set requests. rank name < depth"
      using ranked Normal r unfolding ranked_imports_def by fastforce
    moreover have "id_w (worker_of (entered E s url)) = wid"
      using i by simp
    ultimately obtain s' q where "LoadModule_requests depth host E (entered E s url) requests = Some (Inr (s', q))"
      using Suc.IH by blast
    then show ?thesis using Normal i by (cases q) (simp_all add: LoadModule_Suc [OF plain])
  qed
  have "\<exists>s' q. LoadModule_requests (Suc depth) host E s names = Some (Inr (s', q))"
    if "id_w (worker_of s) = wid" and "\<forall>name \<in> set names. rank name < Suc depth" for s
    using that
  proof (induction names arbitrary: s)
    case Nil
    show ?case by simp
  next
    case (Cons name rest)
    then obtain s1 r1 where l: "LoadModule (Suc depth) host E s name = Some (Inr (s1, r1))"
      using one [of s name] by auto
    then have "id_w (worker_of s1) = wid" using Cons.prems(1) by (simp add: LoadModule_id [OF plain])
    then have "\<exists>s' q. LoadModule_requests (Suc depth) host E s1 rest = Some (Inr (s', q))"
      using Cons.IH [of s1] Cons.prems by simp
    then obtain s' q where "LoadModule_requests (Suc depth) host E s1 rest = Some (Inr (s', q))"
      by blast
    then show ?case using l by (cases r1) (simp_all add: LoadModule_requests_Cons)
  qed
  then show ?case using one by blast
qed

lemma transitive_import_cases:
  assumes "transitive_import E wid url u" and "compiled_source E wid url = Normal requests"
  shows "u = url \<or> (\<exists>name \<in> set requests. transitive_import E wid name u)"
  using assms by (cases rule: transitive_import.cases) auto

lemma LoadModule_loaded_all_compile:
  assumes plain: "plain_sources E"
  shows "(LoadModule depth host E s url = Some (Inr (s', r)) \<longrightarrow>
      id_w (worker_of s') = id_w (worker_of s) \<and>
      (\<forall>m u. r = Normal m \<longrightarrow> transitive_import E (id_w (worker_of s)) url u \<longrightarrow>
         (\<exists>requests. compiled_source E (id_w (worker_of s)) u = Normal requests))) \<and>
   (LoadModule_requests depth host E s names = Some (Inr (s', q)) \<longrightarrow>
      id_w (worker_of s') = id_w (worker_of s) \<and>
      (\<forall>name u. q = Normal () \<longrightarrow> name \<in> set names \<longrightarrow> transitive_import E (id_w (worker_of s)) name u \<longrightarrow>
         (\<exists>requests. compiled_source E (id_w (worker_of s)) u = Normal requests)))"
proof (rule LoadModule_rule [OF plain, where
      P = "\<lambda>s url s' r. id_w (worker_of s') = id_w (worker_of s) \<and>
        (\<forall>m u. r = Normal m \<longrightarrow> transitive_import E (id_w (worker_of s)) url u \<longrightarrow>
           (\<exists>requests. compiled_source E (id_w (worker_of s)) u = Normal requests))"
      and Q = "\<lambda>s names s' q. id_w (worker_of s') = id_w (worker_of s) \<and>
        (\<forall>name u. q = Normal () \<longrightarrow> name \<in> set names \<longrightarrow> transitive_import E (id_w (worker_of s)) name u \<longrightarrow>
           (\<exists>requests. compiled_source E (id_w (worker_of s)) u = Normal requests))"], goal_cases)
  case (1 s url tc)
  show ?case by simp
next
  case (2 s url requests s' tc)
  then show ?case by simp
next
  case (3 s url requests s')
  have "\<exists>requests. compiled_source E (id_w (worker_of s)) u = Normal requests"
    if "transitive_import E (id_w (worker_of s)) url u" for u
    using transitive_import_cases [OF that 3(1)] 3 by auto
  then show ?case using 3 by simp
next
  case (4 s)
  show ?case by simp
next
  case (5 s name rest s1 tc)
  then show ?case by simp
next
  case (6 s name rest s1 m s2 q)
  then show ?case by auto
qed

lemma LoadModule_failure_is_compile_failure:
  assumes plain: "plain_sources E"
  shows "(LoadModule depth host E s url = Some (Inr (s', r)) \<longrightarrow>
      id_w (worker_of s') = id_w (worker_of s) \<and>
      (\<forall>tc. r = Throw tc \<longrightarrow>
         (\<exists>u. transitive_import E (id_w (worker_of s)) url u \<and> compiled_source E (id_w (worker_of s)) u = Throw tc))) \<and>
   (LoadModule_requests depth host E s names = Some (Inr (s', q)) \<longrightarrow>
      id_w (worker_of s') = id_w (worker_of s) \<and>
      (\<forall>tc. q = Throw tc \<longrightarrow>
         (\<exists>name \<in> set names. \<exists>u. transitive_import E (id_w (worker_of s)) name u \<and>
             compiled_source E (id_w (worker_of s)) u = Throw tc)))"
proof (rule LoadModule_rule [OF plain, where
      P = "\<lambda>s url s' r. id_w (worker_of s') = id_w (worker_of s) \<and>
        (\<forall>tc. r = Throw tc \<longrightarrow>
         (\<exists>u. transitive_import E (id_w (worker_of s)) url u \<and> compiled_source E (id_w (worker_of s)) u = Throw tc))"
      and Q = "\<lambda>s names s' q. id_w (worker_of s') = id_w (worker_of s) \<and>
        (\<forall>tc. q = Throw tc \<longrightarrow>
         (\<exists>name \<in> set names. \<exists>u. transitive_import E (id_w (worker_of s)) name u \<and>
             compiled_source E (id_w (worker_of s)) u = Throw tc))"], goal_cases)
  case (1 s url tc)
  then show ?case by (auto intro: transitive_import.here)
next
  case (2 s url requests s' tc)
  obtain name u where "name \<in> set requests" "transitive_import E (id_w (worker_of s)) name u"
      "compiled_source E (id_w (worker_of s)) u = Throw tc"
    using 2 by auto
  then have "\<exists>u. transitive_import E (id_w (worker_of s)) url u \<and> compiled_source E (id_w (worker_of s)) u = Throw tc"
    using 2(1) by (blast intro: transitive_import.request)
  then show ?case using 2 by auto
next
  case (3 s url requests s')
  then show ?case by simp
next
  case (4 s)
  show ?case by simp
next
  case (5 s name rest s1 tc)
  then show ?case by auto
next
  case (6 s name rest s1 m s2 q)
  then show ?case by auto
qed

text \<open>What a load that returns has done.\<close>

lemma LoadModule_outcome:
  assumes plain: "plain_sources E" and l: "LoadModule depth host E s url = Some (Inr (s1, r))"
  obtains (failed) tc u where "r = Throw tc"
      "transitive_import E (id_w (worker_of s)) url u" "compiled_source E (id_w (worker_of s)) u = Throw tc"
    | (loaded) m where "r = Normal m"
      "\<forall>u. transitive_import E (id_w (worker_of s)) url u \<longrightarrow>
         (\<exists>requests. compiled_source E (id_w (worker_of s)) u = Normal requests)"
proof (cases r)
  case (Normal m)
  have "\<forall>u. transitive_import E (id_w (worker_of s)) url u \<longrightarrow>
       (\<exists>requests. compiled_source E (id_w (worker_of s)) u = Normal requests)"
    using l Normal LoadModule_loaded_all_compile [OF plain, of depth host s url s1 r] by blast
  then show ?thesis using loaded Normal by blast
next
  case (Throw tc)
  obtain u where u: "transitive_import E (id_w (worker_of s)) url u"
      "compiled_source E (id_w (worker_of s)) u = Throw tc"
    using l Throw LoadModule_failure_is_compile_failure [OF plain, of depth host s url s1 r] by blast
  then show ?thesis using failed Throw by blast
qed

text \<open>The calls that a load records: it starts with a call of \<^verbatim>\<open>getModuleSource\<close> and a
  compilation, whatever the maps hold.\<close>

lemma events_fetched:
  "events (fetched E s url) =
     events s @ [getModuleSource_called (id_w (worker_of s)) (ToStdString url),
                 CompileModule_called (ToStdString url)]"
  by (simp add: fetched_def compiled_def asked_def record_event_def)

lemma events_entered: "events (entered E s url) = events (fetched E s url)"
  by (simp add: entered_def fetched_def inserted_def compiled_def asked_def insert_module_def Let_def)

lemma LoadModule_fetches_and_compiles:
  assumes plain: "plain_sources E"
  shows "(LoadModule depth host E s url = Some (Inr (s', r)) \<longrightarrow>
      (\<exists>later. events s' =
         events s @ [getModuleSource_called (id_w (worker_of s)) (ToStdString url),
                     CompileModule_called (ToStdString url)] @ later)) \<and>
   (LoadModule_requests depth host E s names = Some (Inr (s', q)) \<longrightarrow> (\<exists>later. events s' = events s @ later))"
proof (rule LoadModule_rule [OF plain, where
      P = "\<lambda>s url s' r. \<exists>later. events s' =
         events s @ [getModuleSource_called (id_w (worker_of s)) (ToStdString url),
                     CompileModule_called (ToStdString url)] @ later"
      and Q = "\<lambda>s names s' q. \<exists>later. events s' = events s @ later"], goal_cases)
  case (1 s url tc)
  show ?case by (simp add: events_fetched)
next
  case (2 s url requests s' tc)
  then show ?case by (auto simp: events_entered events_fetched)
next
  case (3 s url requests s')
  then show ?case by (auto simp: events_entered events_fetched)
next
  case (4 s)
  show ?case by simp
next
  case (5 s name rest s1 tc)
  then show ?case by auto
next
  case (6 s name rest s1 m s2 q)
  then show ?case by auto
qed

text \<open>One direction of the inverse relation between the two maps holds.\<close>

lemma url_map_fetched: "url_map (fetched E s url) = url_map s"
  by (simp add: url_map_def fetched_def compiled_def asked_def record_event_def)

lemma url_map_entered:
  "url_map (entered E s url) = insert_pair (url_map s) (ToStdString url) (modules_created s)"
  by (simp add: url_map_def entered_def inserted_def compiled_def asked_def record_event_def insert_module_def
      Let_def GetModuleData_def)

lemma module_map_fetched: "module_map (fetched E s url) = module_map s"
  by (simp add: module_map_def fetched_def compiled_def asked_def record_event_def)

lemma module_map_entered:
  "module_map (entered E s url) = insert_pair (module_map s) (modules_created s) (ToStdString url)"
  by (simp add: module_map_def entered_def inserted_def compiled_def asked_def record_event_def
      insert_module_def Let_def
      GetModuleData_def)

lemma modules_created_fetched: "modules_created (fetched E s url) = modules_created s"
  by (simp add: fetched_def compiled_def asked_def)

lemma modules_created_entered: "modules_created (entered E s url) = Suc (modules_created s)"
  by (simp add: entered_def inserted_def compiled_def asked_def insert_module_def Let_def)

lemma url_entries_inverse_fetched: "url_entries_inverse s \<Longrightarrow> url_entries_inverse (fetched E s url)"
  by (simp add: url_entries_inverse_def url_map_fetched module_map_fetched modules_created_fetched)

lemma url_entries_inverse_entered:
  assumes "url_entries_inverse s"
  shows "url_entries_inverse (entered E s url)"
proof -
  let ?n = "modules_created s" and ?k = "ToStdString url"
  have inv1: "\<And>u m. url_map s u = Some m \<Longrightarrow> module_map s m = Some u"
    and inv2: "\<And>m u. module_map s m = Some u \<Longrightarrow> m < ?n"
    using assms by (auto simp: url_entries_inverse_def)
  have fresh: "module_map s ?n = None"
  proof (cases "module_map s ?n")
    case (Some u)
    then show ?thesis using inv2 [of ?n u] by simp
  qed simp
  have mm: "module_map (entered E s url) = (module_map s)(?n \<mapsto> ?k)"
    by (simp add: module_map_entered insert_pair_def fresh)
  have a: "module_map (entered E s url) m = Some u" if "url_map (entered E s url) u = Some m" for u m
  proof (cases "url_map s ?k")
    case None
    then have um: "url_map (entered E s url) = (url_map s)(?k \<mapsto> ?n)"
      by (simp add: url_map_entered insert_pair_def)
    show ?thesis
    proof (cases "u = ?k")
      case True
      then show ?thesis using that um mm by simp
    next
      case False
      then have "url_map s u = Some m" using that um by simp
      then have "module_map s m = Some u" by (rule inv1)
      moreover from this have "m \<noteq> ?n" using fresh by auto
      ultimately show ?thesis using mm by simp
    qed
  next
    case (Some m0)
    then have "url_map (entered E s url) = url_map s"
      by (simp add: url_map_entered insert_pair_def)
    then have "url_map s u = Some m" using that by simp
    then have "module_map s m = Some u" by (rule inv1)
    moreover from this have "m \<noteq> ?n" using fresh by auto
    ultimately show ?thesis using mm by simp
  qed
  have b: "m < modules_created (entered E s url)" if "module_map (entered E s url) m = Some u" for m u
  proof (cases "m = ?n")
    case True
    then show ?thesis by (simp add: modules_created_entered)
  next
    case False
    then have "module_map s m = Some u" using that mm by simp
    then show ?thesis using inv2 [of m u] by (simp add: modules_created_entered)
  qed
  show ?thesis unfolding url_entries_inverse_def using a b by blast
qed

lemma LoadModule_url_entries_inverse:
  assumes plain: "plain_sources E"
  shows "(LoadModule depth host E s url = Some (Inr (s', r)) \<longrightarrow> url_entries_inverse s \<longrightarrow> url_entries_inverse s') \<and>
   (LoadModule_requests depth host E s names = Some (Inr (s', q)) \<longrightarrow> url_entries_inverse s \<longrightarrow> url_entries_inverse s')"
  by (rule LoadModule_rule [OF plain, where
        P = "\<lambda>s url s' r. url_entries_inverse s \<longrightarrow> url_entries_inverse s'"
        and Q = "\<lambda>s names s' q. url_entries_inverse s \<longrightarrow> url_entries_inverse s'"])
     (blast intro: url_entries_inverse_fetched url_entries_inverse_entered)+

lemma url_entries_inverse_worker_init: "url_entries_inverse (worker_init id_arg enable_print)"
  by (simp add: url_entries_inverse_def url_map_def module_map_def worker_init_def Let_def
      GetModuleData_def InitModuleData_def)

section \<open>Facts about the calls between host and script\<close>

lemma Send_kept:
  assumes h: "kept_by host" and r: "Send host E s args = Some (Inr (s', v))"
  shows "kept 0 True s s'"
proof -
  let ?msg = "ToCString (Utf8Value E (arg0 args))"
  let ?s1 = "record_event s (recvCb_called (id_w (worker_of s)) ?msg (lockers s))"
  obtain u where c: "run_callback (recvCb E (id_w (worker_of s)) ?msg) host ?s1 = Some (Inr (s', u))"
    using r by (auto simp: Send_def message_block_eq Let_def split: if_splits option.splits sum.splits)
  have "kept 0 True s ?s1"
    by (rule kept_record_event) (simp_all add: failed_call_def lockers_at_callbacks_def)
  moreover have "kept 0 True ?s1 s'" using h c by (rule run_callback_kept_0)
  ultimately show ?thesis by (rule kept_trans_True)
qed

lemma SendSync_kept:
  assumes h: "kept_by host" and r: "SendSync host E s args = Some (Inr (s', v))"
  shows "kept 0 True s s'"
proof -
  let ?msg = "ToCString (Utf8Value E (arg0 args))"
  let ?s1 = "record_event s (recvSyncCb_called (id_w (worker_of s)) ?msg (lockers s))"
  obtain u where c: "run_callback (recvSyncCb E (id_w (worker_of s)) ?msg) host ?s1 = Some (Inr (s', u))"
    using r by (auto simp: SendSync_def message_block_eq Let_def split: if_splits option.splits sum.splits)
  have "kept 0 True s ?s1"
    by (rule kept_record_event) (simp_all add: failed_call_def lockers_at_callbacks_def)
  moreover have "kept 0 True ?s1 s'" using h c by (rule run_callback_kept_0)
  ultimately show ?thesis by (rule kept_trans_True)
qed

lemma Print_kept: "Print E s args = Inr (s', v) \<Longrightarrow> kept 0 True s s'"
  by (auto simp: Print_def intro!: kept_record_event simp: failed_call_def lockers_at_callbacks_def)

lemma Recv_kept: "Recv s args = Inr (s', v) \<Longrightarrow> kept 0 True s s'"
  by (auto simp: Recv_def Let_def split: js_value.splits intro!: kept_same)

lemma RecvSync_kept: "RecvSync s args = Inr (s', v) \<Longrightarrow> kept 0 True s s'"
  by (auto simp: RecvSync_def Let_def split: js_value.splits intro!: kept_same)

lemma invoke_kept:
  assumes h: "kept_by host" and r: "invoke host E s g args = Some (Inr (s', v))"
  shows "kept 0 True s s'"
  using r
  by (cases g)
     (auto simp: invoke_def intro: Print_kept Recv_kept RecvSync_kept Send_kept [OF h] SendSync_kept [OF h])

lemma run_calls_kept:
  assumes h: "kept_by host"
  shows "run_calls host E s cs = Some (Inr s') \<Longrightarrow> kept 0 True s s'"
proof (induction cs arbitrary: s)
  case Nil
  then show ?case by (simp add: kept_refl)
next
  case (Cons c cs)
  from Cons.prems obtain s1 v where i: "invoke host E s (fst c) (snd c) = Some (Inr (s1, v))"
    and rest: "run_calls host E s1 cs = Some (Inr s')"
    by (auto split: option.splits sum.splits)
  have "kept 0 True s s1" using h i by (rule invoke_kept)
  then show ?case using Cons.IH [OF rest] by (rule kept_trans_True)
qed

lemma perform_Inr:
  "perform host E s r = Some (Inr (s', c)) \<longleftrightarrow> run_calls host E s (calls r) = Some (Inr s') \<and> c = result r"
  by (auto simp: perform_def split: option.splits sum.splits)

lemma perform_kept:
  "kept_by host \<Longrightarrow> perform host E s r = Some (Inr (s', c)) \<Longrightarrow> kept 0 True s s'"
  by (auto simp: perform_Inr intro: run_calls_kept)

section \<open>Facts about the exported functions\<close>

lemma worker_send_with_no_receiver:
  "recv (worker_of s) = None \<Longrightarrow>
   worker_send_with host E s msg =
     Some (Inr (set_last_exception s ''v8worker: callback not registered with $recv'', 1))"
  by (simp add: worker_send_with_def Let_def Locker_construct_def Locker_destruct_def
      set_last_exception_def)

lemma worker_send_with_receiver:
  "recv (worker_of s) = Some f \<Longrightarrow>
   worker_send_with host E s msg =
     (case run_calls host E (Locker_construct s) (calls (Function_Call E f [JsString (NewFromUtf8 msg)])) of
        None \<Rightarrow> None
      | Some (Inl fault) \<Rightarrow> Some (Inl fault)
      | Some (Inr s1) \<Rightarrow>
          (case result (Function_Call E f [JsString (NewFromUtf8 msg)]) of
             Throw tc \<Rightarrow> Some (Inr (Locker_destruct (set_last_exception s1 (ExceptionString tc)), 2))
           | Normal v \<Rightarrow> Some (Inr (Locker_destruct s1, 0))))"
  by (simp add: worker_send_with_def Let_def Locker_construct_def perform_def catch_def
      split: option.splits sum.splits completion.splits)

lemma worker_send_with_kept:
  assumes h: "kept_by host" and r: "worker_send_with host E s msg = Some (Inr (s', code))"
  shows "kept 1 (code = 0) s s'"
proof (cases "recv (worker_of s)")
  case None
  have "kept 0 True (Locker_construct s) (Locker_construct s)" by (rule kept_refl)
  then have "kept 1 False s (Locker_destruct (set_last_exception (Locker_construct s)
      ''v8worker: callback not registered with $recv''))"
    by (rule kept_exported_failed)
  then show ?thesis using r None by (simp add: worker_send_with_def Let_def Locker_construct_def)
next
  case (Some f)
  let ?run = "Function_Call E f [JsString (NewFromUtf8 msg)]"
  from r Some obtain s1 where c: "run_calls host E (Locker_construct s) (calls ?run) = Some (Inr s1)"
    by (auto simp: worker_send_with_receiver split: option.splits sum.splits)
  have k: "kept 0 True (Locker_construct s) s1" using h c by (rule run_calls_kept)
  show ?thesis
  proof (cases "result ?run")
    case (Normal v)
    then have "s' = Locker_destruct s1" "code = 0"
      using r Some c by (simp_all add: worker_send_with_receiver)
    then show ?thesis using kept_exported_ok [OF k] by simp
  next
    case (Throw tc)
    then have "s' = Locker_destruct (set_last_exception s1 (ExceptionString tc))" "code = 2"
      using r Some c by (simp_all add: worker_send_with_receiver)
    then show ?thesis using kept_exported_failed [OF k] by simp
  qed
qed

lemma worker_send_sync_with_no_receiver:
  "recv_sync_handler (worker_of s) = None \<Longrightarrow>
   worker_send_sync_with host E s msg =
     Some (Inr (s, ''v8worker: callback not registered with $recvSync''))"
  by (simp add: worker_send_sync_with_def Let_def Locker_construct_def Locker_destruct_def
      CopyString_def c_str_def)

lemma worker_send_sync_with_receiver:
  "recv_sync_handler (worker_of s) = Some f \<Longrightarrow>
   worker_send_sync_with host E s msg =
     (case run_calls host E (Locker_construct s) (calls (Function_Call E f [JsString (NewFromUtf8 msg)])) of
        None \<Rightarrow> None
      | Some (Inl fault) \<Rightarrow> Some (Inl fault)
      | Some (Inr s1) \<Rightarrow>
          (case result (Function_Call E f [JsString (NewFromUtf8 msg)]) of
             Throw tc \<Rightarrow> Some (Inl EmptyHandle)
           | Normal (JsString response) \<Rightarrow> Some (Inr (Locker_destruct s1, c_str response))
           | Normal v \<Rightarrow> Some (Inr (Locker_destruct s1, ''v8worker: non-string return value''))))"
  by (simp add: worker_send_sync_with_def Let_def Locker_construct_def perform_def IsString_def
      Utf8Value_def CopyString_def c_str_def
      split: option.splits sum.splits completion.splits js_value.splits)

lemma worker_send_sync_with_kept:
  assumes h: "kept_by host" and r: "worker_send_sync_with host E s msg = Some (Inr (s', out))"
  shows "kept 1 True s s'"
proof (cases "recv_sync_handler (worker_of s)")
  case None
  then have "s' = s" using r by (simp add: worker_send_sync_with_no_receiver)
  then show ?thesis by (simp add: kept_refl)
next
  case (Some f)
  let ?run = "Function_Call E f [JsString (NewFromUtf8 msg)]"
  from r Some obtain s1 where c: "run_calls host E (Locker_construct s) (calls ?run) = Some (Inr s1)"
    by (auto simp: worker_send_sync_with_receiver split: option.splits sum.splits)
  have k: "kept 0 True (Locker_construct s) s1" using h c by (rule run_calls_kept)
  have "s' = Locker_destruct s1"
    using r Some c
    by (auto simp: worker_send_sync_with_receiver split: completion.splits js_value.splits)
  then show ?thesis using kept_exported_ok [OF k] by simp
qed

lemma worker_load_script_with_eq:
  "worker_load_script_with host E s name_s source_s =
     (case Script_Compile E (NewFromUtf8 source_s) (NewFromUtf8 name_s) of
        Throw tc \<Rightarrow> Some (Inr (set_last_exception s (ExceptionString tc), 1))
      | Normal script \<Rightarrow>
          (case run_calls host E (Locker_construct s) (calls script) of
             None \<Rightarrow> None
           | Some (Inl fault) \<Rightarrow> Some (Inl fault)
           | Some (Inr s1) \<Rightarrow>
               (case result script of
                  Throw tc \<Rightarrow> Some (Inr (Locker_destruct (set_last_exception s1 (ExceptionString tc)), 2))
                | Normal v \<Rightarrow> Some (Inr (Locker_destruct s1, 0)))))"
  by (simp add: worker_load_script_with_def Let_def perform_def catch_def ToLocal_def
      Locker_construct_def Locker_destruct_def set_last_exception_def TryCatch_new_def
      split: option.splits sum.splits completion.splits)

lemma worker_load_script_with_kept:
  assumes h: "kept_by host" and r: "worker_load_script_with host E s name_s source_s = Some (Inr (s', code))"
  shows "kept 1 (code = 0) s s'"
proof (cases "Script_Compile E (NewFromUtf8 source_s) (NewFromUtf8 name_s)")
  case (Throw tc)
  have "kept 0 True (Locker_construct s) (Locker_construct s)" by (rule kept_refl)
  then have "kept 1 False s (Locker_destruct (set_last_exception (Locker_construct s) (ExceptionString tc)))"
    by (rule kept_exported_failed)
  moreover have "Locker_destruct (set_last_exception (Locker_construct s) (ExceptionString tc))
      = set_last_exception s (ExceptionString tc)"
    by (simp add: Locker_construct_def Locker_destruct_def set_last_exception_def)
  ultimately show ?thesis using r Throw by (simp add: worker_load_script_with_eq)
next
  case (Normal script)
  from r Normal obtain s1 where c: "run_calls host E (Locker_construct s) (calls script) = Some (Inr s1)"
    by (auto simp: worker_load_script_with_eq split: option.splits sum.splits)
  have k: "kept 0 True (Locker_construct s) s1" using h c by (rule run_calls_kept)
  show ?thesis
  proof (cases "result script")
    case (Normal v)
    then have "s' = Locker_destruct s1" "code = 0"
      using r \<open>Script_Compile E (NewFromUtf8 source_s) (NewFromUtf8 name_s) = Normal script\<close> c
      by (simp_all add: worker_load_script_with_eq)
    then show ?thesis using kept_exported_ok [OF k] by simp
  next
    case (Throw tc)
    then have "s' = Locker_destruct (set_last_exception s1 (ExceptionString tc))" "code = 2"
      using r \<open>Script_Compile E (NewFromUtf8 source_s) (NewFromUtf8 name_s) = Normal script\<close> c
      by (simp_all add: worker_load_script_with_eq)
    then show ?thesis using kept_exported_failed [OF k] by simp
  qed
qed

text \<open>\<^verbatim>\<open>worker_load_module\<close> by the outcome of the load, of the instantiation and of the
  evaluation.\<close>

lemma worker_load_module_with_failed:
  "LoadModule depth host E (Locker_construct s) (NewFromUtf8 url_s) = Some (Inr (s1, Throw tc)) \<Longrightarrow>
   worker_load_module_with depth host E s url_s =
     Some (Inr (Locker_destruct (set_last_exception s1 (ExceptionString tc)), 1))"
  by (simp add: worker_load_module_with_def catch_def ToLocal_def)

lemma worker_load_module_with_loaded:
  "LoadModule depth host E (Locker_construct s) (NewFromUtf8 url_s) = Some (Inr (s1, Normal m)) \<Longrightarrow>
   worker_load_module_with depth host E s url_s =
     (case InstantiateModule E m (ResolveModuleCallback (context_w (worker_of s1))) of
        Inl f \<Rightarrow> Some (Inl f)
      | Inr (Throw tc) \<Rightarrow> Some (Inr (Locker_destruct (set_last_exception s1 (ExceptionString tc)), 2))
      | Inr (Normal False) \<Rightarrow>
          Some (Inr (Locker_destruct (set_last_exception s1 (ExceptionString TryCatch_new)), 2))
      | Inr (Normal True) \<Rightarrow>
          (case run_calls host E s1 (calls (Evaluate E m)) of
             None \<Rightarrow> None
           | Some (Inl f) \<Rightarrow> Some (Inl f)
           | Some (Inr s2) \<Rightarrow>
               (case result (Evaluate E m) of
                  Throw tc \<Rightarrow> Some (Inr (Locker_destruct (set_last_exception s2 (ExceptionString tc)), 3))
                | Normal v \<Rightarrow> Some (Inr (Locker_destruct s2, 0)))))"
  by (auto simp: worker_load_module_with_def catch_def ToLocal_def FromMaybe_def perform_def Let_def
      split: sum.splits completion.splits bool.splits option.splits)

lemma worker_load_module_with_None:
  "LoadModule depth host E (Locker_construct s) (NewFromUtf8 url_s) = None \<Longrightarrow>
   worker_load_module_with depth host E s url_s = None"
  by (simp add: worker_load_module_with_def)

lemma worker_load_module_with_fault:
  "LoadModule depth host E (Locker_construct s) (NewFromUtf8 url_s) = Some (Inl f) \<Longrightarrow>
   worker_load_module_with depth host E s url_s = Some (Inl f)"
  by (simp add: worker_load_module_with_def)

lemma worker_load_module_with_kept:
  assumes h: "kept_by host" and r: "worker_load_module_with depth host E s url_s = Some (Inr (s', code))"
  shows "kept 1 (code = 0) s s'"
proof (cases "LoadModule depth host E (Locker_construct s) (NewFromUtf8 url_s)")
  case None
  then show ?thesis using r by (simp add: worker_load_module_with_None)
next
  case (Some x)
  then obtain s1 maybe_mod where
    l: "LoadModule depth host E (Locker_construct s) (NewFromUtf8 url_s) = Some (Inr (s1, maybe_mod))"
    using r by (cases x) (auto simp: worker_load_module_with_fault)
  have "kept 1 True (Locker_construct s) s1" using h l by (rule LoadModule_kept)
  then have k1: "kept 0 True (Locker_construct s) s1" by (rule kept_weaken) simp_all
  show ?thesis
  proof (cases maybe_mod)
    case (Throw tc)
    then have "s' = Locker_destruct (set_last_exception s1 (ExceptionString tc))" "code = 1"
      using r l by (simp_all add: worker_load_module_with_failed)
    then show ?thesis using kept_exported_failed [OF k1] by simp
  next
    case (Normal m)
    note e = worker_load_module_with_loaded [OF l [unfolded Normal]]
    show ?thesis
    proof (cases "InstantiateModule E m (ResolveModuleCallback (context_w (worker_of s1)))")
      case (Inl f)
      then show ?thesis using r e by simp
    next
      case (Inr instantiated)
      show ?thesis
      proof (cases instantiated)
        case (Throw tc)
        then have "s' = Locker_destruct (set_last_exception s1 (ExceptionString tc))" "code = 2"
          using r e Inr by simp_all
        then show ?thesis using kept_exported_failed [OF k1] by simp
      next
        case (Normal b)
        show ?thesis
        proof (cases b)
          case False
          then have "s' = Locker_destruct (set_last_exception s1 (ExceptionString TryCatch_new))" "code = 2"
            using r e Inr Normal by simp_all
          then show ?thesis using kept_exported_failed [OF k1] by simp
        next
          case True
          from r e Inr Normal True obtain s2 where
            c: "run_calls host E s1 (calls (Evaluate E m)) = Some (Inr s2)"
            by (auto split: option.splits sum.splits)
          have "kept 0 True s1 s2" using h c by (rule run_calls_kept)
          with k1 have k2: "kept 0 True (Locker_construct s) s2" by (rule kept_trans_True)
          show ?thesis
          proof (cases "result (Evaluate E m)")
            case (Normal v)
            then have "s' = Locker_destruct s2" "code = 0"
              using r e Inr \<open>instantiated = Normal b\<close> True c by simp_all
            then show ?thesis using kept_exported_ok [OF k2] by simp
          next
            case (Throw tc)
            then have "s' = Locker_destruct (set_last_exception s2 (ExceptionString tc))" "code = 3"
              using r e Inr \<open>instantiated = Normal b\<close> True c by simp_all
            then show ?thesis using kept_exported_failed [OF k2] by simp
          qed
        qed
      qed
    qed
  qed
qed

text \<open>Every call that the host makes from a callback keeps what \<open>kept\<close> says, however
  deep the calls are nested.\<close>

lemma code_reply_Inr:
  "code_reply x = Some (Inr (s', r)) \<longleftrightarrow> (\<exists>code. x = Some (Inr (s', code)) \<and> r = returned_code code)"
proof (cases x)
  case None
  then show ?thesis by (simp add: code_reply_def)
next
  case (Some y)
  then show ?thesis by (cases y) (auto simp: code_reply_def)
qed

lemma string_reply_Inr:
  "string_reply x = Some (Inr (s', r)) \<longleftrightarrow> (\<exists>out. x = Some (Inr (s', out)) \<and> r = returned_string out)"
proof (cases x)
  case None
  then show ?thesis by (simp add: string_reply_def)
next
  case (Some y)
  then show ?thesis by (cases y) (auto simp: string_reply_def)
qed

lemma exported_kept: "kept_by (exported n E)"
proof (induction n)
  case 0
  show ?case by (simp add: kept_by_def)
next
  case (Suc n)
  show ?case
    unfolding kept_by_def
  proof (intro allI impI)
    fix c s s' r
    assume a: "exported (Suc n) E c s = Some (Inr (s', r))"
    show "kept 1 (reply_ok r) s s'"
    proof (cases c)
      case (call_worker_load_script name_s source_s)
      with a obtain code where "worker_load_script_with (exported n E) E s name_s source_s = Some (Inr (s', code))"
        and "r = returned_code code"
        by (auto simp: code_reply_Inr)
      then show ?thesis using worker_load_script_with_kept [OF Suc] by (simp add: reply_ok_def)
    next
      case (call_worker_load_module url_s)
      with a obtain code where "worker_load_module_with n (exported n E) E s url_s = Some (Inr (s', code))"
        and "r = returned_code code"
        by (auto simp: code_reply_Inr)
      then show ?thesis using worker_load_module_with_kept [OF Suc] by (simp add: reply_ok_def)
    next
      case (call_worker_send msg)
      with a obtain code where "worker_send_with (exported n E) E s msg = Some (Inr (s', code))"
        and "r = returned_code code"
        by (auto simp: code_reply_Inr)
      then show ?thesis using worker_send_with_kept [OF Suc] by (simp add: reply_ok_def)
    next
      case (call_worker_send_sync msg)
      with a obtain out where "worker_send_sync_with (exported n E) E s msg = Some (Inr (s', out))"
        and "r = returned_string out"
        by (auto simp: string_reply_Inr)
      then show ?thesis using worker_send_sync_with_kept [OF Suc] by (simp add: reply_ok_def)
    next
      case call_worker_last_exception
      with a show ?thesis by (auto simp: kept_refl)
    qed
  qed
qed

declare exported.simps [simp del]

lemma exported_calls:
  "exported 0 E c s = None"
  "exported (Suc n) E (call_worker_load_script name_s source_s) s =
     code_reply (worker_load_script_with (exported n E) E s name_s source_s)"
  "exported (Suc n) E (call_worker_load_module url_s) s =
     code_reply (worker_load_module_with n (exported n E) E s url_s)"
  "exported (Suc n) E (call_worker_send msg) s =
     code_reply (worker_send_with (exported n E) E s msg)"
  "exported (Suc n) E (call_worker_send_sync msg) s =
     string_reply (worker_send_sync_with (exported n E) E s msg)"
  "exported (Suc n) E call_worker_last_exception s =
     Some (Inr (s, returned_string (worker_last_exception s)))"
  by (simp_all add: exported.simps)

lemma worker_load_script_kept:
  "worker_load_script n E s name_s source_s = Some (Inr (s', code)) \<Longrightarrow> kept 1 (code = 0) s s'"
  unfolding worker_load_script_def by (rule worker_load_script_with_kept [OF exported_kept])

lemma worker_load_module_kept:
  "worker_load_module n E s url_s = Some (Inr (s', code)) \<Longrightarrow> kept 1 (code = 0) s s'"
  unfolding worker_load_module_def by (rule worker_load_module_with_kept [OF exported_kept])

lemma worker_send_kept:
  "worker_send n E s msg = Some (Inr (s', code)) \<Longrightarrow> kept 1 (code = 0) s s'"
  unfolding worker_send_def by (rule worker_send_with_kept [OF exported_kept])

lemma worker_send_sync_kept:
  "worker_send_sync n E s msg = Some (Inr (s', out)) \<Longrightarrow> kept 1 True s s'"
  unfolding worker_send_sync_def by (rule worker_send_sync_with_kept [OF exported_kept])

lemma last_exception_set [simp]: "last_exception (worker_of (set_last_exception s e)) = e"
  by (simp add: set_last_exception_def)

lemma last_exception_Locker_destruct [simp]:
  "last_exception (worker_of (Locker_destruct s)) = last_exception (worker_of s)"
  by (simp add: Locker_destruct_def)

text \<open>What a call of \<^verbatim>\<open>worker_load_module\<close> that returns has returned: the code by the stage
  that failed, and \<open>last_exception\<close> the diagnostic of that failure.\<close>

lemma worker_load_module_returned:
  assumes r: "worker_load_module n E s url_s = Some (Inr (s', code))"
  shows "\<exists>s1 maybe_mod.
    LoadModule n (exported n E) E (Locker_construct s) (NewFromUtf8 url_s) = Some (Inr (s1, maybe_mod)) \<and>
    (case maybe_mod of
       Throw tc \<Rightarrow> code = 1 \<and> last_exception (worker_of s') = Diagnostic tc
     | Normal m \<Rightarrow>
         (code = 2 \<and>
            (\<exists>tc. InstantiateModule E m (ResolveModuleCallback (context_w (worker_of s1))) = Inr (Throw tc) \<and>
                  last_exception (worker_of s') = Diagnostic tc)) \<or>
         (code = 2 \<and>
            InstantiateModule E m (ResolveModuleCallback (context_w (worker_of s1))) = Inr (Normal False) \<and>
            last_exception (worker_of s') = Diagnostic TryCatch_new) \<or>
         (code = 3 \<and>
            InstantiateModule E m (ResolveModuleCallback (context_w (worker_of s1))) = Inr (Normal True) \<and>
            (\<exists>tc. result (Evaluate E m) = Throw tc \<and> last_exception (worker_of s') = Diagnostic tc)) \<or>
         (code = 0 \<and>
            InstantiateModule E m (ResolveModuleCallback (context_w (worker_of s1))) = Inr (Normal True) \<and>
            (\<exists>v. result (Evaluate E m) = Normal v)))"
proof -
  let ?s0 = "Locker_construct s" and ?url = "NewFromUtf8 url_s" and ?host = "exported n E"
  note w = r [unfolded worker_load_module_def]
  obtain x where x: "LoadModule n ?host E ?s0 ?url = Some x"
    using w by (cases "LoadModule n ?host E ?s0 ?url") (auto simp: worker_load_module_with_None)
  then obtain s1 maybe_mod where l: "LoadModule n ?host E ?s0 ?url = Some (Inr (s1, maybe_mod))"
    using w by (cases x) (auto simp: worker_load_module_with_fault)
  show ?thesis
  proof (cases maybe_mod)
    case (Throw tc)
    then have "s' = Locker_destruct (set_last_exception s1 (ExceptionString tc))" "code = 1"
      using w l by (simp_all add: worker_load_module_with_failed)
    then show ?thesis using l Throw by (simp add: ExceptionString_Diagnostic)
  next
    case (Normal m)
    note e = worker_load_module_with_loaded [OF l [unfolded Normal]]
    let ?inst = "InstantiateModule E m (ResolveModuleCallback (context_w (worker_of s1)))"
    have stage: "(code = 2 \<and> (\<exists>tc. ?inst = Inr (Throw tc) \<and> last_exception (worker_of s') = Diagnostic tc)) \<or>
        (code = 2 \<and> ?inst = Inr (Normal False) \<and> last_exception (worker_of s') = Diagnostic TryCatch_new) \<or>
        (code = 3 \<and> ?inst = Inr (Normal True) \<and>
           (\<exists>tc. result (Evaluate E m) = Throw tc \<and> last_exception (worker_of s') = Diagnostic tc)) \<or>
        (code = 0 \<and> ?inst = Inr (Normal True) \<and> (\<exists>v. result (Evaluate E m) = Normal v))"
    proof (cases ?inst)
      case (Inl f)
      then show ?thesis using w e by simp
    next
      case (Inr instantiated)
      show ?thesis
      proof (cases instantiated)
        case (Throw tc)
        then show ?thesis using w e Inr by (auto simp: ExceptionString_Diagnostic)
      next
        case (Normal b)
        show ?thesis
        proof (cases b)
          case False
          then show ?thesis using w e Inr Normal by (auto simp: ExceptionString_Diagnostic)
        next
          case True
          from w e Inr Normal True obtain s2 where
            c: "run_calls ?host E s1 (calls (Evaluate E m)) = Some (Inr s2)"
            by (auto split: option.splits sum.splits)
          show ?thesis
          proof (cases "result (Evaluate E m)")
            case (Normal v)
            then show ?thesis using w e Inr \<open>instantiated = Normal b\<close> True c by auto
          next
            case (Throw tc)
            then show ?thesis
              using w e Inr \<open>instantiated = Normal b\<close> True c by (auto simp: ExceptionString_Diagnostic)
          qed
        qed
      qed
    qed
    show ?thesis using l Normal stage by simp
  qed
qed

text \<open>Where the host returns the sources without calling into the worker: the code is 1
  exactly when a module that the root reaches does not compile, and the module that is
  instantiated and evaluated is the one that the load of the root has created.\<close>

lemma worker_load_module_returned_graph:
  assumes plain: "plain_sources E" and r: "worker_load_module n E s url_s = Some (Inr (s', code))"
  shows "(code = 1 \<and>
            (\<exists>u tc. transitive_import E (id_w (worker_of s)) (NewFromUtf8 url_s) u \<and>
               compiled_source E (id_w (worker_of s)) u = Throw tc \<and>
               last_exception (worker_of s') = Diagnostic tc)) \<or>
         (code \<noteq> 1 \<and>
          (\<forall>u. transitive_import E (id_w (worker_of s)) (NewFromUtf8 url_s) u \<longrightarrow>
              (\<exists>requests. compiled_source E (id_w (worker_of s)) u = Normal requests)) \<and>
          (\<exists>s1. LoadModule n (exported n E) E (Locker_construct s) (NewFromUtf8 url_s) =
                  Some (Inr (s1, Normal (modules_created s)))))"
proof -
  let ?s0 = "Locker_construct s" and ?url = "NewFromUtf8 url_s" and ?host = "exported n E"
  have i0: "id_w (worker_of ?s0) = id_w (worker_of s)" by (simp add: Locker_construct_def)
  have m0: "modules_created ?s0 = modules_created s" by (simp add: Locker_construct_def)
  from worker_load_module_returned [OF r]
  obtain s1 maybe_mod where l: "LoadModule n ?host E ?s0 ?url = Some (Inr (s1, maybe_mod))"
    and full: "case maybe_mod of
       Throw tc \<Rightarrow> code = 1 \<and> last_exception (worker_of s') = Diagnostic tc
     | Normal m \<Rightarrow>
         (code = 2 \<and>
            (\<exists>tc. InstantiateModule E m (ResolveModuleCallback (context_w (worker_of s1))) = Inr (Throw tc) \<and>
                  last_exception (worker_of s') = Diagnostic tc)) \<or>
         (code = 2 \<and>
            InstantiateModule E m (ResolveModuleCallback (context_w (worker_of s1))) = Inr (Normal False) \<and>
            last_exception (worker_of s') = Diagnostic TryCatch_new) \<or>
         (code = 3 \<and>
            InstantiateModule E m (ResolveModuleCallback (context_w (worker_of s1))) = Inr (Normal True) \<and>
            (\<exists>tc. result (Evaluate E m) = Throw tc \<and> last_exception (worker_of s') = Diagnostic tc)) \<or>
         (code = 0 \<and>
            InstantiateModule E m (ResolveModuleCallback (context_w (worker_of s1))) = Inr (Normal True) \<and>
            (\<exists>v. result (Evaluate E m) = Normal v))"
    by blast
  have c: "case maybe_mod of
       Throw tc \<Rightarrow> code = 1 \<and> last_exception (worker_of s') = Diagnostic tc
     | Normal m \<Rightarrow> code \<noteq> 1"
    using full by (cases maybe_mod) auto
  from plain l show ?thesis
  proof (cases rule: LoadModule_outcome)
    case (failed tc u)
    then show ?thesis using c i0 by auto
  next
    case (loaded m)
    have m: "m = modules_created s"
    proof (cases n)
      case 0
      then show ?thesis using l by simp
    next
      case (Suc d)
      then show ?thesis
        using l loaded(1) m0
        by (auto simp: LoadModule_Suc [OF plain] split: completion.splits option.splits sum.splits)
    qed
    show ?thesis using l loaded c i0 m by auto
  qed
qed

section \<open>A larger bound changes no result\<close>

text \<open>A call that has returned under one bound on the nesting returns the same under
  every larger bound: the bound only says how far the run was followed.\<close>

lemma Send_mono:
  assumes h: "host_le host host'" and r: "Send host E s args = Some r"
  shows "Send host' E s args = Some r"
proof (cases "message_block E s args")
  case (Inl f)
  then show ?thesis using r by (simp add: Send_def)
next
  case (Inr p)
  obtain s1 msg where p: "p = (s1, msg)" by (cases p)
  let ?s2 = "record_event s1 (recvCb_called (id_w (worker_of s1)) msg (lockers s1))"
  obtain x where x: "run_callback (recvCb E (id_w (worker_of s1)) msg) host ?s2 = Some x"
    using r Inr p by (cases "run_callback (recvCb E (id_w (worker_of s1)) msg) host ?s2")
      (auto simp: Send_def Let_def)
  have "run_callback (recvCb E (id_w (worker_of s1)) msg) host' ?s2 = Some x"
    using h x by (rule run_callback_mono)
  then show ?thesis using r x Inr p by (simp add: Send_def Let_def)
qed

lemma SendSync_mono:
  assumes h: "host_le host host'" and r: "SendSync host E s args = Some r"
  shows "SendSync host' E s args = Some r"
proof (cases "message_block E s args")
  case (Inl f)
  then show ?thesis using r by (simp add: SendSync_def)
next
  case (Inr p)
  obtain s1 msg where p: "p = (s1, msg)" by (cases p)
  let ?s2 = "record_event s1 (recvSyncCb_called (id_w (worker_of s1)) msg (lockers s1))"
  obtain x where x: "run_callback (recvSyncCb E (id_w (worker_of s1)) msg) host ?s2 = Some x"
    using r Inr p by (cases "run_callback (recvSyncCb E (id_w (worker_of s1)) msg) host ?s2")
      (auto simp: SendSync_def Let_def)
  have "run_callback (recvSyncCb E (id_w (worker_of s1)) msg) host' ?s2 = Some x"
    using h x by (rule run_callback_mono)
  then show ?thesis using r x Inr p by (simp add: SendSync_def Let_def)
qed

lemma invoke_mono:
  "host_le host host' \<Longrightarrow> invoke host E s g args = Some r \<Longrightarrow> invoke host' E s g args = Some r"
  by (cases g) (auto simp: invoke_def intro: Send_mono SendSync_mono)

lemma run_calls_mono:
  assumes h: "host_le host host'"
  shows "run_calls host E s cs = Some r \<Longrightarrow> run_calls host' E s cs = Some r"
proof (induction cs arbitrary: s)
  case Nil
  then show ?case by simp
next
  case (Cons c cs)
  from Cons.prems obtain x where x: "invoke host E s (fst c) (snd c) = Some x"
    by (cases "invoke host E s (fst c) (snd c)") auto
  have x': "invoke host' E s (fst c) (snd c) = Some x" using h x by (rule invoke_mono)
  show ?case
  proof (cases x)
    case (Inl f)
    then show ?thesis using Cons.prems x x' by simp
  next
    case (Inr p)
    obtain s1 v where p: "p = (s1, v)" by (cases p)
    have "run_calls host E s1 cs = Some r" using Cons.prems x Inr p by simp
    then have "run_calls host' E s1 cs = Some r" by (rule Cons.IH)
    then show ?thesis using x' Inr p by simp
  qed
qed

lemma perform_mono:
  assumes h: "host_le host host'" and r: "perform host E s script = Some r"
  shows "perform host' E s script = Some r"
proof -
  obtain x where x: "run_calls host E s (calls script) = Some x"
    using r by (cases "run_calls host E s (calls script)") (auto simp: perform_def)
  have "run_calls host' E s (calls script) = Some x" using h x by (rule run_calls_mono)
  then show ?thesis using r x by (simp add: perform_def)
qed

lemma worker_load_script_with_mono:
  assumes h: "host_le host host'" and r: "worker_load_script_with host E s name_s source_s = Some r"
  shows "worker_load_script_with host' E s name_s source_s = Some r"
proof (cases "Script_Compile E (NewFromUtf8 source_s) (NewFromUtf8 name_s)")
  case (Throw tc)
  then show ?thesis using r by (simp add: worker_load_script_with_eq)
next
  case (Normal script)
  obtain x where x: "run_calls host E (Locker_construct s) (calls script) = Some x"
    using r Normal by (cases "run_calls host E (Locker_construct s) (calls script)")
      (auto simp: worker_load_script_with_eq)
  have "run_calls host' E (Locker_construct s) (calls script) = Some x"
    using h x by (rule run_calls_mono)
  then show ?thesis using r x Normal by (simp add: worker_load_script_with_eq)
qed

lemma worker_send_with_mono:
  assumes h: "host_le host host'" and r: "worker_send_with host E s msg = Some r"
  shows "worker_send_with host' E s msg = Some r"
proof (cases "recv (worker_of s)")
  case None
  then show ?thesis using r by (simp add: worker_send_with_no_receiver)
next
  case (Some f)
  let ?calls = "calls (Function_Call E f [JsString (NewFromUtf8 msg)])"
  obtain x where x: "run_calls host E (Locker_construct s) ?calls = Some x"
    using r Some by (cases "run_calls host E (Locker_construct s) ?calls")
      (auto simp: worker_send_with_receiver)
  have "run_calls host' E (Locker_construct s) ?calls = Some x"
    using h x by (rule run_calls_mono)
  then show ?thesis using r x Some by (simp add: worker_send_with_receiver)
qed

lemma worker_send_sync_with_mono:
  assumes h: "host_le host host'" and r: "worker_send_sync_with host E s msg = Some r"
  shows "worker_send_sync_with host' E s msg = Some r"
proof (cases "recv_sync_handler (worker_of s)")
  case None
  then show ?thesis using r by (simp add: worker_send_sync_with_no_receiver)
next
  case (Some f)
  let ?calls = "calls (Function_Call E f [JsString (NewFromUtf8 msg)])"
  obtain x where x: "run_calls host E (Locker_construct s) ?calls = Some x"
    using r Some by (cases "run_calls host E (Locker_construct s) ?calls")
      (auto simp: worker_send_sync_with_receiver)
  have "run_calls host' E (Locker_construct s) ?calls = Some x"
    using h x by (rule run_calls_mono)
  then show ?thesis using r x Some by (simp add: worker_send_sync_with_receiver)
qed

lemma worker_load_module_with_mono:
  assumes h: "host_le host host'" and r: "worker_load_module_with depth host E s url_s = Some r"
  shows "worker_load_module_with (Suc depth) host' E s url_s = Some r"
proof -
  obtain x where x: "LoadModule depth host E (Locker_construct s) (NewFromUtf8 url_s) = Some x"
    using r by (cases "LoadModule depth host E (Locker_construct s) (NewFromUtf8 url_s)")
      (auto simp: worker_load_module_with_None)
  then have x': "LoadModule (Suc depth) host' E (Locker_construct s) (NewFromUtf8 url_s) = Some x"
    by (simp add: LoadModule_deeper [OF h])
  show ?thesis
  proof (cases x)
    case (Inl f)
    then show ?thesis using r x x' by (simp add: worker_load_module_with_fault)
  next
    case (Inr y)
    obtain s1 maybe_mod where y: "y = (s1, maybe_mod)" by (cases y)
    have l: "LoadModule depth host E (Locker_construct s) (NewFromUtf8 url_s) = Some (Inr (s1, maybe_mod))"
      and l': "LoadModule (Suc depth) host' E (Locker_construct s) (NewFromUtf8 url_s) = Some (Inr (s1, maybe_mod))"
      using x x' Inr y by simp_all
    show ?thesis
    proof (cases maybe_mod)
      case (Throw tc)
      then show ?thesis
        using r l l' by (simp add: worker_load_module_with_failed)
    next
      case (Normal m)
      note e = worker_load_module_with_loaded [OF l [unfolded Normal]]
      note e' = worker_load_module_with_loaded [OF l' [unfolded Normal]]
      show ?thesis
      proof (cases "InstantiateModule E m (ResolveModuleCallback (context_w (worker_of s1))) = Inr (Normal True)")
        case False
        then show ?thesis
          using r e e' by (auto split: sum.splits completion.splits bool.splits)
      next
        case True
        obtain z where z: "run_calls host E s1 (calls (Evaluate E m)) = Some z"
          using r e True by (cases "run_calls host E s1 (calls (Evaluate E m))") auto
        have "run_calls host' E s1 (calls (Evaluate E m)) = Some z" using h z by (rule run_calls_mono)
        then show ?thesis using r e e' True z by simp
      qed
    qed
  qed
qed

lemma exported_mono: "host_le (exported n E) (exported (Suc n) E)"
proof (induction n)
  case 0
  show ?case by (simp add: host_le_def exported_calls)
next
  case (Suc n)
  show ?case
    unfolding host_le_def
  proof (intro allI impI)
    fix c s r
    assume a: "exported (Suc n) E c s = Some r"
    show "exported (Suc (Suc n)) E c s = Some r"
    proof (cases c)
      case (call_worker_load_script name_s source_s)
      then obtain x where "worker_load_script_with (exported n E) E s name_s source_s = Some x"
        using a by (cases "worker_load_script_with (exported n E) E s name_s source_s")
          (auto simp: exported_calls code_reply_def)
      then show ?thesis
        using a call_worker_load_script worker_load_script_with_mono [OF Suc]
        by (simp add: exported_calls)
    next
      case (call_worker_load_module url_s)
      then obtain x where "worker_load_module_with n (exported n E) E s url_s = Some x"
        using a by (cases "worker_load_module_with n (exported n E) E s url_s")
          (auto simp: exported_calls code_reply_def)
      then show ?thesis
        using a call_worker_load_module worker_load_module_with_mono [OF Suc]
        by (simp add: exported_calls)
    next
      case (call_worker_send msg)
      then obtain x where "worker_send_with (exported n E) E s msg = Some x"
        using a by (cases "worker_send_with (exported n E) E s msg")
          (auto simp: exported_calls code_reply_def)
      then show ?thesis
        using a call_worker_send worker_send_with_mono [OF Suc]
        by (simp add: exported_calls)
    next
      case (call_worker_send_sync msg)
      then obtain x where "worker_send_sync_with (exported n E) E s msg = Some x"
        using a by (cases "worker_send_sync_with (exported n E) E s msg")
          (auto simp: exported_calls string_reply_def)
      then show ?thesis
        using a call_worker_send_sync worker_send_sync_with_mono [OF Suc]
        by (simp add: exported_calls)
    next
      case call_worker_last_exception
      then show ?thesis using a by (simp add: exported_calls)
    qed
  qed
qed

lemma larger_bound:
  "worker_load_script n E s name_s source_s = Some r \<Longrightarrow>
     worker_load_script (Suc n) E s name_s source_s = Some r"
  "worker_load_module n E s url_s = Some q \<Longrightarrow> worker_load_module (Suc n) E s url_s = Some q"
  "worker_send n E s msg = Some r \<Longrightarrow> worker_send (Suc n) E s msg = Some r"
  "worker_send_sync n E s msg = Some t \<Longrightarrow> worker_send_sync (Suc n) E s msg = Some t"
  unfolding worker_load_script_def worker_load_module_def worker_send_def worker_send_sync_def
  by (rule worker_load_script_with_mono [OF exported_mono] worker_load_module_with_mono [OF exported_mono]
        worker_send_with_mono [OF exported_mono] worker_send_sync_with_mono [OF exported_mono],
      assumption)+

section \<open>Facts about the examples\<close>

lemma plain_graph_env: "plain_sources (graph_env g)"
  by (simp add: plain_sources_def returned_source_def graph_env_def)

lemma compiled_source_graph_env: "compiled_source (graph_env g) wid url = g url"
  by (simp add: compiled_source_def graph_env_def)

lemmas graph_env_Suc = LoadModule_Suc [OF plain_graph_env]

lemma cycle_graph_A: "cycle_graph ''A'' = Normal [''B'']"
  by (simp add: cycle_graph_def)

lemma cycle_graph_B: "cycle_graph ''B'' = Normal [''A'']"
  by (simp add: cycle_graph_def)

lemma cycle_aux:
  "LoadModule depth host (graph_env cycle_graph) s ''A'' = None \<and>
   LoadModule depth host (graph_env cycle_graph) s ''B'' = None"
proof (induction depth arbitrary: s)
  case 0
  show ?case by simp
next
  case (Suc depth)
  show ?case
    by (simp add: graph_env_Suc compiled_source_graph_env cycle_graph_A cycle_graph_B Suc)
qed

lemma loop_and_failure_graph_root: "loop_and_failure_graph ''root'' = Normal [''loop'', ''bad'']"
  by (simp add: loop_and_failure_graph_def)

lemma loop_and_failure_graph_loop: "loop_and_failure_graph ''loop'' = Normal [''loop'']"
  by (simp add: loop_and_failure_graph_def)

lemma loop_and_failure_graph_bad: "loop_and_failure_graph ''bad'' = Throw syntax_error"
  by (simp add: loop_and_failure_graph_def)

lemma loop_aux: "LoadModule depth host (graph_env loop_and_failure_graph) s ''loop'' = None"
proof (induction depth arbitrary: s)
  case 0
  show ?case by simp
next
  case (Suc depth)
  show ?case
    by (simp add: graph_env_Suc compiled_source_graph_env loop_and_failure_graph_loop Suc)
qed

lemma loop_root_aux: "LoadModule depth host (graph_env loop_and_failure_graph) s ''root'' = None"
proof (cases depth)
  case 0
  then show ?thesis by simp
next
  case (Suc d)
  then show ?thesis
    by (simp add: graph_env_Suc compiled_source_graph_env loop_and_failure_graph_root loop_aux)
qed

lemma c_str_literals:
  "c_str ''A'' = ''A''" "c_str ''root'' = ''root''" "c_str ''bad'' = ''bad''" "c_str ''a'' = ''a''"
  by (simp_all add: c_str_def)

lemmas eval_load = worker_load_module_def worker_load_module_with_def LoadModule_Suc_any
  asked_def compiled_def inserted_def graph_env_def insert_module_def record_event_def
  worker_init_def Let_def insert_pair_def GetModuleData_def InitModuleData_def ToLocal_def
  FromMaybe_def catch_def perform_def idle_run_def set_last_exception_def
  ResolveModuleCallback_def Locker_construct_def Locker_destruct_def NewFromUtf8_def
  ToStdString_def c_str_def TryCatch_new_def

lemma booted_messaging_env:
  "booted (messaging_env call) =
     (worker_init 1 0)\<lparr>worker_of := (worker_of (worker_init 1 0))\<lparr>recv := Some 2, recv_sync_handler := Some 3\<rparr>\<rparr>"
  by (simp add: booted_def state_of_def worker_load_script_def worker_load_script_with_eq
      messaging_env_def graph_env_def boot_run_def invoke_def Recv_def RecvSync_def arg0_def Let_def
      worker_init_def Locker_construct_def Locker_destruct_def)

lemma Function_Call_messaging_env: "Function_Call (messaging_env call) = call"
  by (simp add: messaging_env_def)

lemma recvCb_messaging_env: "recvCb (messaging_env call) wid msg = Return ()"
  by (simp add: messaging_env_def graph_env_def)

lemma recvSyncCb_messaging_env: "recvSyncCb (messaging_env call) wid msg = Return []"
  by (simp add: messaging_env_def graph_env_def)

text \<open>Where the module that does not compile is requested before the one that requests
  itself, and where no module requests itself, the load of the root returns 1.\<close>

lemma failing_import_returns_1:
  "worker_load_module 2 (graph_env failing_import_graph) (worker_init 1 0) ''root'' =
     Some (Inr (state_of (worker_load_module 2 (graph_env failing_import_graph) (worker_init 1 0) ''root''), 1))"
  "last_exception (worker_of (state_of
      (worker_load_module 2 (graph_env failing_import_graph) (worker_init 1 0) ''root''))) =
     ''SyntaxError: Unexpected token'' @ [CHR 0x0A]"
  "worker_load_module 2 (graph_env failure_and_loop_graph) (worker_init 1 0) ''root'' =
     Some (Inr (state_of (worker_load_module 2 (graph_env failure_and_loop_graph) (worker_init 1 0) ''root''), 1))"
  by (simp_all add: eval_load failing_import_graph_def failure_and_loop_graph_def state_of_def
      numeral_2_eq_2 syntax_error_def ExceptionString_def ToCString_def)

lemma booted_nested_env:
  "booted nested_env =
     (worker_init 1 0)\<lparr>worker_of := (worker_of (worker_init 1 0))\<lparr>recv := Some 2, recv_sync_handler := Some 3\<rparr>\<rparr>"
  by (simp add: booted_def state_of_def worker_load_script_def worker_load_script_with_eq nested_env_def
      messaging_env_def graph_env_def boot_run_def invoke_def Recv_def RecvSync_def arg0_def Let_def
      worker_init_def Locker_construct_def Locker_destruct_def)

lemma nested_env_fields:
  "Function_Call nested_env = nested_call"
  "recvCb nested_env wid msg = Call (call_worker_send_sync ''query'') (\<lambda>r. Return ())"
  "recvSyncCb nested_env wid msg = Return ''reply''"
  by (simp_all add: nested_env_def messaging_env_def)

text \<open>The runs of the examples.\<close>

lemma reentrant_load_script:
  "worker_load_script 1 reentrant_env (worker_init 1 0) ''main.js'' ''$send(msg)'' =
     Some (Inr ((worker_init 1 0)
                  \<lparr>worker_of := (worker_of (worker_init 1 0))
                     \<lparr>last_exception := ''v8worker: callback not registered with $recv''\<rparr>,
                   events := [recvCb_called 1 ''ping'' 1,
                              host_call_returned (call_worker_send ''pong'') (returned_code 1),
                              host_call_returned call_worker_last_exception
                                (returned_string ''v8worker: callback not registered with $recv'')]\<rparr>, 0))"
  by (simp add: worker_load_script_def worker_load_script_with_eq reentrant_env_def graph_env_def
      send_run_def invoke_def Send_def message_block_eq arg0_def IsString_def Utf8Value_def
      ToCString_def c_str_def Let_def record_event_def exported_calls code_reply_def
      worker_send_with_def set_last_exception_def worker_init_def Locker_construct_def
      Locker_destruct_def worker_last_exception_def CopyString_def)

lemma reentrant_source_load_module:
  "worker_load_module 1 reentrant_source_env (worker_init 1 0) ''a'' =
     Some (Inr ((worker_init 1 0)
                  \<lparr>worker_of := (worker_of (worker_init 1 0))
                     \<lparr>last_exception := ''v8worker: callback not registered with $recv'',
                      context_w := (context_w (worker_of (worker_init 1 0)))
                        \<lparr>embedder_data := \<lparr>url_to_module_map = [''a'' \<mapsto> 0],
                                            module_to_url_map = [0 \<mapsto> ''a'']\<rparr>\<rparr>\<rparr>,
                   modules_created := 1,
                   events := [getModuleSource_called 1 ''a'',
                              host_call_returned (call_worker_send ''pong'') (returned_code 1),
                              CompileModule_called ''a'']\<rparr>, 0))"
  by (simp add: eval_load reentrant_source_env_def no_imports_def exported_calls code_reply_def
      worker_send_with_def)

lemma echo_send:
  "worker_send 1 (messaging_env echo_call) (booted (messaging_env echo_call)) ''hello'' =
     Some (Inr ((booted (messaging_env echo_call))\<lparr>events := [recvCb_called 1 ''hello'' 1]\<rparr>, 0))"
  by (simp add: worker_send_def worker_send_with_receiver booted_messaging_env
      Function_Call_messaging_env echo_call_def recvCb_messaging_env
      invoke_def Send_def message_block_eq arg0_def IsString_def Utf8Value_def NewFromUtf8_def
      ToCString_def c_str_def Let_def record_event_def worker_init_def Locker_construct_def
      Locker_destruct_def)

lemma nested_send:
  "worker_send 2 nested_env (booted nested_env) ''hello'' =
     Some (Inr ((booted nested_env)
                  \<lparr>events := [recvCb_called 1 ''hello'' 1, recvSyncCb_called 1 ''query'' 2,
                              host_call_returned (call_worker_send_sync ''query'') (returned_string ''done'')]\<rparr>,
                0))"
  by (simp add: worker_send_def worker_send_with_receiver worker_send_sync_with_receiver
      booted_nested_env nested_env_fields nested_call_def
      invoke_def Send_def SendSync_def message_block_eq arg0_def IsString_def Utf8Value_def
      NewFromUtf8_def ToCString_def c_str_def Let_def record_event_def worker_init_def
      Locker_construct_def Locker_destruct_def exported_calls string_reply_def numeral_2_eq_2)

lemma boot_load_script:
  "worker_load_script 0 (messaging_env call) (worker_init 1 0) ''boot.js'' ''$recv(f); $recvSync(g);'' =
     Some (Inr (booted (messaging_env call), 0))"
  unfolding booted_messaging_env
  by (simp add: worker_load_script_def worker_load_script_with_eq
      messaging_env_def graph_env_def boot_run_def invoke_def Recv_def RecvSync_def arg0_def Let_def
      worker_init_def Locker_construct_def Locker_destruct_def)

lemma load_a:
  "worker_load_module 1 (graph_env no_imports) (worker_init 1 0) ''a'' =
     Some (Inr ((worker_init 1 0)
                  \<lparr>worker_of := (worker_of (worker_init 1 0))
                     \<lparr>context_w := (context_w (worker_of (worker_init 1 0)))
                        \<lparr>embedder_data := \<lparr>url_to_module_map = [''a'' \<mapsto> 0],
                                            module_to_url_map = [0 \<mapsto> ''a'']\<rparr>\<rparr>\<rparr>,
                   modules_created := 1,
                   events := [getModuleSource_called 1 ''a'', CompileModule_called ''a'']\<rparr>, 0))"
  by (simp add: eval_load no_imports_def)


lemma echo_send_sync:
  "worker_send_sync 1 (messaging_env echo_call) (booted (messaging_env echo_call)) ''hello'' =
     Some (Inr ((booted (messaging_env echo_call))\<lparr>events := [recvSyncCb_called 1 ''hello'' 1]\<rparr>,
                ''v8worker: non-string return value''))"
  by (simp add: worker_send_sync_def worker_send_sync_with_receiver booted_messaging_env
      recvSyncCb_messaging_env Function_Call_messaging_env echo_call_def invoke_def
      SendSync_def message_block_eq arg0_def IsString_def Utf8Value_def NewFromUtf8_def
      ToCString_def c_str_def Let_def record_event_def worker_init_def Locker_construct_def
      Locker_destruct_def)

lemma echo_Send:
  "Send (exported 1 (messaging_env echo_call)) (messaging_env echo_call)
       (Locker_construct (booted (messaging_env echo_call))) [JsString ''hello''] =
     Some (Inr ((booted (messaging_env echo_call))\<lparr>events := [recvCb_called 1 ''hello'' 1], lockers := 1\<rparr>,
                JsUndefined))"
  by (simp add: booted_messaging_env recvCb_messaging_env
      Send_def message_block_eq arg0_def IsString_def Utf8Value_def
      ToCString_def c_str_def Let_def record_event_def worker_init_def Locker_construct_def)

lemma nested_SendSync:
  "SendSync (exported 1 nested_env) nested_env
       ((booted nested_env)\<lparr>lockers := 2\<rparr>) [JsString ''query''] =
     Some (Inr ((booted nested_env)\<lparr>events := [recvSyncCb_called 1 ''query'' 2], lockers := 2\<rparr>,
                JsString ''reply''))"
  by (simp add: booted_nested_env nested_env_fields
      SendSync_def message_block_eq arg0_def IsString_def Utf8Value_def NewFromUtf8_def
      ToCString_def c_str_def Let_def record_event_def worker_init_def)

lemma diamond_load:
  "LoadModule 3 host (graph_env diamond_graph) s ''root'' =
     Some (Inr (entered (graph_env diamond_graph)
             (entered (graph_env diamond_graph)
                (entered (graph_env diamond_graph)
                   (entered (graph_env diamond_graph)
                      (entered (graph_env diamond_graph) s ''root'') ''b'') ''d'') ''c'') ''d'',
           Normal (modules_created s)))"
  by (simp add: numeral_3_eq_3 graph_env_Suc compiled_source_graph_env diamond_graph_def)

lemma diamond_worker_load_module:
  "worker_load_module 3 (graph_env diamond_graph) (worker_init 1 0) ''root'' =
     Some (Inr (Locker_destruct
             (entered (graph_env diamond_graph)
               (entered (graph_env diamond_graph)
                  (entered (graph_env diamond_graph)
                     (entered (graph_env diamond_graph)
                        (entered (graph_env diamond_graph) (Locker_construct (worker_init 1 0)) ''root'')
                        ''b'') ''d'') ''c'') ''d''), 0))"
proof -
  have u: "NewFromUtf8 ''root'' = ''root''" by (simp add: NewFromUtf8_def c_str_def)
  have i: "InstantiateModule (graph_env diamond_graph) m resolve = Inr (Normal True)" for m resolve
    by (simp add: graph_env_def)
  have e: "Evaluate (graph_env diamond_graph) m = idle_run" for m
    by (simp add: graph_env_def)
  have l: "LoadModule 3 host (graph_env diamond_graph) (Locker_construct (worker_init 1 0)) (NewFromUtf8 ''root'') =
     Some (Inr (entered (graph_env diamond_graph)
             (entered (graph_env diamond_graph)
                (entered (graph_env diamond_graph)
                   (entered (graph_env diamond_graph)
                      (entered (graph_env diamond_graph) (Locker_construct (worker_init 1 0)) ''root'')
                      ''b'') ''d'') ''c'') ''d'',
           Normal (modules_created (Locker_construct (worker_init 1 0)))))" for host
    unfolding u by (rule diamond_load)
  show ?thesis
    unfolding worker_load_module_def worker_load_module_with_loaded [OF l]
    by (simp add: i e idle_run_def)
qed

text \<open>A failed instantiation and a failed evaluation.\<close>

lemma stage_failures_return_2_and_3:
  "worker_load_module 2 link_failure_env (worker_init 1 0) ''a'' =
     Some (Inr (state_of (worker_load_module 2 link_failure_env (worker_init 1 0) ''a''), 2))"
  "last_exception (worker_of (state_of (worker_load_module 2 link_failure_env (worker_init 1 0) ''a''))) =
     ''SyntaxError: Unexpected token'' @ [CHR 0x0A]"
  "worker_load_module 2 evaluation_failure_env (worker_init 1 0) ''a'' =
     Some (Inr (state_of (worker_load_module 2 evaluation_failure_env (worker_init 1 0) ''a''), 3))"
  "last_exception (worker_of (state_of (worker_load_module 2 evaluation_failure_env (worker_init 1 0) ''a''))) =
     ''SyntaxError: Unexpected token'' @ [CHR 0x0A]"
  by (simp_all add: eval_load link_failure_env_def evaluation_failure_env_def no_imports_def
      state_of_def numeral_2_eq_2 syntax_error_def ExceptionString_def ToCString_def)

section \<open>The claims\<close>

text \<open>
  C1. Requesting the same module identifier twice within one worker, by two calls of
  \<^verbatim>\<open>worker_load_module\<close> or by reaching it twice inside one recursive load, compiles it
  once and asks the host for its source once. The code does otherwise: \<^verbatim>\<open>LoadModule\<close>
  never reads \<open>url_to_module_map\<close>, so every call starts with a call of
  \<^verbatim>\<open>getModuleSource\<close> and a compilation (\<open>LoadModule_fetches_and_compiles\<close>). The code
  is run on a fresh worker: two loads of \<open>a\<close>, which has no imports, and one load of
  \<open>root\<close>, which requests \<open>b\<close> and \<open>c\<close>, each of which requests \<open>d\<close>. The record of calls
  shows two fetches and two compilations of \<open>a\<close>, and of \<open>d\<close>.
\<close>

theorem same_identifier_fetched_and_compiled_twice:
  "(case worker_load_module 1 (graph_env no_imports) (worker_init 1 0) ''a'' of
      Some (Inr (s1, code1)) \<Rightarrow>
        (case worker_load_module 1 (graph_env no_imports) s1 ''a'' of
           Some (Inr (s2, code2)) \<Rightarrow>
             code1 = 0 \<and> code2 = 0 \<and>
             events s2 = [getModuleSource_called 1 ''a'', CompileModule_called ''a'',
                          getModuleSource_called 1 ''a'', CompileModule_called ''a'']
         | _ \<Rightarrow> False)
    | _ \<Rightarrow> False) \<and>
   (case worker_load_module 3 (graph_env diamond_graph) (worker_init 1 0) ''root'' of
      Some (Inr (s1, code1)) \<Rightarrow>
        code1 = 0 \<and>
        events s1 = [getModuleSource_called 1 ''root'', CompileModule_called ''root'',
                     getModuleSource_called 1 ''b'', CompileModule_called ''b'',
                     getModuleSource_called 1 ''d'', CompileModule_called ''d'',
                     getModuleSource_called 1 ''c'', CompileModule_called ''c'',
                     getModuleSource_called 1 ''d'', CompileModule_called ''d'']
    | _ \<Rightarrow> False)"
proof -
  have twice: "(case worker_load_module 1 (graph_env no_imports) (worker_init 1 0) ''a'' of
      Some (Inr (s1, code1)) \<Rightarrow>
        (case worker_load_module 1 (graph_env no_imports) s1 ''a'' of
           Some (Inr (s2, code2)) \<Rightarrow>
             code1 = 0 \<and> code2 = 0 \<and>
             events s2 = [getModuleSource_called 1 ''a'', CompileModule_called ''a'',
                          getModuleSource_called 1 ''a'', CompileModule_called ''a'']
         | _ \<Rightarrow> False)
    | _ \<Rightarrow> False)"
    by (simp add: eval_load no_imports_def)
  have diamond: "(case worker_load_module 3 (graph_env diamond_graph) (worker_init 1 0) ''root'' of
      Some (Inr (s1, code1)) \<Rightarrow>
        code1 = 0 \<and>
        events s1 = [getModuleSource_called 1 ''root'', CompileModule_called ''root'',
                     getModuleSource_called 1 ''b'', CompileModule_called ''b'',
                     getModuleSource_called 1 ''d'', CompileModule_called ''d'',
                     getModuleSource_called 1 ''c'', CompileModule_called ''c'',
                     getModuleSource_called 1 ''d'', CompileModule_called ''d'']
    | _ \<Rightarrow> False)"
    unfolding diamond_worker_load_module
    by (simp add: events_entered events_fetched Locker_destruct_def Locker_construct_def
        worker_init_def ToStdString_def c_str_def)
  show ?thesis by (rule conjI [OF twice diamond])
qed

text \<open>
  C2. Loading a module graph with an import cycle terminates and returns success, each
  module compiled once. The code does otherwise: on the graph in which \<open>A\<close> requests \<open>B\<close>
  and \<open>B\<close> requests \<open>A\<close>, the load of \<open>A\<close> does not return within any bound on the depth of
  the recursion. The modules are inserted into the map before their requests are visited,
  but nothing looks a url up in the map before loading it.
\<close>

theorem import_cycle_never_returns:
  "\<forall>depth. worker_load_module depth (graph_env cycle_graph) (worker_init 1 0) ''A'' = None"
  by (simp add: worker_load_module_def worker_load_module_with_None NewFromUtf8_def
      c_str_literals cycle_aux)

text \<open>
  C3. \<^verbatim>\<open>worker_load_module\<close> returns 0 on success, 1 when the compilation of any module
  of the graph fails, 2 when the instantiation fails and 3 when the evaluation of the root
  module fails, and in the three failure cases \<open>last_exception\<close> is the formatted
  diagnostic of that failure. The code does otherwise on a graph in which a module that
  does not compile comes after an import cycle: \<open>root\<close> requests \<open>loop\<close> and \<open>bad\<close>, \<open>loop\<close>
  requests itself and \<open>bad\<close> does not compile. \<open>bad\<close> is a module of the graph of \<open>root\<close>
  and its compilation fails, so the claim asks for the code 1; the load of \<open>root\<close> does not
  return within any bound on the depth of the recursion, since nothing looks \<open>loop\<close> up in
  the map before loading it again. For the calls that return, the codes and
  \<open>last_exception\<close> are as the claim says (\<open>worker_load_module_returned\<close> and
  \<open>worker_load_module_returned_graph\<close>, and \<open>stage_failures_return_2_and_3\<close> for a run of
  each of the two later failures), and on graphs without cycles the load returns
  (\<open>LoadModule_returns\<close>).
\<close>

theorem compile_failure_after_cycle_not_reported:
  "transitive_import (graph_env loop_and_failure_graph) 1 ''root'' ''bad'' \<and>
   compiled_source (graph_env loop_and_failure_graph) 1 ''bad'' = Throw syntax_error \<and>
   (\<forall>depth. worker_load_module depth (graph_env loop_and_failure_graph) (worker_init 1 0) ''root'' = None)"
proof -
  have "transitive_import (graph_env loop_and_failure_graph) 1 ''bad'' ''bad''"
    by (rule transitive_import.here)
  then have "transitive_import (graph_env loop_and_failure_graph) 1 ''root'' ''bad''"
    by (rule transitive_import.request [where requests = "[''loop'', ''bad'']" and name = "''bad''", rotated 2])
       (simp_all add: compiled_source_graph_env loop_and_failure_graph_root)
  moreover have "compiled_source (graph_env loop_and_failure_graph) 1 ''bad'' = Throw syntax_error"
    by (simp add: compiled_source_graph_env loop_and_failure_graph_bad)
  moreover have "worker_load_module depth (graph_env loop_and_failure_graph) (worker_init 1 0) ''root'' = None"
    for depth
    by (simp add: worker_load_module_def worker_load_module_with_None NewFromUtf8_def
        c_str_literals loop_root_aux)
  ultimately show ?thesis by blast
qed

text \<open>
  C4. \<^verbatim>\<open>worker_send\<close> returns 1 and sets \<open>last_exception\<close> to the fixed message about the
  callback not registered with \<open>$recv\<close> when no receiver is registered; it returns 2 and
  sets \<open>last_exception\<close> to the formatted diagnostic when the receiver throws; it returns 0
  otherwise, and these are the only codes it returns. The result is the code alone: the
  value that the receiver returns is dropped.
  The receiver's run is given by the calls it makes to the global functions and by its
  completion; the second and third parts are about runs whose calls return (no assertion
  of a global function fails, and the calls that the host makes from its callbacks
  return). The formatted diagnostic is the layout \<open>Diagnostic\<close> of what was caught.
\<close>

theorem worker_send_codes:
  "(recv (worker_of s) = None \<longrightarrow>
      (\<exists>s'. worker_send n E s msg = Some (Inr (s', 1)) \<and>
         last_exception (worker_of s') = ''v8worker: callback not registered with $recv'' \<and>
         s' = s\<lparr>worker_of := (worker_of s)
                  \<lparr>last_exception := ''v8worker: callback not registered with $recv''\<rparr>\<rparr>)) \<and>
   (\<forall>f s1 tc. recv (worker_of s) = Some f \<and>
        run_calls (exported n E) E (Locker_construct s)
          (calls (Function_Call E f [JsString (NewFromUtf8 msg)])) = Some (Inr s1) \<and>
        result (Function_Call E f [JsString (NewFromUtf8 msg)]) = Throw tc \<longrightarrow>
      (\<exists>s'. worker_send n E s msg = Some (Inr (s', 2)) \<and>
         last_exception (worker_of s') = Diagnostic tc \<and>
         s' = Locker_destruct (s1\<lparr>worker_of := (worker_of s1)\<lparr>last_exception := Diagnostic tc\<rparr>\<rparr>))) \<and>
   (\<forall>f s1 v. recv (worker_of s) = Some f \<and>
        run_calls (exported n E) E (Locker_construct s)
          (calls (Function_Call E f [JsString (NewFromUtf8 msg)])) = Some (Inr s1) \<and>
        result (Function_Call E f [JsString (NewFromUtf8 msg)]) = Normal v \<longrightarrow>
      worker_send n E s msg = Some (Inr (Locker_destruct s1, 0))) \<and>
   (\<forall>s' code. worker_send n E s msg = Some (Inr (s', code)) \<longrightarrow>
      (code = 1 \<and> recv (worker_of s) = None \<and>
         last_exception (worker_of s') = ''v8worker: callback not registered with $recv'') \<or>
      (code = 2 \<and> (\<exists>f tc. recv (worker_of s) = Some f \<and>
                      result (Function_Call E f [JsString (NewFromUtf8 msg)]) = Throw tc \<and>
                      last_exception (worker_of s') = Diagnostic tc)) \<or>
      (code = 0 \<and> (\<exists>f v. recv (worker_of s) = Some f \<and>
                      result (Function_Call E f [JsString (NewFromUtf8 msg)]) = Normal v)))"
proof -
  let ?run = "\<lambda>f. Function_Call E f [JsString (NewFromUtf8 msg)]"
  have none: "\<exists>s'. worker_send n E s msg = Some (Inr (s', 1)) \<and>
         last_exception (worker_of s') = ''v8worker: callback not registered with $recv'' \<and>
         s' = s\<lparr>worker_of := (worker_of s)
                  \<lparr>last_exception := ''v8worker: callback not registered with $recv''\<rparr>\<rparr>"
    if "recv (worker_of s) = None"
    using that by (simp add: worker_send_def worker_send_with_no_receiver set_last_exception_def)
  have throws: "\<exists>s'. worker_send n E s msg = Some (Inr (s', 2)) \<and>
         last_exception (worker_of s') = Diagnostic tc \<and>
         s' = Locker_destruct (s1\<lparr>worker_of := (worker_of s1)\<lparr>last_exception := Diagnostic tc\<rparr>\<rparr>)"
    if "recv (worker_of s) = Some f"
      and "run_calls (exported n E) E (Locker_construct s) (calls (?run f)) = Some (Inr s1)"
      and "result (?run f) = Throw tc" for f s1 tc
    using that
    by (simp add: worker_send_def worker_send_with_receiver ExceptionString_Diagnostic
        set_last_exception_def Locker_destruct_def)
  have returns: "worker_send n E s msg = Some (Inr (Locker_destruct s1, 0))"
    if "recv (worker_of s) = Some f"
      and "run_calls (exported n E) E (Locker_construct s) (calls (?run f)) = Some (Inr s1)"
      and "result (?run f) = Normal v" for f s1 v
    using that by (simp add: worker_send_def worker_send_with_receiver)
  have only: "(code = 1 \<and> recv (worker_of s) = None \<and>
         last_exception (worker_of s') = ''v8worker: callback not registered with $recv'') \<or>
      (code = 2 \<and> (\<exists>f tc. recv (worker_of s) = Some f \<and> result (?run f) = Throw tc \<and>
                      last_exception (worker_of s') = Diagnostic tc)) \<or>
      (code = 0 \<and> (\<exists>f v. recv (worker_of s) = Some f \<and> result (?run f) = Normal v))"
    if a: "worker_send n E s msg = Some (Inr (s', code))" for s' code
  proof (cases "recv (worker_of s)")
    case None
    with a show ?thesis by (auto simp: worker_send_def worker_send_with_no_receiver)
  next
    case (Some f)
    from a Some obtain s1 where
      c: "run_calls (exported n E) E (Locker_construct s) (calls (?run f)) = Some (Inr s1)"
      by (auto simp: worker_send_def worker_send_with_receiver split: option.splits sum.splits)
    show ?thesis
    proof (cases "result (?run f)")
      case (Normal v)
      with a Some c show ?thesis by (auto simp: worker_send_def worker_send_with_receiver)
    next
      case (Throw tc)
      with a Some c show ?thesis
        by (auto simp: worker_send_def worker_send_with_receiver ExceptionString_Diagnostic)
    qed
  qed
  show ?thesis using none throws returns only by blast
qed

theorem worker_send_codes_witness:
  "(\<exists>s'. worker_send 1 (messaging_env echo_call) (worker_init 1 0) ''hello'' = Some (Inr (s', 1)) \<and>
      last_exception (worker_of s') = ''v8worker: callback not registered with $recv'') \<and>
   (\<exists>s'. worker_send 1 (messaging_env throwing_call) (booted (messaging_env throwing_call)) ''hello'' =
        Some (Inr (s', 2)) \<and>
      last_exception (worker_of s') = ''SyntaxError: Unexpected token'' @ [CHR 0x0A]) \<and>
   worker_send 1 (messaging_env echo_call) (booted (messaging_env echo_call)) ''hello'' =
     Some (Inr (record_event (booted (messaging_env echo_call)) (recvCb_called 1 ''hello'' 1), 0)) \<and>
   last_exception (worker_of (record_event (booted (messaging_env echo_call)) (recvCb_called 1 ''hello'' 1))) = [] \<and>
   (\<exists>f v. recv (worker_of (booted (messaging_env echo_call))) = Some f \<and>
      result (Function_Call (messaging_env echo_call) f [JsString (NewFromUtf8 ''hello'')]) = Normal v)"
proof -
  let ?T = "messaging_env throwing_call" and ?E = "messaging_env echo_call"
  have h: "NewFromUtf8 ''hello'' = ''hello''" by (simp add: NewFromUtf8_def c_str_def)
  have n: "recv (worker_of (worker_init 1 0)) = None" by (simp add: worker_init_def)
  have f: "recv (worker_of (booted (messaging_env call))) = Some 2" for call
    by (simp add: booted_messaging_env)
  have t: "Function_Call ?T 2 [JsString (NewFromUtf8 ''hello'')] = \<lparr>calls = [], result = Throw syntax_error\<rparr>"
    by (simp add: Function_Call_messaging_env throwing_call_def)
  have tc: "run_calls (exported 1 ?T) ?T (Locker_construct (booted ?T))
      (calls (Function_Call ?T 2 [JsString (NewFromUtf8 ''hello'')])) = Some (Inr (Locker_construct (booted ?T)))"
    by (simp add: t)
  have tr: "result (Function_Call ?T 2 [JsString (NewFromUtf8 ''hello'')]) = Throw syntax_error"
    by (simp add: t)
  have d: "Diagnostic syntax_error = ''SyntaxError: Unexpected token'' @ [CHR 0x0A]"
    by (simp add: Diagnostic_def syntax_error_def spec_line_def C_text_def up_to_NUL_def)
  have e: "Function_Call ?E 2 [JsString (NewFromUtf8 ''hello'')] =
      \<lparr>calls = [(G_send, [JsString ''hello''])], result = Normal JsUndefined\<rparr>"
    by (simp add: Function_Call_messaging_env echo_call_def h)
  have "run_calls (exported 1 ?E) ?E (Locker_construct (booted ?E)) [(G_send, [JsString ''hello''])] =
      Some (Inr (record_event (Locker_construct (booted ?E)) (recvCb_called 1 ''hello'' 1)))"
    by (simp add: invoke_def Send_def message_block_eq arg0_def IsString_def Utf8Value_def ToCString_def
        c_str_def Let_def booted_messaging_env worker_init_def recvCb_messaging_env Locker_construct_def)
  then have ec: "run_calls (exported 1 ?E) ?E (Locker_construct (booted ?E))
      (calls (Function_Call ?E 2 [JsString (NewFromUtf8 ''hello'')])) =
      Some (Inr (record_event (Locker_construct (booted ?E)) (recvCb_called 1 ''hello'' 1)))"
    by (simp add: e)
  have er: "result (Function_Call ?E 2 [JsString (NewFromUtf8 ''hello'')]) = Normal JsUndefined"
    by (simp add: e)
  have ld: "Locker_destruct (record_event (Locker_construct (booted ?E)) (recvCb_called 1 ''hello'' 1)) =
      record_event (booted ?E) (recvCb_called 1 ''hello'' 1)"
    by (simp add: Locker_destruct_def Locker_construct_def record_event_def)
  have one: "\<exists>s'. worker_send 1 ?E (worker_init 1 0) ''hello'' = Some (Inr (s', 1)) \<and>
      last_exception (worker_of s') = ''v8worker: callback not registered with $recv''"
    using worker_send_codes [of "worker_init 1 0" 1 ?E "''hello''"] n by blast
  have "\<exists>s'. worker_send 1 ?T (booted ?T) ''hello'' = Some (Inr (s', 2)) \<and>
      last_exception (worker_of s') = Diagnostic syntax_error"
    using worker_send_codes [of "booted ?T" 1 ?T "''hello''"] f [of throwing_call] tc tr by blast
  then have two: "\<exists>s'. worker_send 1 ?T (booted ?T) ''hello'' = Some (Inr (s', 2)) \<and>
      last_exception (worker_of s') = ''SyntaxError: Unexpected token'' @ [CHR 0x0A]"
    unfolding d .
  have "worker_send 1 ?E (booted ?E) ''hello'' =
      Some (Inr (Locker_destruct (record_event (Locker_construct (booted ?E)) (recvCb_called 1 ''hello'' 1)), 0))"
    using worker_send_codes [of "booted ?E" 1 ?E "''hello''"] f [of echo_call] ec er by blast
  then have three: "worker_send 1 ?E (booted ?E) ''hello'' =
      Some (Inr (record_event (booted ?E) (recvCb_called 1 ''hello'' 1), 0))"
    unfolding ld .
  have four: "last_exception (worker_of (record_event (booted ?E) (recvCb_called 1 ''hello'' 1))) = []"
    by (simp add: record_event_def booted_messaging_env worker_init_def)
  have five: "\<exists>f v. recv (worker_of (booted ?E)) = Some f \<and>
      result (Function_Call ?E f [JsString (NewFromUtf8 ''hello'')]) = Normal v"
    using worker_send_codes [of "booted ?E" 1 ?E "''hello''"] three by auto
  show ?thesis using one two three four five by blast
qed



text \<open>
  C6. When the engine supplies message information, \<^verbatim>\<open>ExceptionString\<close> produces the
  resource name and the line number joined as \<open>name:line\<close>, then the offending source
  line, then an underline of carets from the start column to the end column, preceded by
  as many spaces as the start column, then the stack trace if it is not empty and the bare
  exception message otherwise, each on a line of its own and in this order; when there is
  no message information it produces the exception message and a newline only.
  As stated, with the texts taken whole (\<open>spec_Diagnostic\<close>), this fails: the function
  appends C strings, which end at the first NUL character. For a thrown string with the
  characters \<open>a\<close>, NUL, \<open>b\<close> and no message information it produces \<open>a\<close> and a newline; and
  for a stack trace that starts with NUL it produces an empty line where the layout as
  stated has the exception message, since the test for an empty trace counts the
  characters after the NUL too.
\<close>

theorem ExceptionString_cuts_at_NUL:
  "ExceptionString \<lparr>Exception = Some [CHR ''a'', CHR 0x00, CHR ''b''], Message = None, StackTrace = None\<rparr>
     = [CHR ''a'', CHR 0x0A] \<and>
   spec_Diagnostic \<lparr>Exception = Some [CHR ''a'', CHR 0x00, CHR ''b''], Message = None, StackTrace = None\<rparr>
     = [CHR ''a'', CHR 0x00, CHR ''b'', CHR 0x0A] \<and>
   ExceptionString
     \<lparr>Exception = Some ''e'',
      Message = Some \<lparr>ResourceName = Some ''a.js'', GetLineNumber = 1, GetSourceLine = Some ''x'',
                       GetStartColumn = Some 0, GetEndColumn = Some 1\<rparr>,
      StackTrace = Some [CHR 0x00, CHR ''t'']\<rparr>
     = ''a.js:1'' @ [CHR 0x0A] @ ''x'' @ [CHR 0x0A] @ ''^'' @ [CHR 0x0A] @ [CHR 0x0A] \<and>
   spec_Diagnostic
     \<lparr>Exception = Some ''e'',
      Message = Some \<lparr>ResourceName = Some ''a.js'', GetLineNumber = 1, GetSourceLine = Some ''x'',
                       GetStartColumn = Some 0, GetEndColumn = Some 1\<rparr>,
      StackTrace = Some [CHR 0x00, CHR ''t'']\<rparr>
     = ''a.js:1'' @ [CHR 0x0A] @ ''x'' @ [CHR 0x0A] @ ''^'' @ [CHR 0x0A] @ [CHR 0x00, CHR ''t'', CHR 0x0A]"
  by (simp add: ExceptionString_Diagnostic Diagnostic_def spec_Diagnostic_def spec_line_def
      spec_text_def C_text_def up_to_NUL_def spec_caret_underline_def FromMaybe_def format_i_def)

text \<open>
  C6, amended. The layout is that of the claim, with every text taken up to its first NUL
  character, a text that cannot be converted replaced by
  \<^verbatim>\<open><v8worker: string conversion failed>\<close>, and the stack trace taken when it has a
  character at all, be it NUL: \<^verbatim>\<open>ExceptionString\<close>, translated from the source with its
  buffer and its two loops, computes the layout \<open>Diagnostic\<close> written from these words.
\<close>

theorem ExceptionString_layout: "ExceptionString tc = Diagnostic tc"
proof (cases "Message tc")
  case None
  then show ?thesis by (simp add: ExceptionString_def Diagnostic_def spec_line_def ToCString_C_text)
next
  case (Some m)
  have take: "snprintf_i 20 (GetLineNumber m) = format_i (sint (GetLineNumber m))"
    using length_format_i [of "GetLineNumber m"] by (simp add: snprintf_i_def)
  have sp: "append_loop '' '' i b out = out @ replicate (nat (sint b - sint i)) (CHR '' '')" for i b out
    by (rule append_loop_replicate)
  have ca: "append_loop ''^'' i b out = out @ replicate (nat (sint b - sint i)) (CHR ''^'')" for i b out
    by (rule append_loop_replicate)
  show ?thesis
  proof (cases "StackTrace tc")
    case None
    show ?thesis
      unfolding ExceptionString_def Diagnostic_def Let_def spec_line_def spec_caret_underline_def
        ToCString_C_text
      by (simp only: Some None option.case take sp ca) (simp add: Utf8Value_length_def)
  next
    case (Some t)
    show ?thesis
      unfolding ExceptionString_def Diagnostic_def Let_def spec_line_def spec_caret_underline_def
        ToCString_C_text
      by (simp only: \<open>Message tc = Some m\<close> Some option.case take sp ca)
         (simp add: C_text_def Utf8Value_length_def)
  qed
qed

theorem ExceptionString_layout_witness:
  "ExceptionString
     \<lparr>Exception = Some ''ReferenceError: x is not defined'',
      Message = Some \<lparr>ResourceName = Some ''a.js'', GetLineNumber = 12,
                       GetSourceLine = Some ''  x + 1;'', GetStartColumn = Some 2,
                       GetEndColumn = Some 3\<rparr>,
      StackTrace = Some (''at a.js:12'' @ [CHR 0x00] @ ''rest'')\<rparr>
   = ''a.js:12'' @ [CHR 0x0A] @ ''  x + 1;'' @ [CHR 0x0A] @ ''  ^'' @ [CHR 0x0A]
     @ ''at a.js:12'' @ [CHR 0x0A] \<and>
   ExceptionString
     \<lparr>Exception = None,
      Message = Some \<lparr>ResourceName = None, GetLineNumber = - 3,
                       GetSourceLine = Some [], GetStartColumn = None,
                       GetEndColumn = Some 2\<rparr>,
      StackTrace = Some []\<rparr>
   = ''<v8worker: string conversion failed>:-3'' @ [CHR 0x0A] @ [CHR 0x0A] @ ''^^'' @ [CHR 0x0A]
     @ ''<v8worker: string conversion failed>'' @ [CHR 0x0A]"
  by (simp add: ExceptionString_layout Diagnostic_def spec_line_def spec_caret_underline_def
        C_text_def up_to_NUL_def FromMaybe_def format_i_def numeral_2_eq_2)

text \<open>
  C7. When the root module compiles but the source of a transitive import does not,
  \<^verbatim>\<open>worker_load_module\<close> returns the code of a direct compile failure of the root, 1, with
  a diagnostic captured and the failed module not inserted. The code does otherwise on the
  graph of C3: \<open>root\<close> compiles, with the requests \<open>loop\<close> and \<open>bad\<close>, and \<open>bad\<close> does not
  compile. Loading \<open>bad\<close> directly returns 1 with the diagnostic of the failed compilation
  in \<open>last_exception\<close> and no entry for \<open>bad\<close> in \<open>url_to_module_map\<close>; loading \<open>root\<close> does
  not return within any bound on the depth of the recursion, because the load of \<open>loop\<close>,
  which comes first, loads \<open>loop\<close> again without end. When \<open>bad\<close> is requested before
  \<open>loop\<close>, or when the graph has no cycle, the load of the root returns 1
  (\<open>failing_import_returns_1\<close>).
\<close>

theorem import_compile_failure_after_cycle_not_reported:
  "compiled_source (graph_env loop_and_failure_graph) 1 ''root'' = Normal [''loop'', ''bad''] \<and>
   compiled_source (graph_env loop_and_failure_graph) 1 ''bad'' = Throw syntax_error \<and>
   worker_load_module 1 (graph_env loop_and_failure_graph) (worker_init 1 0) ''bad'' =
     Some (Inr ((worker_init 1 0)
                  \<lparr>worker_of := (worker_of (worker_init 1 0))
                     \<lparr>last_exception := ''SyntaxError: Unexpected token'' @ [CHR 0x0A]\<rparr>,
                   events := [getModuleSource_called 1 ''bad'', CompileModule_called ''bad'']\<rparr>, 1)) \<and>
   url_map ((worker_init 1 0)
                  \<lparr>worker_of := (worker_of (worker_init 1 0))
                     \<lparr>last_exception := ''SyntaxError: Unexpected token'' @ [CHR 0x0A]\<rparr>,
                   events := [getModuleSource_called 1 ''bad'', CompileModule_called ''bad'']\<rparr>) ''bad'' = None \<and>
   (\<forall>depth. worker_load_module depth (graph_env loop_and_failure_graph) (worker_init 1 0) ''root'' = None)"
proof -
  have "worker_load_module depth (graph_env loop_and_failure_graph) (worker_init 1 0) ''root'' = None"
    for depth
    by (simp add: worker_load_module_def worker_load_module_with_None NewFromUtf8_def
        c_str_literals loop_root_aux)
  moreover have "worker_load_module 1 (graph_env loop_and_failure_graph) (worker_init 1 0) ''bad'' =
     Some (Inr ((worker_init 1 0)
                  \<lparr>worker_of := (worker_of (worker_init 1 0))
                     \<lparr>last_exception := ''SyntaxError: Unexpected token'' @ [CHR 0x0A]\<rparr>,
                   events := [getModuleSource_called 1 ''bad'', CompileModule_called ''bad'']\<rparr>, 1))"
    by (simp add: eval_load loop_and_failure_graph_def syntax_error_def ExceptionString_def ToCString_def)
  moreover have "url_map ((worker_init 1 0)
                  \<lparr>worker_of := (worker_of (worker_init 1 0))
                     \<lparr>last_exception := ''SyntaxError: Unexpected token'' @ [CHR 0x0A]\<rparr>,
                   events := [getModuleSource_called 1 ''bad'', CompileModule_called ''bad'']\<rparr>) ''bad'' = None"
    by (simp add: url_map_def worker_init_def GetModuleData_def InitModuleData_def Let_def)
  ultimately show ?thesis
    by (simp add: compiled_source_graph_env loop_and_failure_graph_root loop_and_failure_graph_bad)
qed

text \<open>
  C8. \<open>last_exception\<close> is overwritten only by failing operations and never cleared or
  modified on success: every call to \<^verbatim>\<open>worker_load_script\<close>, \<^verbatim>\<open>worker_load_module\<close> or
  \<^verbatim>\<open>worker_send\<close> that returns 0, and every call to \<^verbatim>\<open>worker_send_sync\<close>, leaves it as it
  was before the call. As stated this fails where the host calls the worker again from a
  callback: a script calls \<open>$send\<close>, the host's \<^verbatim>\<open>recvCb\<close> calls \<^verbatim>\<open>worker_send\<close> on the same
  worker, which has no receiver and so fails with code 1 and sets \<open>last_exception\<close>; the
  call of \<^verbatim>\<open>worker_load_script\<close> that ran the script returns 0, and \<open>last_exception\<close>, empty
  before the call, holds the message of the failed nested call after it. The same happens
  in a call of \<^verbatim>\<open>worker_load_module\<close> when the host's \<^verbatim>\<open>getModuleSource\<close> makes that call.
\<close>

theorem last_exception_changed_by_nested_call:
  "worker_load_script 1 reentrant_env (worker_init 1 0) ''main.js'' ''$send(msg)'' =
     Some (Inr (state_of (worker_load_script 1 reentrant_env (worker_init 1 0) ''main.js'' ''$send(msg)''), 0)) \<and>
   last_exception (worker_of (worker_init 1 0)) = [] \<and>
   last_exception (worker_of
      (state_of (worker_load_script 1 reentrant_env (worker_init 1 0) ''main.js'' ''$send(msg)''))) =
     ''v8worker: callback not registered with $recv'' \<and>
   worker_load_module 1 reentrant_source_env (worker_init 1 0) ''a'' =
     Some (Inr (state_of (worker_load_module 1 reentrant_source_env (worker_init 1 0) ''a''), 0)) \<and>
   last_exception (worker_of
      (state_of (worker_load_module 1 reentrant_source_env (worker_init 1 0) ''a''))) =
     ''v8worker: callback not registered with $recv''"
  unfolding reentrant_load_script reentrant_source_load_module state_of_def
  by (simp add: worker_init_def)

text \<open>
  C8, amended. Every call to \<^verbatim>\<open>worker_load_script\<close>, \<^verbatim>\<open>worker_load_module\<close> or
  \<^verbatim>\<open>worker_send\<close> that returns 0, and every call to \<^verbatim>\<open>worker_send_sync\<close>, leaves
  \<open>last_exception\<close> as it was before the call, unless a call that the host made into the
  worker from one of its callbacks (\<^verbatim>\<open>recvCb\<close>, \<^verbatim>\<open>recvSyncCb\<close>, \<^verbatim>\<open>getModuleSource\<close>) during it
  returned a failure code. The calls that the host makes from its callbacks, and what
  they return, are in the record that the call adds to.
\<close>

theorem last_exception_kept:
  "(worker_load_script n E s name_s source_s = Some (Inr (s', 0)) \<longrightarrow>
      events s' = events s @ added s s' \<and>
      (filter failed_call (added s s') = [] \<longrightarrow>
         last_exception (worker_of s') = last_exception (worker_of s))) \<and>
   (worker_load_module n E s url_s = Some (Inr (s', 0)) \<longrightarrow>
      events s' = events s @ added s s' \<and>
      (filter failed_call (added s s') = [] \<longrightarrow>
         last_exception (worker_of s') = last_exception (worker_of s))) \<and>
   (worker_send n E s msg = Some (Inr (s', 0)) \<longrightarrow>
      events s' = events s @ added s s' \<and>
      (filter failed_call (added s s') = [] \<longrightarrow>
         last_exception (worker_of s') = last_exception (worker_of s))) \<and>
   (worker_send_sync n E s msg = Some (Inr (s', out)) \<longrightarrow>
      events s' = events s @ added s s' \<and>
      (filter failed_call (added s s') = [] \<longrightarrow>
         last_exception (worker_of s') = last_exception (worker_of s)))"
proof -
  have k: "events s' = events s @ added s s' \<and>
      (filter failed_call (added s s') = [] \<longrightarrow>
         last_exception (worker_of s') = last_exception (worker_of s))"
    if "kept 1 True s s'"
    using that by (simp add: kept_def)
  have "kept 1 True s s'" if "worker_load_script n E s name_s source_s = Some (Inr (s', 0))"
    using worker_load_script_kept [OF that] by simp
  moreover have "kept 1 True s s'" if "worker_load_module n E s url_s = Some (Inr (s', 0))"
    using worker_load_module_kept [OF that] by simp
  moreover have "kept 1 True s s'" if "worker_send n E s msg = Some (Inr (s', 0))"
    using worker_send_kept [OF that] by simp
  moreover have "kept 1 True s s'" if "worker_send_sync n E s msg = Some (Inr (s', out))"
    using that by (rule worker_send_sync_kept)
  ultimately show ?thesis using k by blast
qed

theorem last_exception_kept_witness:
  "last_exception (worker_of (booted (messaging_env echo_call))) = last_exception (worker_of (worker_init 1 0)) \<and>
   last_exception (worker_of (state_of
      (worker_load_module 1 (graph_env no_imports) (worker_init 1 0) ''a''))) =
     last_exception (worker_of (worker_init 1 0)) \<and>
   last_exception (worker_of (state_of
      (worker_send 2 nested_env (booted nested_env) ''hello''))) =
     last_exception (worker_of (booted nested_env)) \<and>
   last_exception (worker_of (state_of
      (worker_send_sync 1 (messaging_env echo_call) (booted (messaging_env echo_call)) ''hello''))) =
     last_exception (worker_of (booted (messaging_env echo_call)))"
proof -
  let ?E = "messaging_env echo_call" and ?G = "graph_env no_imports"
  let ?boot = "worker_load_script 0 ?E (worker_init 1 0) ''boot.js'' ''$recv(f); $recvSync(g);''"
  let ?load = "worker_load_module 1 ?G (worker_init 1 0) ''a''"
  let ?send = "worker_send 2 nested_env (booted nested_env) ''hello''"
  let ?sync = "worker_send_sync 1 ?E (booted ?E) ''hello''"
  have b: "?boot = Some (Inr (booted ?E, 0))" by (rule boot_load_script)
  have bf: "filter failed_call (added (worker_init 1 0) (booted ?E)) = []"
    by (simp add: booted_messaging_env added_def worker_init_def)
  have one: "last_exception (worker_of (booted ?E)) = last_exception (worker_of (worker_init 1 0))"
    using last_exception_kept [of 0 ?E "worker_init 1 0" "''boot.js''" "''$recv(f); $recvSync(g);''"
        "booted ?E"] b bf
    by blast
  have l: "?load = Some (Inr (state_of ?load, 0))" unfolding load_a state_of_def by simp
  have lf: "filter failed_call (added (worker_init 1 0) (state_of ?load)) = []"
    unfolding load_a state_of_def by (simp add: added_def worker_init_def failed_call_def)
  have two: "last_exception (worker_of (state_of ?load)) = last_exception (worker_of (worker_init 1 0))"
    using last_exception_kept [of 1 ?G "worker_init 1 0" _ _ "state_of ?load" "''a''"] l lf
    by blast
  have s: "?send = Some (Inr (state_of ?send, 0))" unfolding nested_send state_of_def by simp
  have sf: "filter failed_call (added (booted nested_env) (state_of ?send)) = []"
    unfolding nested_send state_of_def
    by (simp add: added_def booted_nested_env worker_init_def failed_call_def)
  have three: "last_exception (worker_of (state_of ?send)) = last_exception (worker_of (booted nested_env))"
    using last_exception_kept [of 2 nested_env "booted nested_env" _ _ "state_of ?send" _ "''hello''"] s sf
    by blast
  have y: "?sync = Some (Inr (state_of ?sync, ''v8worker: non-string return value''))"
    unfolding echo_send_sync state_of_def by simp
  have yf: "filter failed_call (added (booted ?E) (state_of ?sync)) = []"
    unfolding echo_send_sync state_of_def
    by (simp add: added_def booted_messaging_env worker_init_def failed_call_def)
  have four: "last_exception (worker_of (state_of ?sync)) = last_exception (worker_of (booted ?E))"
    using last_exception_kept [of 1 ?E "booted ?E" _ _ "state_of ?sync" _ "''hello''"
        "''v8worker: non-string return value''"] y yf
    by blast
  show ?thesis using one two three four by blast
qed

text \<open>
  C9. In \<open>$send\<close> and \<open>$sendSync\<close> the execution lock of the engine is released before the
  host's callback is called, so that a host callback that calls the same worker again
  acquires the lock afresh and independently of the original acquisition. As stated this
  fails: the lock is held as long as a \<^verbatim>\<open>Locker\<close> is alive, the script that calls \<open>$send\<close>
  runs under the \<^verbatim>\<open>Locker\<close> of the exported function that runs it, and only the \<^verbatim>\<open>Locker\<close>
  that \<^verbatim>\<open>Send\<close> itself constructs is destroyed before the callback (no \<^verbatim>\<open>Unlocker\<close> is used;
  the source asks whether one should be). In the run of \<^verbatim>\<open>worker_send\<close> on a worker whose
  receiver calls \<open>$send\<close>, \<^verbatim>\<open>recvCb\<close> is called with one \<^verbatim>\<open>Locker\<close> alive; and where \<^verbatim>\<open>recvCb\<close>
  calls \<^verbatim>\<open>worker_send_sync\<close> on the same worker, whose receiver calls \<open>$sendSync\<close>,
  \<^verbatim>\<open>recvSyncCb\<close> is called with two alive: the \<^verbatim>\<open>Locker\<close> of the nested call is constructed
  under that of the original call.
\<close>

theorem lock_held_at_host_callback:
  "added (booted (messaging_env echo_call))
     (state_of (worker_send 1 (messaging_env echo_call) (booted (messaging_env echo_call)) ''hello'')) =
     [recvCb_called 1 ''hello'' 1] \<and>
   added (booted nested_env) (state_of (worker_send 2 nested_env (booted nested_env) ''hello'')) =
     [recvCb_called 1 ''hello'' 1, recvSyncCb_called 1 ''query'' 2,
      host_call_returned (call_worker_send_sync ''query'') (returned_string ''done'')]"
  unfolding echo_send nested_send state_of_def
  by (simp add: added_def booted_messaging_env booted_nested_env worker_init_def)

text \<open>
  C9, amended. In \<open>$send\<close> and \<open>$sendSync\<close> the \<^verbatim>\<open>Locker\<close> that the function constructs is
  destroyed before the host's callback is called: the callback is called, with the message
  up to its first NUL character, under as many live \<^verbatim>\<open>Locker\<close> objects as there were when
  the function was entered. The \<^verbatim>\<open>Locker\<close> of the exported function under which the script
  runs is alive then, so the lock is held during the callback: every callback of the host
  during a call of an exported function is called with more \<^verbatim>\<open>Locker\<close> objects alive than
  there were before the call, also the callbacks during the calls that a host callback
  makes into the same worker, whose \<^verbatim>\<open>Locker\<close> objects are constructed under the ones
  alive. When the call returns, as many are alive as before it.
\<close>

theorem lockers_at_host_callbacks:
  "(Send (exported n E) E s args = Some (Inr (s', v)) \<longrightarrow>
      (\<exists>rest. added s s' =
         recvCb_called (id_w (worker_of s)) (C_text (Utf8Value E (arg0 args))) (lockers s) # rest)) \<and>
   (SendSync (exported n E) E s args = Some (Inr (s', v)) \<longrightarrow>
      (\<exists>rest. added s s' =
         recvSyncCb_called (id_w (worker_of s)) (C_text (Utf8Value E (arg0 args))) (lockers s) # rest)) \<and>
   (worker_load_script n E s name_s source_s = Some (Inr (s', code)) \<longrightarrow>
      lockers s' = lockers s \<and> (\<forall>k \<in> set (lockers_at_callbacks (added s s')). lockers s < k)) \<and>
   (worker_load_module n E s url_s = Some (Inr (s', code)) \<longrightarrow>
      lockers s' = lockers s \<and> (\<forall>k \<in> set (lockers_at_callbacks (added s s')). lockers s < k)) \<and>
   (worker_send n E s msg = Some (Inr (s', code)) \<longrightarrow>
      lockers s' = lockers s \<and> (\<forall>k \<in> set (lockers_at_callbacks (added s s')). lockers s < k)) \<and>
   (worker_send_sync n E s msg = Some (Inr (s', out)) \<longrightarrow>
      lockers s' = lockers s \<and> (\<forall>k \<in> set (lockers_at_callbacks (added s s')). lockers s < k))"
proof -
  let ?msg = "ToCString (Utf8Value E (arg0 args))"
  have k: "lockers s' = lockers s \<and> (\<forall>k \<in> set (lockers_at_callbacks (added s s')). lockers s < k)"
    if "kept 1 ok s s'" for ok
    using that by (auto simp: kept_def)
  have send: "\<exists>rest. added s s' = recvCb_called (id_w (worker_of s)) (C_text (Utf8Value E (arg0 args))) (lockers s) # rest"
    if a: "Send (exported n E) E s args = Some (Inr (s', v))"
  proof -
    obtain u where "run_callback (recvCb E (id_w (worker_of s)) ?msg) (exported n E)
        (record_event s (recvCb_called (id_w (worker_of s)) ?msg (lockers s))) = Some (Inr (s', u))"
      using a by (auto simp: Send_def message_block_eq Let_def split: if_splits option.splits sum.splits)
    with exported_kept
    have "added s s' = recvCb_called (id_w (worker_of s)) ?msg (lockers s)
        # added (record_event s (recvCb_called (id_w (worker_of s)) ?msg (lockers s))) s'"
      by (rule run_callback_added)
    then show ?thesis by (simp add: ToCString_C_text)
  qed
  have sync: "\<exists>rest. added s s' = recvSyncCb_called (id_w (worker_of s)) (C_text (Utf8Value E (arg0 args))) (lockers s) # rest"
    if a: "SendSync (exported n E) E s args = Some (Inr (s', v))"
  proof -
    obtain u where "run_callback (recvSyncCb E (id_w (worker_of s)) ?msg) (exported n E)
        (record_event s (recvSyncCb_called (id_w (worker_of s)) ?msg (lockers s))) = Some (Inr (s', u))"
      using a by (auto simp: SendSync_def message_block_eq Let_def split: if_splits option.splits sum.splits)
    with exported_kept
    have "added s s' = recvSyncCb_called (id_w (worker_of s)) ?msg (lockers s)
        # added (record_event s (recvSyncCb_called (id_w (worker_of s)) ?msg (lockers s))) s'"
      by (rule run_callback_added)
    then show ?thesis by (simp add: ToCString_C_text)
  qed
  have "kept 1 (code = 0) s s'" if "worker_load_script n E s name_s source_s = Some (Inr (s', code))"
    using that by (rule worker_load_script_kept)
  moreover have "kept 1 (code = 0) s s'" if "worker_load_module n E s url_s = Some (Inr (s', code))"
    using that by (rule worker_load_module_kept)
  moreover have "kept 1 (code = 0) s s'" if "worker_send n E s msg = Some (Inr (s', code))"
    using that by (rule worker_send_kept)
  moreover have "kept 1 True s s'" if "worker_send_sync n E s msg = Some (Inr (s', out))"
    using that by (rule worker_send_sync_kept)
  ultimately show ?thesis using k send sync by blast
qed

theorem lockers_at_host_callbacks_witness:
  "(\<exists>rest. added (Locker_construct (booted (messaging_env echo_call)))
             ((booted (messaging_env echo_call))\<lparr>events := [recvCb_called 1 ''hello'' 1], lockers := 1\<rparr>) =
           recvCb_called 1 ''hello'' 1 # rest) \<and>
   (\<exists>rest. added ((booted nested_env)\<lparr>lockers := 2\<rparr>)
             ((booted nested_env)\<lparr>events := [recvSyncCb_called 1 ''query'' 2], lockers := 2\<rparr>) =
           recvSyncCb_called 1 ''query'' 2 # rest) \<and>
   lockers (state_of (worker_load_script 1 reentrant_env (worker_init 1 0) ''main.js'' ''$send(msg)'')) =
     lockers (worker_init 1 0) \<and>
   lockers (state_of (worker_load_module 1 (graph_env no_imports) (worker_init 1 0) ''a'')) =
     lockers (worker_init 1 0) \<and>
   lockers (state_of (worker_send 2 nested_env (booted nested_env) ''hello'')) = lockers (booted nested_env) \<and>
   lockers_at_callbacks
     (added (booted nested_env) (state_of (worker_send 2 nested_env (booted nested_env) ''hello''))) = [1, 2] \<and>
   lockers (booted nested_env) < 1 \<and>
   lockers (booted nested_env) < 2 \<and>
   lockers (state_of (worker_send_sync 1 (messaging_env echo_call) (booted (messaging_env echo_call)) ''hello'')) =
     lockers (booted (messaging_env echo_call))"
proof -
  let ?E = "messaging_env echo_call" and ?G = "graph_env no_imports"
  let ?script = "worker_load_script 1 reentrant_env (worker_init 1 0) ''main.js'' ''$send(msg)''"
  let ?load = "worker_load_module 1 ?G (worker_init 1 0) ''a''"
  let ?send = "worker_send 2 nested_env (booted nested_env) ''hello''"
  let ?sync = "worker_send_sync 1 ?E (booted ?E) ''hello''"
  have t: "C_text (Utf8Value E (arg0 [JsString ''hello''])) = ''hello''"
    "C_text (Utf8Value E (arg0 [JsString ''query''])) = ''query''" for E
    by (simp_all add: C_text_def Utf8Value_def arg0_def up_to_NUL_def)
  have i: "id_w (worker_of (Locker_construct (booted ?E))) = 1"
    "lockers (Locker_construct (booted ?E)) = 1"
    "id_w (worker_of ((booted nested_env)\<lparr>lockers := 2\<rparr>)) = 1"
    by (simp_all add: booted_messaging_env booted_nested_env Locker_construct_def worker_init_def)
  have "\<exists>rest. added (Locker_construct (booted ?E))
             ((booted ?E)\<lparr>events := [recvCb_called 1 ''hello'' 1], lockers := 1\<rparr>) =
           recvCb_called (id_w (worker_of (Locker_construct (booted ?E))))
             (C_text (Utf8Value ?E (arg0 [JsString ''hello''])))
             (lockers (Locker_construct (booted ?E))) # rest"
    using lockers_at_host_callbacks [of 1 ?E "Locker_construct (booted ?E)" "[JsString ''hello'']"
        "(booted ?E)\<lparr>events := [recvCb_called 1 ''hello'' 1], lockers := 1\<rparr>" JsUndefined]
      echo_Send
    by blast
  then have one: "\<exists>rest. added (Locker_construct (booted ?E))
             ((booted ?E)\<lparr>events := [recvCb_called 1 ''hello'' 1], lockers := 1\<rparr>) =
           recvCb_called 1 ''hello'' 1 # rest"
    unfolding t i .
  have "\<exists>rest. added ((booted nested_env)\<lparr>lockers := 2\<rparr>)
             ((booted nested_env)\<lparr>events := [recvSyncCb_called 1 ''query'' 2], lockers := 2\<rparr>) =
           recvSyncCb_called (id_w (worker_of ((booted nested_env)\<lparr>lockers := 2\<rparr>)))
             (C_text (Utf8Value nested_env (arg0 [JsString ''query''])))
             (lockers ((booted nested_env)\<lparr>lockers := 2\<rparr>)) # rest"
    using lockers_at_host_callbacks [of 1 nested_env "(booted nested_env)\<lparr>lockers := 2\<rparr>"
        "[JsString ''query'']"
        "(booted nested_env)\<lparr>events := [recvSyncCb_called 1 ''query'' 2], lockers := 2\<rparr>"
        "JsString ''reply''"]
      nested_SendSync
    by blast
  then have two: "\<exists>rest. added ((booted nested_env)\<lparr>lockers := 2\<rparr>)
             ((booted nested_env)\<lparr>events := [recvSyncCb_called 1 ''query'' 2], lockers := 2\<rparr>) =
           recvSyncCb_called 1 ''query'' 2 # rest"
    unfolding t i by simp
  have c: "?script = Some (Inr (state_of ?script, 0))"
    unfolding reentrant_load_script state_of_def by simp
  have three: "lockers (state_of ?script) = lockers (worker_init 1 0)"
    using lockers_at_host_callbacks [of 1 reentrant_env "worker_init 1 0" _ "state_of ?script" _
        "''main.js''" "''$send(msg)''" 0] c
    by blast
  have l: "?load = Some (Inr (state_of ?load, 0))" unfolding load_a state_of_def by simp
  have four: "lockers (state_of ?load) = lockers (worker_init 1 0)"
    using lockers_at_host_callbacks [of 1 ?G "worker_init 1 0" _ "state_of ?load" _ _ _ 0 "''a''"] l
    by blast
  have s: "?send = Some (Inr (state_of ?send, 0))" unfolding nested_send state_of_def by simp
  have sc: "lockers_at_callbacks (added (booted nested_env) (state_of ?send)) = [1, 2]"
    unfolding nested_send state_of_def
    by (simp add: added_def booted_nested_env worker_init_def lockers_at_callbacks_def)
  have "lockers (state_of ?send) = lockers (booted nested_env) \<and>
      (\<forall>k \<in> set (lockers_at_callbacks (added (booted nested_env) (state_of ?send))).
         lockers (booted nested_env) < k)"
    using lockers_at_host_callbacks [of 2 nested_env "booted nested_env" _ "state_of ?send" _ _ _ 0 _
        "''hello''"] s
    by blast
  then have five: "lockers (state_of ?send) = lockers (booted nested_env)"
    "lockers (booted nested_env) < 1" "lockers (booted nested_env) < 2"
    unfolding sc by simp_all
  have y: "?sync = Some (Inr (state_of ?sync, ''v8worker: non-string return value''))"
    unfolding echo_send_sync state_of_def by simp
  have six: "lockers (state_of ?sync) = lockers (booted ?E)"
    using lockers_at_host_callbacks [of 1 ?E "booted ?E" _ "state_of ?sync" _ _ _ _ _ "''hello''"
        "''v8worker: non-string return value''"] y
    by blast
  show ?thesis using one two three four five six sc by blast
qed

text \<open>
  C10. After every step of \<^verbatim>\<open>LoadModule\<close> the two maps of the module data are mutual
  inverses. The code does otherwise: after the second of two loads of \<open>a\<close> on a fresh
  worker, \<open>module_to_url_map\<close> maps the second module, 1, to \<open>a\<close>, while
  \<open>url_to_module_map\<close> still maps \<open>a\<close> to the first module, 0, since \<^verbatim>\<open>insert\<close> keeps the
  entry of a key that is present. The url is compiled a second time only because nothing
  looks it up in the map.
\<close>

theorem module_maps_not_inverse:
  "(case worker_load_module 1 (graph_env no_imports) (worker_init 1 0) ''a'' of
      Some (Inr (s1, code1)) \<Rightarrow>
        (case worker_load_module 1 (graph_env no_imports) s1 ''a'' of
           Some (Inr (s2, code2)) \<Rightarrow>
             code1 = 0 \<and> code2 = 0 \<and> module_map s2 1 = Some ''a'' \<and> url_map s2 ''a'' = Some 0
         | _ \<Rightarrow> False)
    | _ \<Rightarrow> False)"
  by (simp add: eval_load no_imports_def module_map_def url_map_def)


end
